theory Spec2Isabelle
  imports Complex_Main
begin

section \<open>Python values used by the path utilities\<close>

text \<open>
  The two source files are \<^verbatim>\<open>src/common/path_utils.py\<close> (artifact paths,
  hyperparameter files) and \<^verbatim>\<open>evaluation.py\<close> (test evaluation, the training
  loop and the driver over subsets and bootstrap iterations).

  Strings are byte strings restricted to ASCII: \<^verbatim>\<open>lower\<close> and \<^verbatim>\<open>strip\<close>
  act on ASCII letters and ASCII whitespace only. Exceptions are values of \<open>error\<close>.
\<close>

datatype error =
    ValueError | TypeError | KeyError | IndexError | ZeroDivisionError | RuntimeError
  | FileNotFoundError | FileExistsError | NotADirectoryError | IsADirectoryError | YAMLError
  | CollaboratorError

text \<open>\<^verbatim>\<open>str(n)\<close> for a Python int: decimal digits, a leading minus sign when negative.\<close>

definition digit_char :: "nat \<Rightarrow> char" where
  "digit_char d = ''0123456789'' ! d"

function str_nat :: "nat \<Rightarrow> string" where
  "str_nat n = (if n < 10 then [digit_char n] else str_nat (n div 10) @ [digit_char (n mod 10)])"
  by pat_completeness auto
termination
  by (relation "measure (\<lambda>n. n)") auto

declare str_nat.simps [simp del]

definition str_int :: "int \<Rightarrow> string" where
  "str_int i = (if i < 0 then CHR ''-'' # str_nat (nat (- i)) else str_nat (nat i))"

text \<open>
  An argument that the docstrings call an int but that Python lets be \<^verbatim>\<open>None\<close>
  (the default of several parameters): \<open>None\<close> is \<^verbatim>\<open>None\<close>, and an f-string
  renders it as the text \<^verbatim>\<open>None\<close>.
\<close>

definition fmt :: "int option \<Rightarrow> string" where
  "fmt v = (case v of None \<Rightarrow> ''None'' | Some i \<Rightarrow> str_int i)"

definition lower_char :: "char \<Rightarrow> char" where
  "lower_char c =
     (case map_of (zip ''ABCDEFGHIJKLMNOPQRSTUVWXYZ'' ''abcdefghijklmnopqrstuvwxyz'') c of
        Some l \<Rightarrow> l | None \<Rightarrow> c)"

definition lower :: "string \<Rightarrow> string" where
  "lower s = map lower_char s"

definition is_space :: "char \<Rightarrow> bool" where
  "is_space c \<longleftrightarrow>
     c \<in> set [CHR 0x09, CHR 0x0A, CHR 0x0B, CHR 0x0C, CHR 0x0D,
               CHR 0x1C, CHR 0x1D, CHR 0x1E, CHR 0x1F, CHR 0x20]"

text \<open>\<^verbatim>\<open>s.strip(chars)\<close>: drop the characters of \<open>chars\<close> from both ends.\<close>

definition strip_chars :: "(char \<Rightarrow> bool) \<Rightarrow> string \<Rightarrow> string" where
  "strip_chars P s = rev (dropWhile P (rev (dropWhile P s)))"

definition strip :: "string \<Rightarrow> string" where
  "strip s = strip_chars is_space s"

text \<open>\<^verbatim>\<open>s.split(c)\<close> for a single character: the pieces between the occurrences.\<close>

fun splitc :: "char \<Rightarrow> string \<Rightarrow> string list" where
  "splitc c [] = [[]]"
| "splitc c (x # xs) =
     (if x = c then [] # splitc c xs
      else (case splitc c xs of [] \<Rightarrow> [[x]] | y # ys \<Rightarrow> (x # y) # ys))"

fun join_sep :: "string list \<Rightarrow> string" where
  "join_sep [] = []"
| "join_sep [x] = x"
| "join_sep (x # y # ys) = x @ ''/'' @ join_sep (y # ys)"

section \<open>pathlib paths (POSIX flavour)\<close>

text \<open>
  A \<^verbatim>\<open>pathlib.Path\<close> is its anchor (empty, \<^verbatim>\<open>/\<close> or \<^verbatim>\<open>//\<close>) and its
  list of names. Parsing a string splits it at \<^verbatim>\<open>/\<close> and drops the empty names
  and the names \<^verbatim>\<open>.\<close>; joining with an absolute path gives that path.
\<close>

datatype path = PurePath (anchor: string) (names: "string list")

definition parse_anchor :: "string \<Rightarrow> string" where
  "parse_anchor s =
     (if take 1 s = ''/'' then (if take 2 s = ''//'' \<and> take 3 s \<noteq> ''///'' then ''//'' else ''/'')
      else [])"

definition Path_str :: "string \<Rightarrow> path" where
  "Path_str s = PurePath (parse_anchor s) (filter (\<lambda>n. n \<noteq> [] \<and> n \<noteq> ''.'') (splitc CHR ''/'' s))"

definition joinpath :: "path \<Rightarrow> path \<Rightarrow> path" where
  "joinpath p q = (if anchor q \<noteq> [] then q else PurePath (anchor p) (names p @ names q))"

definition as_posix :: "path \<Rightarrow> string" where
  "as_posix p = (if anchor p = [] \<and> names p = [] then ''.'' else anchor p @ join_sep (names p))"

definition parent :: "path \<Rightarrow> path" where
  "parent p = PurePath (anchor p) (butlast (names p))"

text \<open>An argument documented as \<^verbatim>\<open>str or pathlib.Path\<close>; \<open>Other\<close> is any other object.\<close>

datatype pyarg = Str string | PathObj path | Other

definition Path :: "pyarg \<Rightarrow> error + path" where
  "Path a = (case a of Str s \<Rightarrow> Inr (Path_str s) | PathObj p \<Rightarrow> Inr p | Other \<Rightarrow> Inl TypeError)"

section \<open>The file system\<close>

text \<open>
  YAML documents as \<^verbatim>\<open>yaml.safe_load\<close> returns them. A mapping is an association
  list in insertion order, as a Python dict is, with strings as keys (model names,
  hyperparameter names); floats are the rationals they denote.
\<close>

datatype yaml =
    YNull | YBool bool | YInt int | YFloat rat | YStr string
  | YSeq "yaml list" | YMap "(string \<times> yaml) list"

text \<open>\<^verbatim>\<open>d[k] = v\<close> on a dict: replace in place, or append a new key.\<close>

fun dict_set :: "'k \<Rightarrow> 'v \<Rightarrow> ('k \<times> 'v) list \<Rightarrow> ('k \<times> 'v) list" where
  "dict_set k v [] = [(k, v)]"
| "dict_set k v ((k', v') # kvs) = (if k' = k then (k, v) # kvs else (k', v') # dict_set k v kvs)"

text \<open>
  A node is a directory or a regular file; a file holds a YAML document, or text that
  \<^verbatim>\<open>yaml.safe_load\<close> rejects (\<open>None\<close>). Paths are relative to the working directory,
  which exists, as does the root.
\<close>

datatype node = Dir | File "yaml option"

type_synonym fs = "path \<Rightarrow> node option"

definition lookup_node :: "fs \<Rightarrow> path \<Rightarrow> node option" where
  "lookup_node fs p = (if names p = [] then Some Dir else fs p)"

definition exists :: "fs \<Rightarrow> path \<Rightarrow> bool" where
  "exists fs p \<longleftrightarrow> lookup_node fs p \<noteq> None"

text \<open>
  \<^verbatim>\<open>os.makedirs(p, exist_ok=True)\<close>: create every missing ancestor, then \<open>p\<close>.
  A regular file in the place of an ancestor is NotADirectoryError, in the place of
  \<open>p\<close> itself FileExistsError.
\<close>

fun makedirs_from :: "string \<Rightarrow> string list \<Rightarrow> string list \<Rightarrow> fs \<Rightarrow> error + fs" where
  "makedirs_from a pre [] fs = Inr fs"
| "makedirs_from a pre (n # ns) fs =
     (case fs (PurePath a (pre @ [n])) of
        Some (File _) \<Rightarrow> Inl (if ns = [] then FileExistsError else NotADirectoryError)
      | _ \<Rightarrow> makedirs_from a (pre @ [n]) ns (fs(PurePath a (pre @ [n]) \<mapsto> Dir)))"

definition makedirs :: "path \<Rightarrow> fs \<Rightarrow> error + fs" where
  "makedirs p fs = makedirs_from (anchor p) [] (names p) fs"

text \<open>No regular file stands where \<open>p\<close> or one of its ancestors is to be a directory.\<close>

definition dirs_creatable :: "fs \<Rightarrow> path \<Rightarrow> bool" where
  "dirs_creatable fs p \<longleftrightarrow>
     list_all (\<lambda>k. case fs (PurePath (anchor p) (take k (names p))) of
                      Some (File _) \<Rightarrow> False | _ \<Rightarrow> True)
       [1 ..< Suc (length (names p))]"

text \<open>\<^verbatim>\<open>yaml.safe_load(open(p, "r"))\<close>.\<close>

definition read_yaml :: "fs \<Rightarrow> path \<Rightarrow> error + yaml" where
  "read_yaml fs p =
     (case lookup_node fs p of
        None \<Rightarrow> Inl FileNotFoundError
      | Some Dir \<Rightarrow> Inl IsADirectoryError
      | Some (File None) \<Rightarrow> Inl YAMLError
      | Some (File (Some y)) \<Rightarrow> Inr y)"

text \<open>
  \<^verbatim>\<open>yaml.dump(y, open(p, "w"))\<close>: the file is created in an existing directory or
  overwritten. What is read back is the document that was dumped (the order of the keys
  of a mapping apart, which no statement below depends on).
\<close>

definition write_yaml :: "path \<Rightarrow> yaml \<Rightarrow> fs \<Rightarrow> error + fs" where
  "write_yaml p y fs =
     (case lookup_node fs p of
        Some Dir \<Rightarrow> Inl IsADirectoryError
      | Some (File _) \<Rightarrow> Inr (fs(p \<mapsto> File (Some y)))
      | None \<Rightarrow>
          (case lookup_node fs (parent p) of
             Some Dir \<Rightarrow> Inr (fs(p \<mapsto> File (Some y)))
           | Some (File _) \<Rightarrow> Inl NotADirectoryError
           | None \<Rightarrow> Inl FileNotFoundError))"

section \<open>path\_utils: file names and folders\<close>

text \<open>\<^verbatim>\<open>"/" in filename or "\\" in filename\<close>.\<close>

definition has_separator :: "string \<Rightarrow> bool" where
  "has_separator s \<longleftrightarrow> CHR ''/'' \<in> set s \<or> CHR 0x5C \<in> set s"

definition check_just_file :: "pyarg \<Rightarrow> error + unit" where
  "check_just_file filename =
     (case filename of
        Other \<Rightarrow> Inl TypeError
      | PathObj p \<Rightarrow> (if has_separator (as_posix p) then Inl ValueError else Inr ())
      | Str s \<Rightarrow> (if has_separator s then Inl ValueError else Inr ()))"

definition create_folder :: "path \<Rightarrow> fs \<Rightarrow> error + fs" where
  "create_folder folder_path fs = makedirs folder_path fs"

text \<open>
  \<open>make_file_path\<close> returns the merged path, or the exception, together with the file
  system it leaves behind.
\<close>

definition make_file_path :: "pyarg \<Rightarrow> pyarg \<Rightarrow> bool \<Rightarrow> fs \<Rightarrow> (error + path) \<times> fs" where
  "make_file_path folder filename check_folder_exists fs =
     (case check_just_file filename of
        Inl e \<Rightarrow> (Inl e, fs)
      | Inr _ \<Rightarrow>
         (case Path folder of
            Inl e \<Rightarrow> (Inl e, fs)
          | Inr folder_path \<Rightarrow>
             (case (if check_folder_exists then create_folder folder_path fs else Inr fs) of
                Inl e \<Rightarrow> (Inl e, fs)
              | Inr fs' \<Rightarrow>
                 (case Path filename of
                    Inl e \<Rightarrow> (Inl e, fs')
                  | Inr name \<Rightarrow> (Inr (joinpath folder_path name), fs')))))"

section \<open>path\_utils: the Shapes results folders\<close>

text \<open>
  The constants that \<^verbatim>\<open>path_utils.py\<close> imports from \<^verbatim>\<open>src/constants.py\<close>.
  That module is not among the sources, so the functions below take the constants as a
  parameter.
\<close>

record constants =
  RESULTS_FOLDER :: string
  HISTORY_FOLDER :: string
  SAVED_MODELS_FOLDER :: string
  PLOTS_FOLDER :: string
  HYPERPARAMETERS_FOLDER :: string
  ORACLE_FOLDER :: string
  SHAPES_FOLDER :: string
  CUB_FOLDER :: string
  MODEL_STRINGS_ALL_SHAPES :: "string list"
  DEFAULT_HYPERPARAMETERS_FILENAME_SHAPES :: string
  DEFAULT_HYPERPARAMETERS_FILENAME_SHAPES_HARD :: string
  FAST_HYPERPARAMETERS_FILENAME_SHAPES :: string
  FAST_HYPERPARAMETERS_FILENAME_SHAPES_HARD :: string

text \<open>The text of the f-string \<^verbatim>\<open>c{n_classes}_a{n_attr}_s{signal_strength}\<close>.\<close>

definition shapes_folder_string :: "int option \<Rightarrow> int option \<Rightarrow> int option \<Rightarrow> string" where
  "shapes_folder_string n_classes n_attr signal_strength =
     ''c'' @ fmt n_classes @ ''_a'' @ fmt n_attr @ ''_s'' @ fmt signal_strength"

definition get_shapes_folder_name :: "int option \<Rightarrow> int option \<Rightarrow> int option \<Rightarrow> path" where
  "get_shapes_folder_name n_classes n_attr signal_strength =
     Path_str (shapes_folder_string n_classes n_attr signal_strength @ ''/'')"

definition get_dataset_folder :: "constants \<Rightarrow> string \<Rightarrow> error + path" where
  "get_dataset_folder C dataset_name =
     (let name = filter (\<lambda>c. c \<noteq> CHR 0x5C) (filter (\<lambda>c. c \<noteq> CHR ''/'') (strip (lower dataset_name)))
      in if name = ''shapes'' then Inr (Path_str (SHAPES_FOLDER C))
         else if name = ''cub'' then Inr (Path_str (CUB_FOLDER C))
         else Inl ValueError)"

definition get_full_shapes_folder_path ::
  "constants \<Rightarrow> int option \<Rightarrow> int option \<Rightarrow> int option \<Rightarrow> string \<Rightarrow> error + path" where
  "get_full_shapes_folder_path C n_classes n_attr signal_strength relative_folder =
     (let base_folder = Path_str (RESULTS_FOLDER C) in
      case get_dataset_folder C ''shapes'' of
        Inl e \<Rightarrow> Inl e
      | Inr dataset_folder \<Rightarrow>
          Inr (joinpath (joinpath (joinpath base_folder (Path_str relative_folder)) dataset_folder)
                 (get_shapes_folder_name n_classes n_attr signal_strength)))"

text \<open>\<^verbatim>\<open>"" if not hard_bottleneck else "_hard"\<close>.\<close>

definition bottleneck_suffix :: "bool \<Rightarrow> string" where
  "bottleneck_suffix hard_bottleneck = (if \<not> hard_bottleneck then [] else ''_hard'')"

text \<open>
  The functions that load or save a history, a model or a plot compute a path and hand it
  to \<^verbatim>\<open>pickle\<close>, \<^verbatim>\<open>torch\<close> or \<^verbatim>\<open>matplotlib\<close>. Each definition below
  is that function up to the path it hands over (suffix \<open>_path\<close>), with the file system
  that \<open>make_file_path\<close> leaves.
\<close>

definition load_history_shapes_path ::
  "constants \<Rightarrow> int option \<Rightarrow> int option \<Rightarrow> int option \<Rightarrow> int option \<Rightarrow> int option \<Rightarrow> bool \<Rightarrow> bool
     \<Rightarrow> fs \<Rightarrow> (error + path) \<times> fs" where
  "load_history_shapes_path C n_classes n_attr signal_strength n_bootstrap n_subset hard_bottleneck
       oracle_only fs =
     (case get_full_shapes_folder_path C n_classes n_attr signal_strength (HISTORY_FOLDER C) of
        Inl e \<Rightarrow> (Inl e, fs)
      | Inr folder \<Rightarrow>
          (let folder_name = (if oracle_only then joinpath folder (Path_str (ORACLE_FOLDER C)) else folder);
               hard = (if oracle_only then False else hard_bottleneck);
               filename = Path_str (''histories_sub'' @ fmt n_subset @ ''_b'' @ fmt n_bootstrap
                                      @ bottleneck_suffix hard @ ''.pkl'')
           in make_file_path (PathObj folder_name) (PathObj filename) False fs))"

definition save_history_shapes_path ::
  "constants \<Rightarrow> int option \<Rightarrow> int option \<Rightarrow> int option \<Rightarrow> int option \<Rightarrow> int option \<Rightarrow> bool \<Rightarrow> bool
     \<Rightarrow> fs \<Rightarrow> (error + path) \<times> fs" where
  "save_history_shapes_path C n_classes n_attr signal_strength n_bootstrap n_subset oracle_only
       hard_bottleneck fs =
     (case get_full_shapes_folder_path C n_classes n_attr signal_strength (HISTORY_FOLDER C) of
        Inl e \<Rightarrow> (Inl e, fs)
      | Inr folder \<Rightarrow>
          (let folder_name = (if oracle_only then joinpath folder (Path_str (ORACLE_FOLDER C)) else folder);
               filename = Path_str (''histories_sub'' @ fmt n_subset @ ''_b'' @ fmt n_bootstrap
                                      @ bottleneck_suffix hard_bottleneck @ ''.pkl'')
           in make_file_path (PathObj folder_name) (PathObj filename) True fs))"

definition adversarial_suffix :: "bool \<Rightarrow> string" where
  "adversarial_suffix adversarial = (if adversarial then ''_adversarial'' else [])"

definition load_model_shapes_path ::
  "constants \<Rightarrow> int option \<Rightarrow> int option \<Rightarrow> int option \<Rightarrow> int option \<Rightarrow> string \<Rightarrow> string \<Rightarrow> bool \<Rightarrow> bool
     \<Rightarrow> fs \<Rightarrow> (error + path) \<times> fs" where
  "load_model_shapes_path C n_classes n_attr signal_strength n_subset model_type0 metric
       hard_bottleneck adversarial fs =
     (let model_type = lower (strip model_type0) in
      if model_type \<notin> set (MODEL_STRINGS_ALL_SHAPES C) then (Inl ValueError, fs)
      else
        (case get_full_shapes_folder_path C n_classes n_attr signal_strength (SAVED_MODELS_FOLDER C) of
           Inl e \<Rightarrow> (Inl e, fs)
         | Inr folder_name \<Rightarrow>
             (let bottleneck = (if \<not> hard_bottleneck then [] else ''_hard'');
                  filename = Path_str (model_type @ ''_sub'' @ fmt n_subset @ ''_'' @ metric
                                         @ bottleneck @ adversarial_suffix adversarial @ ''.pth'')
              in make_file_path (PathObj folder_name) (PathObj filename) False fs)))"

definition save_model_shapes_path ::
  "constants \<Rightarrow> int option \<Rightarrow> int option \<Rightarrow> int option \<Rightarrow> int option \<Rightarrow> string \<Rightarrow> string \<Rightarrow> bool \<Rightarrow> bool
     \<Rightarrow> fs \<Rightarrow> (error + path) \<times> fs" where
  "save_model_shapes_path C n_classes n_attr signal_strength n_subset model_type0 metric
       hard_bottleneck adversarial fs =
     (let model_type = lower (strip model_type0) in
      if model_type \<notin> set (MODEL_STRINGS_ALL_SHAPES C) then (Inl ValueError, fs)
      else
        (case get_full_shapes_folder_path C n_classes n_attr signal_strength (SAVED_MODELS_FOLDER C) of
           Inl e \<Rightarrow> (Inl e, fs)
         | Inr folder_name \<Rightarrow>
             (let bottleneck = (if model_type = ''cnn'' \<or> \<not> hard_bottleneck then [] else ''_hard'');
                  filename = Path_str (model_type @ ''_sub'' @ fmt n_subset @ ''_'' @ metric
                                         @ bottleneck @ adversarial_suffix adversarial @ ''.pth'')
              in make_file_path (PathObj folder_name) (PathObj filename) True fs)))"

definition save_mpo_plot_shapes_path ::
  "constants \<Rightarrow> int option \<Rightarrow> int option \<Rightarrow> int option \<Rightarrow> int option \<Rightarrow> int option \<Rightarrow> bool
     \<Rightarrow> fs \<Rightarrow> (error + path) \<times> fs" where
  "save_mpo_plot_shapes_path C n_classes n_attr signal_strength n_bootstrap n_subset hard_bottleneck fs =
     (case get_full_shapes_folder_path C n_classes n_attr signal_strength (PLOTS_FOLDER C) of
        Inl e \<Rightarrow> (Inl e, fs)
      | Inr folder_name \<Rightarrow>
          (let filename = Path_str (''mpo_sub'' @ fmt n_subset @ ''_b'' @ fmt n_bootstrap
                                      @ bottleneck_suffix hard_bottleneck @ ''.pdf'')
           in make_file_path (PathObj folder_name) (PathObj filename) True fs))"

definition save_training_plot_shapes_path ::
  "constants \<Rightarrow> int option \<Rightarrow> int option \<Rightarrow> int option \<Rightarrow> int option \<Rightarrow> int option \<Rightarrow> bool \<Rightarrow> bool
     \<Rightarrow> fs \<Rightarrow> (error + path) \<times> fs" where
  "save_training_plot_shapes_path C n_classes n_attr signal_strength n_bootstrap n_subset
       hard_bottleneck attr fs =
     (case get_full_shapes_folder_path C n_classes n_attr signal_strength (PLOTS_FOLDER C) of
        Inl e \<Rightarrow> (Inl e, fs)
      | Inr folder_name \<Rightarrow>
          (let attr_string = (if \<not> attr then [] else ''attr_'');
               filename = Path_str (''training_history_'' @ attr_string @ ''sub'' @ fmt n_subset
                                      @ ''_b'' @ fmt n_bootstrap @ bottleneck_suffix hard_bottleneck
                                      @ ''.pdf'')
           in make_file_path (PathObj folder_name) (PathObj filename) True fs))"

definition save_test_plot_shapes_path ::
  "constants \<Rightarrow> int option \<Rightarrow> int option \<Rightarrow> int option \<Rightarrow> int option \<Rightarrow> bool
     \<Rightarrow> fs \<Rightarrow> (error + path) \<times> fs" where
  "save_test_plot_shapes_path C n_classes n_attr signal_strength n_bootstrap hard_bottleneck fs =
     (case get_full_shapes_folder_path C n_classes n_attr signal_strength (PLOTS_FOLDER C) of
        Inl e \<Rightarrow> (Inl e, fs)
      | Inr folder_name \<Rightarrow>
          (let filename = Path_str (''test_accuracies_b'' @ fmt n_bootstrap
                                      @ bottleneck_suffix hard_bottleneck @ ''.pdf'')
           in make_file_path (PathObj folder_name) (PathObj filename) True fs))"

text \<open>
  A sample of the constants, for the closed examples: the values are those one would
  expect from the names, and no general theorem depends on them.
\<close>

definition sample_consts :: constants where
  "sample_consts = \<lparr>
     RESULTS_FOLDER = ''results/'', HISTORY_FOLDER = ''history/'',
     SAVED_MODELS_FOLDER = ''saved_models/'', PLOTS_FOLDER = ''plots/'',
     HYPERPARAMETERS_FOLDER = ''hyperparameters/'', ORACLE_FOLDER = ''oracle/'',
     SHAPES_FOLDER = ''shapes/'', CUB_FOLDER = ''cub/'',
     MODEL_STRINGS_ALL_SHAPES = [''cnn'', ''cbm'', ''cbm_res'', ''cbm_skip'', ''scm'', ''lr_oracle'', ''nn_oracle''],
     DEFAULT_HYPERPARAMETERS_FILENAME_SHAPES = ''default.yaml'',
     DEFAULT_HYPERPARAMETERS_FILENAME_SHAPES_HARD = ''default_hard.yaml'',
     FAST_HYPERPARAMETERS_FILENAME_SHAPES = ''fast.yaml'',
     FAST_HYPERPARAMETERS_FILENAME_SHAPES_HARD = ''fast_hard.yaml'' \<rparr>"

section \<open>path\_utils: hyperparameter files\<close>

text \<open>
  \<^verbatim>\<open>warnings.warn(message)\<close>: the warning is recorded with the path that the
  message names, and the call goes on.
\<close>

datatype warning = UsingSoftWithHard path | FallingBackOnDefault path

text \<open>\<^verbatim>\<open>d["hard"] = True\<close> on one entry of the loaded set.\<close>

fun set_hard :: "yaml \<Rightarrow> error + yaml" where
  "set_hard (YMap d) = Inr (YMap (dict_set ''hard'' (YBool True) d))"
| "set_hard _ = Inl TypeError"

text \<open>
  \<^verbatim>\<open>for key in hyperparameters: hyperparameters[key]["hard"] = True\<close> over the
  entries of a dict, in order, stopping at the first entry that is not itself a dict.
\<close>

fun set_hard_entries :: "(string \<times> yaml) list \<Rightarrow> error + (string \<times> yaml) list" where
  "set_hard_entries [] = Inr []"
| "set_hard_entries ((k, v) # kvs) =
     (case set_hard v of
        Inl e \<Rightarrow> Inl e
      | Inr v' \<Rightarrow> (case set_hard_entries kvs of Inl e \<Rightarrow> Inl e | Inr kvs' \<Rightarrow> Inr ((k, v') # kvs')))"

text \<open>
  The same loop when the file held a list: the elements are the keys. An integer (or
  boolean) element indexes the list, from the end when negative, and IndexError is raised
  out of range; any other element is no list index (TypeError).
\<close>

fun list_index :: "yaml \<Rightarrow> int option" where
  "list_index (YInt i) = Some i"
| "list_index (YBool b) = Some (if b then 1 else 0)"
| "list_index _ = None"

fun set_hard_elements :: "yaml list \<Rightarrow> yaml list \<Rightarrow> error + yaml list" where
  "set_hard_elements xs [] = Inr xs"
| "set_hard_elements xs (key # keys) =
     (case list_index key of
        None \<Rightarrow> Inl TypeError
      | Some i \<Rightarrow>
          (let j = (if i < 0 then i + int (length xs) else i)
           in if j < 0 \<or> int (length xs) \<le> j then Inl IndexError
              else (case set_hard (xs ! nat j) of
                      Inl e \<Rightarrow> Inl e
                    | Inr v \<Rightarrow> set_hard_elements (xs[nat j := v]) keys)))"

text \<open>
  The loop on whatever the file held: a mapping, a list, a string (whose characters are
  no string indices: TypeError unless it is empty), or a value that cannot be iterated.
\<close>

fun force_hard :: "yaml \<Rightarrow> error + yaml" where
  "force_hard (YMap kvs) = (case set_hard_entries kvs of Inl e \<Rightarrow> Inl e | Inr kvs' \<Rightarrow> Inr (YMap kvs'))"
| "force_hard (YSeq xs) = (case set_hard_elements xs xs of Inl e \<Rightarrow> Inl e | Inr xs' \<Rightarrow> Inr (YSeq xs'))"
| "force_hard (YStr []) = Inr (YStr [])"
| "force_hard _ = Inl TypeError"

text \<open>
  The lines that \<open>load_hyperparameters_shapes\<close> and \<open>save_hyperparameters_shapes\<close>
  share: the folder of the configuration and the file
  \<^verbatim>\<open>hyperparameters_sub{n_subset}{bottleneck}.yaml\<close> in it.
\<close>

definition hyperparameters_file_shapes ::
  "constants \<Rightarrow> int option \<Rightarrow> int option \<Rightarrow> int option \<Rightarrow> int option \<Rightarrow> bool \<Rightarrow> fs
     \<Rightarrow> error + (path \<times> path)" where
  "hyperparameters_file_shapes C n_classes n_attr signal_strength n_subset hard_bottleneck fs =
     (case get_full_shapes_folder_path C n_classes n_attr signal_strength (HYPERPARAMETERS_FOLDER C) of
        Inl e \<Rightarrow> Inl e
      | Inr folder_name \<Rightarrow>
          (let filename = Path_str (''hyperparameters_sub'' @ fmt n_subset
                                      @ bottleneck_suffix hard_bottleneck @ ''.yaml'')
           in case fst (make_file_path (PathObj folder_name) (PathObj filename) False fs) of
                Inl e \<Rightarrow> Inl e
              | Inr file_path \<Rightarrow> Inr (folder_name, file_path)))"

text \<open>
  The block under \<^verbatim>\<open>if default:\<close>, with the warnings issued before it. The
  parameter \<^verbatim>\<open>default\<close> of \<open>load_hyperparameters_shapes\<close> is written
  \<open>default_arg\<close> below.
\<close>

definition load_default_hyperparameters ::
  "constants \<Rightarrow> bool \<Rightarrow> fs \<Rightarrow> warning list \<Rightarrow> (error + yaml) \<times> warning list" where
  "load_default_hyperparameters C hard_bottleneck fs ws =
     (let base_folder = joinpath (joinpath (Path_str (RESULTS_FOLDER C)) (Path_str (HYPERPARAMETERS_FOLDER C)))
                          (Path_str (SHAPES_FOLDER C));
          default_file = (if hard_bottleneck then DEFAULT_HYPERPARAMETERS_FILENAME_SHAPES_HARD C
                          else DEFAULT_HYPERPARAMETERS_FILENAME_SHAPES C)
      in case fst (make_file_path (PathObj base_folder) (Str default_file) False fs) of
           Inl e \<Rightarrow> (Inl e, ws)
         | Inr default_path \<Rightarrow> (read_yaml fs default_path, ws))"

definition load_hyperparameters_shapes ::
  "constants \<Rightarrow> int option \<Rightarrow> int option \<Rightarrow> int option \<Rightarrow> int option \<Rightarrow> bool \<Rightarrow> bool \<Rightarrow> bool
     \<Rightarrow> fs \<Rightarrow> (error + yaml) \<times> warning list" where
  "load_hyperparameters_shapes C n_classes n_attr signal_strength n_subset hard_bottleneck fast
       default_arg fs =
     (if (\<not> default_arg \<and> \<not> fast) \<and> (n_classes = None \<or> n_attr = None \<or> n_subset = None)
      then (Inl ValueError, [])
      else if fast then
        (let base_folder = joinpath (joinpath (Path_str (RESULTS_FOLDER C))
                              (Path_str (HYPERPARAMETERS_FOLDER C))) (Path_str (SHAPES_FOLDER C));
             fast_file = (if hard_bottleneck then FAST_HYPERPARAMETERS_FILENAME_SHAPES_HARD C
                          else FAST_HYPERPARAMETERS_FILENAME_SHAPES C)
         in case fst (make_file_path (PathObj base_folder) (Str fast_file) False fs) of
              Inl e \<Rightarrow> (Inl e, [])
            | Inr fast_path \<Rightarrow> (read_yaml fs fast_path, []))
      else
        (case hyperparameters_file_shapes C n_classes n_attr signal_strength n_subset hard_bottleneck fs of
           Inl e \<Rightarrow> (Inl e, [])
         | Inr (folder_name, file_path) \<Rightarrow>
             if \<not> default_arg \<and> \<not> exists fs file_path then
               (if hard_bottleneck then
                  (let alt_filename = Path_str (''hyperparameters_sub'' @ fmt n_subset @ ''.yaml'')
                   in case fst (make_file_path (PathObj folder_name) (PathObj alt_filename) False fs) of
                        Inl e \<Rightarrow> (Inl e, [])
                      | Inr alt_file_path \<Rightarrow>
                          if exists fs alt_file_path then
                            (case read_yaml fs alt_file_path of
                               Inl e \<Rightarrow> (Inl e, [UsingSoftWithHard alt_file_path])
                             | Inr hyperparameters \<Rightarrow>
                                 (force_hard hyperparameters, [UsingSoftWithHard alt_file_path]))
                          else load_default_hyperparameters C hard_bottleneck fs
                                 [FallingBackOnDefault alt_file_path])
                else load_default_hyperparameters C hard_bottleneck fs [FallingBackOnDefault file_path])
             else if default_arg then load_default_hyperparameters C hard_bottleneck fs []
             else (read_yaml fs file_path, [])))"

text \<open>\<^verbatim>\<open>hyperparameters_full[model_type] = hyperparameters_dict\<close> on what the file held.\<close>

fun set_model_entry :: "yaml \<Rightarrow> string \<Rightarrow> yaml \<Rightarrow> error + yaml" where
  "set_model_entry (YMap kvs) k v = Inr (YMap (dict_set k v kvs))"
| "set_model_entry _ k v = Inl TypeError"

definition save_hyperparameters_shapes ::
  "constants \<Rightarrow> int option \<Rightarrow> int option \<Rightarrow> int option \<Rightarrow> int option \<Rightarrow> yaml \<Rightarrow> string \<Rightarrow> bool
     \<Rightarrow> fs \<Rightarrow> (error + unit) \<times> fs" where
  "save_hyperparameters_shapes C n_classes n_attr signal_strength n_subset hyperparameters_dict
       model_type hard_bottleneck fs =
     (if model_type \<notin> set (MODEL_STRINGS_ALL_SHAPES C) then (Inl ValueError, fs)
      else
        (case hyperparameters_file_shapes C n_classes n_attr signal_strength n_subset hard_bottleneck fs of
           Inl e \<Rightarrow> (Inl e, fs)
         | Inr (folder_name, file_path) \<Rightarrow>
             if \<not> exists fs file_path then
               (case makedirs folder_name fs of
                  Inl e \<Rightarrow> (Inl e, fs)
                | Inr fs1 \<Rightarrow>
                    (case write_yaml file_path (YMap [(model_type, hyperparameters_dict)]) fs1 of
                       Inl e \<Rightarrow> (Inl e, fs1)
                     | Inr fs2 \<Rightarrow> (Inr (), fs2)))
             else
               (case read_yaml fs file_path of
                  Inl e \<Rightarrow> (Inl e, fs)
                | Inr loaded \<Rightarrow>
                    (let hyperparameters_full = (if loaded = YNull then YMap [] else loaded)
                     in case set_model_entry hyperparameters_full model_type hyperparameters_dict of
                          Inl e \<Rightarrow> (Inl e, fs)
                        | Inr updated \<Rightarrow>
                            (case write_yaml file_path updated fs of
                               Inl e \<Rightarrow> (Inl e, fs)
                             | Inr fs' \<Rightarrow> (Inr (), fs'))))))"

text \<open>
  Sample hyperparameter sets and file systems for the closed examples: one that holds
  only the soft-bottleneck file of the configuration (10 classes, 5 attributes, signal
  strength 98, subset 3), and one that holds only the hard default file.
\<close>

definition sample_soft_set :: "(string \<times> yaml) list" where
  "sample_soft_set =
     [(''cnn'', YMap [(''learning_rate'', YFloat (1 / 100)), (''gamma'', YFloat (7 / 10))]),
      (''cbm'', YMap [(''learning_rate'', YFloat (1 / 1000)), (''hard'', YBool False),
                      (''attr_weight'', YInt 10)])]"

definition sample_default_set :: yaml where
  "sample_default_set =
     YMap [(''cnn'', YMap [(''learning_rate'', YFloat (1 / 1000))]),
           (''cbm'', YMap [(''learning_rate'', YFloat (1 / 1000)), (''hard'', YBool True)])]"

definition sample_soft_file :: path where
  "sample_soft_file =
     PurePath [] [''results'', ''hyperparameters'', ''shapes'', ''c10_a5_s98'', ''hyperparameters_sub3.yaml'']"

definition sample_hard_file :: path where
  "sample_hard_file =
     PurePath [] [''results'', ''hyperparameters'', ''shapes'', ''c10_a5_s98'',
                  ''hyperparameters_sub3_hard.yaml'']"

definition sample_folder :: path where
  "sample_folder = PurePath [] [''results'', ''hyperparameters'', ''shapes'', ''c10_a5_s98'']"

definition sample_fs_soft :: fs where
  "sample_fs_soft = Map.empty(sample_soft_file \<mapsto> File (Some (YMap sample_soft_set)))"

definition sample_fs_default :: fs where
  "sample_fs_default =
     Map.empty(PurePath [] [''results'', ''hyperparameters'', ''shapes'', ''default_hard.yaml'']
                 \<mapsto> File (Some sample_default_set))"

section \<open>evaluation: accuracy on the test set\<close>

text \<open>
  A test loader yields batches \<^verbatim>\<open>(input, labels, attr_labels, paths)\<close>, of which
  \<open>evaluate_on_test_set\<close> reads the input and the class labels, and has a dataset whose
  length it divides by. A model returns class logits (one row per sample), or a tuple of
  class logits and attribute logits. Logits and accuracies are floats, written as the
  rationals they denote.
\<close>

datatype 'x batch = Batch (input: 'x) (labels: "int list")

record 'x loader =
  batches :: "'x batch list"
  dataset_len :: nat

datatype model_output = Logits "rat list list" | WithAttributes "rat list list" "rat list list"

text \<open>\<^verbatim>\<open>torch.max(outputs, 1)\<close>: per row, the index of the first maximal value.\<close>

fun argmax_from :: "rat \<Rightarrow> nat \<Rightarrow> nat \<Rightarrow> rat list \<Rightarrow> nat" where
  "argmax_from best best_i i [] = best_i"
| "argmax_from best best_i i (x # xs) =
     (if best < x then argmax_from x i (Suc i) xs else argmax_from best best_i (Suc i) xs)"

definition row_argmax :: "rat list \<Rightarrow> error + int" where
  "row_argmax row = (case row of [] \<Rightarrow> Inl IndexError | x # xs \<Rightarrow> Inr (int (argmax_from x 0 1 xs)))"

fun rows_argmax :: "rat list list \<Rightarrow> error + int list" where
  "rows_argmax [] = Inr []"
| "rows_argmax (row # rows) =
     (case row_argmax row of
        Inl e \<Rightarrow> Inl e
      | Inr p \<Rightarrow> (case rows_argmax rows of Inl e \<Rightarrow> Inl e | Inr ps \<Rightarrow> Inr (p # ps)))"

text \<open>
  \<^verbatim>\<open>(preds == labels).sum().item()\<close> on two 1-d tensors: elementwise when the sizes
  agree, broadcast when one of them has size 1, RuntimeError otherwise.
\<close>

definition count_equal :: "int list \<Rightarrow> int list \<Rightarrow> error + int" where
  "count_equal preds labs =
     (if length preds = length labs
        then Inr (int (length (filter (\<lambda>(p, l). p = l) (zip preds labs))))
      else if length preds = 1 then Inr (int (length (filter (\<lambda>l. hd preds = l) labs)))
      else if length labs = 1 then Inr (int (length (filter (\<lambda>p. p = hd labs) preds)))
      else Inl RuntimeError)"

text \<open>\<^verbatim>\<open>if isinstance(outputs, tuple): outputs = outputs[0]\<close>.\<close>

definition class_logits :: "model_output \<Rightarrow> rat list list" where
  "class_logits outputs = (case outputs of WithAttributes out attrs \<Rightarrow> out | Logits out \<Rightarrow> out)"

text \<open>The loop over the batches; \<open>test_correct\<close> is the running count.\<close>

fun count_correct :: "('x \<Rightarrow> error + model_output) \<Rightarrow> 'x batch list \<Rightarrow> int \<Rightarrow> error + int" where
  "count_correct model [] test_correct = Inr test_correct"
| "count_correct model (b # bs) test_correct =
     (case model (input b) of
        Inl e \<Rightarrow> Inl e
      | Inr outputs0 \<Rightarrow>
          (let outputs = class_logits outputs0
           in case rows_argmax outputs of
                Inl e \<Rightarrow> Inl e
              | Inr preds \<Rightarrow>
                  (case count_equal preds (labels b) of
                     Inl e \<Rightarrow> Inl e
                   | Inr c \<Rightarrow> count_correct model bs (test_correct + c))))"

text \<open>
  What a correct top-1 prediction is, stated on the logits and not through the loop above:
  the label \<open>l\<close> of a sample is the top-1 class of its row of class logits when \<open>l\<close> is
  an index of the row, no logit of the row is greater than the logit at \<open>l\<close>, and every
  logit before \<open>l\<close> is smaller (among equal maximal logits the first index is the
  prediction, as \<^verbatim>\<open>torch.max\<close> documents). \<open>top1_correct\<close> is the number of samples of a
  batch whose label is the top-1 class of their row.
\<close>

definition is_top1 :: "rat list \<Rightarrow> int \<Rightarrow> bool" where
  "is_top1 row l =
     (0 \<le> l \<and> nat l < length row \<and> list_all (\<lambda>x. x \<le> row ! nat l) row \<and>
      list_all (\<lambda>x. x < row ! nat l) (take (nat l) row))"


text \<open>
  \<^verbatim>\<open>a / b\<close> on two Python ints: ZeroDivisionError, or the float nearest to the
  quotient. The rounding \<open>rnd\<close> of a rational to a float is a parameter.
\<close>

definition true_div :: "(rat \<Rightarrow> rat) \<Rightarrow> int \<Rightarrow> int \<Rightarrow> error + rat" where
  "true_div rnd a b = (if b = 0 then Inl ZeroDivisionError else Inr (rnd (of_int a / of_int b)))"

definition evaluate_on_test_set ::
  "(rat \<Rightarrow> rat) \<Rightarrow> ('x \<Rightarrow> error + model_output) \<Rightarrow> 'x loader \<Rightarrow> error + rat" where
  "evaluate_on_test_set rnd model test_loader =
     (case count_correct model (batches test_loader) 0 of
        Inl e \<Rightarrow> Inl e
      | Inr test_correct \<Rightarrow> true_div rnd (100 * test_correct) (int (dataset_len test_loader)))"

section \<open>evaluation: the training loop and the driver\<close>

text \<open>
  The calls that leave \<^verbatim>\<open>evaluation.py\<close>, with the arguments the properties below
  are about. The functions of \<^verbatim>\<open>train\<close>, \<^verbatim>\<open>utils\<close>, \<^verbatim>\<open>plotting\<close>,
  \<^verbatim>\<open>shapes.datasets_shapes\<close> and \<^verbatim>\<open>constants\<close> are not among the sources:
  they are the fields of \<open>collaborators\<close>, each a function of its arguments and of the
  world (files, random state) that returns a result or raises, and a new world.
\<close>

datatype event =
    LoadDataShapes string string string
  | MakeSubsetShapes string int int int
  | GetHyperparameters int int int bool
  | LoadModelsShapes int int
  | Makedirs string
  | SeedEverything int
  | TrainSimple string string string int
  | TrainCbm string string string int
  | TorchLoad string
  | AddHistories int
  | PlotTrainingHistories string string string
  | PickleDump string
  | PlotSubsetTestAccuracies string

type_synonym history = "(string \<times> rat list) list"

datatype 'x loaded = TestLoader "'x loader" | TrainValLoaders "'x loader" "'x loader"

record ('w, 'm, 'sd, 'x) collaborators =
  load_data_shapes :: "string \<Rightarrow> string \<Rightarrow> string \<Rightarrow> 'w \<Rightarrow> (error + 'x loaded) \<times> 'w"
  make_subset_shapes :: "string \<Rightarrow> int \<Rightarrow> int \<Rightarrow> int \<Rightarrow> 'w \<Rightarrow> (error + unit) \<times> 'w"
  get_hyperparameters :: "int \<Rightarrow> int \<Rightarrow> int \<Rightarrow> bool \<Rightarrow> 'w \<Rightarrow> (error + yaml) \<times> 'w"
  load_models_shapes :: "int \<Rightarrow> int \<Rightarrow> yaml \<Rightarrow> 'w \<Rightarrow> (error + 'm list) \<times> 'w"
  os_makedirs :: "string \<Rightarrow> 'w \<Rightarrow> (error + unit) \<times> 'w"
  seed_everything :: "int \<Rightarrow> 'w \<Rightarrow> (error + unit) \<times> 'w"
  train_simple :: "'m \<Rightarrow> yaml \<Rightarrow> yaml \<Rightarrow> 'x loader \<Rightarrow> 'x loader \<Rightarrow> int \<Rightarrow> string \<Rightarrow> string
                     \<Rightarrow> 'w \<Rightarrow> (error + history \<times> 'm) \<times> 'w"
  train_cbm :: "'m \<Rightarrow> yaml \<Rightarrow> yaml \<Rightarrow> yaml \<Rightarrow> 'x loader \<Rightarrow> 'x loader \<Rightarrow> int \<Rightarrow> string \<Rightarrow> string
                  \<Rightarrow> 'w \<Rightarrow> (error + history \<times> 'm) \<times> 'w"
  torch_load :: "string \<Rightarrow> 'w \<Rightarrow> (error + 'sd) \<times> 'w"
  load_state_dict :: "'m \<Rightarrow> 'sd \<Rightarrow> error + 'm"
  model_name :: "'m \<Rightarrow> string"
  forward :: "'m \<Rightarrow> 'x \<Rightarrow> error + model_output"
  add_histories :: "history list option \<Rightarrow> history list \<Rightarrow> int \<Rightarrow> error + history list"
  plot_training_histories :: "history list option \<Rightarrow> string \<Rightarrow> string \<Rightarrow> string
                                \<Rightarrow> 'w \<Rightarrow> (error + unit) \<times> 'w"
  pickle_dump_histories :: "string \<Rightarrow> history list option \<Rightarrow> 'w \<Rightarrow> (error + unit) \<times> 'w"
  plot_subset_test_accuracies :: "int list \<Rightarrow> rat list list \<Rightarrow> string \<Rightarrow> 'w \<Rightarrow> (error + unit) \<times> 'w"
  pickle_dump_accuracies :: "string \<Rightarrow> rat list list \<Rightarrow> 'w \<Rightarrow> (error + unit) \<times> 'w"
  MODEL_STRINGS :: "string list"
  MAX_EPOCHS :: int
  float_round :: "rat \<Rightarrow> rat"

text \<open>
  A run threads the trace of the calls made so far and the world; an exception ends it
  with the trace and the world as they are then.
\<close>

type_synonym 'w run_state = "event list \<times> 'w"

type_synonym ('w, 'r) action = "'w run_state \<Rightarrow> (error + 'r) \<times> 'w run_state"

definition ret :: "'r \<Rightarrow> ('w, 'r) action" where
  "ret x = (\<lambda>s. (Inr x, s))"

definition lift :: "error + 'r \<Rightarrow> ('w, 'r) action" where
  "lift r = (\<lambda>s. (r, s))"

definition and_then :: "('w, 'a) action \<Rightarrow> ('a \<Rightarrow> ('w, 'b) action) \<Rightarrow> ('w, 'b) action" where
  "and_then m f = (\<lambda>s. case m s of (Inl e, s') \<Rightarrow> (Inl e, s') | (Inr x, s') \<Rightarrow> f x s')"

definition call :: "event \<Rightarrow> ('w \<Rightarrow> (error + 'r) \<times> 'w) \<Rightarrow> ('w, 'r) action" where
  "call ev f = (\<lambda>(tr, w). case f w of (r, w') \<Rightarrow> (r, (tr @ [ev], w')))"

text \<open>A \<^verbatim>\<open>for\<close> loop over a list, with the variables it updates as \<open>acc\<close>.\<close>

fun for_loop :: "'i list \<Rightarrow> ('i \<Rightarrow> 'acc \<Rightarrow> ('w, 'acc) action) \<Rightarrow> 'acc \<Rightarrow> ('w, 'acc) action" where
  "for_loop [] body acc = ret acc"
| "for_loop (i # is) body acc = and_then (body i acc) (for_loop is body)"

text \<open>\<^verbatim>\<open>d[k]\<close> on a loaded YAML value, and \<^verbatim>\<open>xs[i]\<close>, \<^verbatim>\<open>d[k]\<close> on histories.\<close>

definition yaml_getitem :: "yaml \<Rightarrow> string \<Rightarrow> error + yaml" where
  "yaml_getitem y k =
     (case y of
        YMap kvs \<Rightarrow> (case map_of kvs k of None \<Rightarrow> Inl KeyError | Some v \<Rightarrow> Inr v)
      | _ \<Rightarrow> Inl TypeError)"

definition hp_lookup :: "yaml \<Rightarrow> string \<Rightarrow> string \<Rightarrow> error + yaml" where
  "hp_lookup hp model_string name =
     (case yaml_getitem hp model_string of Inl e \<Rightarrow> Inl e | Inr entry \<Rightarrow> yaml_getitem entry name)"

definition list_getitem :: "'a list \<Rightarrow> nat \<Rightarrow> error + 'a" where
  "list_getitem xs i = (if i < length xs then Inr (xs ! i) else Inl IndexError)"

definition dict_getitem :: "('k \<times> 'v) list \<Rightarrow> 'k \<Rightarrow> error + 'v" where
  "dict_getitem d k = (case map_of d k of None \<Rightarrow> Inl KeyError | Some v \<Rightarrow> Inr v)"

text \<open>
  \<^verbatim>\<open>int(s)\<close> on a string: optional whitespace around an optional sign and decimal
  digits, which single underscores may separate; anything else is ValueError.
\<close>

definition digit_value :: "char \<Rightarrow> nat option" where
  "digit_value c = map_of (zip ''0123456789'' [0 ..< 10]) c"

fun digits_value :: "nat \<Rightarrow> string \<Rightarrow> nat option" where
  "digits_value acc [] = Some acc"
| "digits_value acc (c # cs) =
     (case digit_value c of None \<Rightarrow> None | Some d \<Rightarrow> digits_value (10 * acc + d) cs)"

definition int_of_str :: "string \<Rightarrow> error + int" where
  "int_of_str s =
     (let t = strip s;
          negative = (take 1 t = ''-'');
          body = (if take 1 t = ''-'' \<or> take 1 t = ''+'' then drop 1 t else t);
          groups = splitc CHR ''_'' body
      in if [] \<in> set groups then Inl ValueError
         else (case digits_value 0 (concat groups) of
                 None \<Rightarrow> Inl ValueError
               | Some n \<Rightarrow> Inr (if negative then - int n else int n)))"

text \<open>The folder names that both functions of \<^verbatim>\<open>evaluation.py\<close> build.\<close>

definition class_dir_of :: "int \<Rightarrow> int \<Rightarrow> bool \<Rightarrow> string" where
  "class_dir_of n_classes n_attr fast =
     (let class_dir = ''c'' @ str_int n_classes @ ''_a'' @ str_int n_attr @ ''/''
      in if fast then class_dir @ ''testing/'' else class_dir)"

definition save_model_path_of :: "int \<Rightarrow> int \<Rightarrow> bool \<Rightarrow> string \<Rightarrow> string" where
  "save_model_path_of n_classes n_attr fast sub_dir =
     ''saved_models/'' @ class_dir_of n_classes n_attr fast @ sub_dir"

text \<open>
  The body of the loop over the models in \<open>train_and_evaluate_shapes\<close>, for the model
  at index \<open>i\<close>; \<open>histories\<close> is the list built so far. The optimizer and the scheduler
  are the learning rate and the decay factor they are built from. Printing, the device
  and \<^verbatim>\<open>non_blocking\<close> are left out.
\<close>

definition train_and_evaluate_model ::
  "('w, 'm, 'sd, 'x) collaborators \<Rightarrow> int \<Rightarrow> int \<Rightarrow> 'x loader \<Rightarrow> 'x loader \<Rightarrow> 'x loader \<Rightarrow> string
     \<Rightarrow> yaml \<Rightarrow> bool \<Rightarrow> int \<Rightarrow> int option \<Rightarrow> 'm list \<Rightarrow> nat \<Rightarrow> history list
     \<Rightarrow> ('w, history list) action" where
  "train_and_evaluate_model E n_classes n_attr train_loader val_loader test_loader sub_dir hp fast
       n_bootstrap seed models i histories =
     and_then (lift (list_getitem models i)) (\<lambda>model.
     and_then (lift (list_getitem (MODEL_STRINGS E) i)) (\<lambda>model_string.
     and_then (lift (hp_lookup hp model_string ''learning_rate'')) (\<lambda>learning_rate.
     and_then (lift (hp_lookup hp model_string ''gamma'')) (\<lambda>gamma.
     (let n_epochs = (if fast then 2 else MAX_EPOCHS E);
          save_model_path = save_model_path_of n_classes n_attr fast sub_dir;
          save_name = model_string @ ''_b'' @ str_int n_bootstrap
      in
     and_then (call (Makedirs save_model_path) (os_makedirs E save_model_path)) (\<lambda>_.
     and_then (case seed of
                 None \<Rightarrow> ret ()
               | Some sd \<Rightarrow> call (SeedEverything sd) (seed_everything E sd)) (\<lambda>_.
     and_then (if model_name E model = ''ShapesCNN''
               then call (TrainSimple (model_name E model) save_model_path save_name n_epochs)
                      (train_simple E model learning_rate gamma train_loader val_loader n_epochs
                         save_model_path save_name)
               else and_then (lift (hp_lookup hp model_string ''attr_weight'')) (\<lambda>attr_weight.
                      call (TrainCbm (model_name E model) save_model_path save_name n_epochs)
                        (train_cbm E model learning_rate gamma attr_weight train_loader val_loader
                           n_epochs save_model_path save_name))) (\<lambda>(history, trained).
     and_then (call (TorchLoad (save_model_path @ save_name @ ''_loss.pth''))
                 (torch_load E (save_model_path @ save_name @ ''_loss.pth''))) (\<lambda>state_dict.
     and_then (lift (load_state_dict E trained state_dict)) (\<lambda>reloaded.
     and_then (lift (evaluate_on_test_set (float_round E) (forward E reloaded) test_loader))
       (\<lambda>test_accuracy.
     ret (histories @ [dict_set ''test_accuracy'' [test_accuracy] history]))))))))))))"

definition train_and_evaluate_shapes ::
  "('w, 'm, 'sd, 'x) collaborators \<Rightarrow> int \<Rightarrow> int \<Rightarrow> 'x loader \<Rightarrow> 'x loader \<Rightarrow> 'x loader \<Rightarrow> string
     \<Rightarrow> yaml option \<Rightarrow> bool \<Rightarrow> int \<Rightarrow> int option \<Rightarrow> ('w, history list) action" where
  "train_and_evaluate_shapes E n_classes n_attr train_loader val_loader test_loader sub_dir
       hyperparameters fast n_bootstrap seed =
     and_then
       (case hyperparameters of
          Some hp \<Rightarrow> ret hp
        | None \<Rightarrow>
            and_then (lift (int_of_str (strip_chars (\<lambda>c. c \<in> set ''sub'')
                                          (strip_chars (\<lambda>c. c = CHR ''/'') sub_dir)))) (\<lambda>n_subset.
              call (GetHyperparameters n_classes n_attr n_subset fast)
                (get_hyperparameters E n_classes n_attr n_subset fast))) (\<lambda>hp.
     and_then (call (LoadModelsShapes n_classes n_attr) (load_models_shapes E n_classes n_attr hp))
       (\<lambda>models.
     for_loop [0 ..< length models]
       (train_and_evaluate_model E n_classes n_attr train_loader val_loader test_loader sub_dir hp
          fast n_bootstrap seed models) []))"

text \<open>
  The body of the loop over the bootstrap iterations in \<open>run_models_on_subsets_and_plot\<close>;
  the loop updates \<open>seed\<close> and \<open>histories_total\<close>. Batch size, workers and the other
  loader options are passed through unchanged and left out.
\<close>

definition bootstrap_iteration ::
  "('w, 'm, 'sd, 'x) collaborators \<Rightarrow> string \<Rightarrow> int \<Rightarrow> int \<Rightarrow> int \<Rightarrow> string \<Rightarrow> 'x loader \<Rightarrow> int \<Rightarrow> bool
     \<Rightarrow> int \<Rightarrow> nat \<Rightarrow> int \<times> history list option \<Rightarrow> ('w, int \<times> history list option) action" where
  "bootstrap_iteration E dataset_dir n_classes n_attr subset_n subset_dir test_loader n_bootstrap fast
       base_seed i acc =
     (case acc of (seed, histories_total) \<Rightarrow>
     and_then (call (MakeSubsetShapes dataset_dir subset_n n_classes seed)
                 (make_subset_shapes E dataset_dir subset_n n_classes seed)) (\<lambda>_.
     and_then (call (LoadDataShapes ''train-val'' dataset_dir subset_dir)
                 (load_data_shapes E ''train-val'' dataset_dir subset_dir)) (\<lambda>loaded.
     and_then (lift (case loaded of
                       TrainValLoaders train_loader val_loader \<Rightarrow> Inr (train_loader, val_loader)
                     | TestLoader _ \<Rightarrow> Inl TypeError)) (\<lambda>(train_loader, val_loader).
     and_then (train_and_evaluate_shapes E n_classes n_attr train_loader val_loader test_loader
                 subset_dir None fast n_bootstrap (Some base_seed)) (\<lambda>histories.
     and_then (call (AddHistories n_bootstrap)
                 (\<lambda>w. (add_histories E histories_total histories n_bootstrap, w))) (\<lambda>total.
     ret (seed + 1, Some total)))))))"

text \<open>\<^verbatim>\<open>histories_total[i]["test_accuracy"][0]\<close>.\<close>

definition first_test_accuracy :: "history list option \<Rightarrow> nat \<Rightarrow> error + rat" where
  "first_test_accuracy histories_total i =
     (case histories_total of
        None \<Rightarrow> Inl TypeError
      | Some hs \<Rightarrow>
          (case list_getitem hs i of
             Inl e \<Rightarrow> Inl e
           | Inr h \<Rightarrow>
               (case dict_getitem h ''test_accuracy'' of
                  Inl e \<Rightarrow> Inl e
                | Inr xs \<Rightarrow> list_getitem xs 0)))"

text \<open>
  The body of the loop over the subsets (the loop variable \<^verbatim>\<open>subset\<close> is written
  \<open>subset_n\<close>); the loop updates \<open>test_accuracies_lists\<close>.
\<close>

definition run_subset ::
  "('w, 'm, 'sd, 'x) collaborators \<Rightarrow> string \<Rightarrow> int \<Rightarrow> int \<Rightarrow> int \<Rightarrow> bool \<Rightarrow> int \<Rightarrow> int
     \<Rightarrow> rat list list \<Rightarrow> ('w, rat list list) action" where
  "run_subset E dataset_dir n_classes n_attr n_bootstrap fast base_seed subset_n test_accuracies_lists =
     (let class_dir = class_dir_of n_classes n_attr fast;
          subset_dir = ''sub'' @ str_int subset_n @ ''/''
      in
     and_then (call (LoadDataShapes ''test'' dataset_dir []) (load_data_shapes E ''test'' dataset_dir []))
       (\<lambda>loaded.
     and_then (lift (case loaded of
                       TestLoader test_loader \<Rightarrow> Inr test_loader
                     | TrainValLoaders _ _ \<Rightarrow> Inl TypeError)) (\<lambda>test_loader.
     and_then (for_loop [0 ..< nat n_bootstrap]
                 (bootstrap_iteration E dataset_dir n_classes n_attr subset_n subset_dir test_loader
                    n_bootstrap fast base_seed) (base_seed, None)) (\<lambda>(seed, histories_total).
     and_then (for_loop [0 ..< length (MODEL_STRINGS E)]
                 (\<lambda>i accs. and_then (lift (first_test_accuracy histories_total i))
                    (\<lambda>a. ret (accs[i := accs ! i @ [a]]))) test_accuracies_lists) (\<lambda>accs.
     (let save_name = class_dir @ ''c'' @ str_int n_classes @ ''_a'' @ str_int n_attr @ ''_b''
                        @ str_int n_bootstrap @ ''_sub'' @ str_int subset_n @ ''.png'';
          pickle_save_name = ''history/'' @ class_dir @ ''histories_sub'' @ str_int subset_n @ ''_b''
                               @ str_int n_bootstrap @ ''.pkl''
      in
     and_then (call (Makedirs (''plots/'' @ class_dir)) (os_makedirs E (''plots/'' @ class_dir))) (\<lambda>_.
     and_then (call (PlotTrainingHistories save_name ''plots/'' save_name)
                 (plot_training_histories E histories_total save_name ''plots/'' save_name)) (\<lambda>_.
     and_then (call (Makedirs (''history/'' @ class_dir)) (os_makedirs E (''history/'' @ class_dir)))
       (\<lambda>_.
     and_then (call (PickleDump pickle_save_name)
                 (pickle_dump_histories E pickle_save_name histories_total)) (\<lambda>_.
     and_then (call (MakeSubsetShapes dataset_dir subset_n n_classes base_seed)
                 (make_subset_shapes E dataset_dir subset_n n_classes base_seed)) (\<lambda>_.
     ret accs)))))))))))"

definition run_models_on_subsets_and_plot ::
  "('w, 'm, 'sd, 'x) collaborators \<Rightarrow> string \<Rightarrow> int \<Rightarrow> int \<Rightarrow> int list \<Rightarrow> int \<Rightarrow> bool \<Rightarrow> int
     \<Rightarrow> ('w, unit) action" where
  "run_models_on_subsets_and_plot E dataset_dir n_classes n_attr subsets n_bootstrap fast base_seed =
     (let class_dir = class_dir_of n_classes n_attr fast;
          test_accuracies_lists = replicate (length (MODEL_STRINGS E)) []
      in
     and_then (for_loop subsets
                 (run_subset E dataset_dir n_classes n_attr n_bootstrap fast base_seed)
                 test_accuracies_lists) (\<lambda>accs.
     and_then (call (PlotSubsetTestAccuracies
                       (class_dir @ ''test_accuracies_b'' @ str_int n_bootstrap @ ''.png''))
                 (plot_subset_test_accuracies E subsets accs
                    (class_dir @ ''test_accuracies_b'' @ str_int n_bootstrap @ ''.png''))) (\<lambda>_.
     call (PickleDump (''history/'' @ class_dir @ ''test_accuracies_b'' @ str_int n_bootstrap @ ''.pkl''))
       (pickle_dump_accuracies E
          (''history/'' @ class_dir @ ''test_accuracies_b'' @ str_int n_bootstrap @ ''.pkl'') accs))))"

text \<open>
  Sample collaborators for the closed examples: the world is the seed last set, a model is
  its name and its weights, two models are registered, and the test set has three
  samples in two batches.
\<close>

definition sample_test_loader :: "nat list loader" where
  "sample_test_loader = \<lparr> batches = [Batch [0, 1] [0, 1], Batch [1] [0]], dataset_len = 3 \<rparr>"

definition sample_hyperparameters :: yaml where
  "sample_hyperparameters =
     YMap [(''cnn'', YMap [(''learning_rate'', YFloat (1 / 100)), (''gamma'', YFloat (7 / 10))]),
           (''cbm'', YMap [(''learning_rate'', YFloat (1 / 1000)), (''gamma'', YFloat (1 / 10)),
                           (''attr_weight'', YInt 10)])]"

definition sample_forward :: "string \<times> nat \<Rightarrow> nat list \<Rightarrow> error + model_output" where
  "sample_forward m xs =
     (if fst m = ''ShapesCNN'' then Inr (Logits (map (\<lambda>x. [of_nat x, 1 / 2]) xs))
      else Inr (WithAttributes (map (\<lambda>x. [1 / 2, of_nat x]) xs) []))"

definition sample_collaborators :: "(nat, string \<times> nat, nat, nat list) collaborators" where
  "sample_collaborators = \<lparr>
     load_data_shapes = (\<lambda>mode path subset_dir w.
        (if mode = ''test'' then Inr (TestLoader sample_test_loader)
         else Inr (TrainValLoaders \<lparr> batches = [], dataset_len = 0 \<rparr> \<lparr> batches = [], dataset_len = 0 \<rparr>), w)),
     make_subset_shapes = (\<lambda>path subset n_classes seed w. (Inr (), w)),
     get_hyperparameters = (\<lambda>n_classes n_attr n_subset fast w. (Inr sample_hyperparameters, w)),
     load_models_shapes = (\<lambda>n_classes n_attr hp w. (Inr [(''ShapesCNN'', 0), (''ShapesCBM'', 0)], w)),
     os_makedirs = (\<lambda>p w. (Inr (), w)),
     seed_everything = (\<lambda>seed w. (Inr (), nat seed)),
     train_simple = (\<lambda>m lr gamma train val n_epochs model_dir save_name w.
        (Inr ([(''train_loss'', [1 / 2]), (''val_loss'', [1 / 4])], (fst m, w)), w)),
     train_cbm = (\<lambda>m lr gamma attr_weight train val n_epochs model_dir save_name w.
        (Inr ([(''train_loss'', [1 / 2]), (''val_loss'', [1 / 4]), (''train_attr_loss'', [1])],
              (fst m, w)), w)),
     torch_load = (\<lambda>p w. (Inr w, w)),
     load_state_dict = (\<lambda>m sd. Inr (fst m, sd)),
     model_name = fst,
     forward = sample_forward,
     add_histories = (\<lambda>total new n. Inr new),
     plot_training_histories = (\<lambda>hs title save_dir save_name w. (Inr (), w)),
     pickle_dump_histories = (\<lambda>p hs w. (Inr (), w)),
     plot_subset_test_accuracies = (\<lambda>xs accs save_name w. (Inr (), w)),
     pickle_dump_accuracies = (\<lambda>p accs w. (Inr (), w)),
     MODEL_STRINGS = [''cnn'', ''cbm''],
     MAX_EPOCHS = 50,
     float_round = (\<lambda>x. x) \<rparr>"

section \<open>Properties of a trace\<close>

text \<open>The calls that regenerate or load data, and the aggregation that ends an iteration.\<close>

fun is_data_event :: "event \<Rightarrow> bool" where
  "is_data_event (LoadDataShapes mode path subset_dir) = True"
| "is_data_event (MakeSubsetShapes path n n_classes seed) = True"
| "is_data_event (AddHistories n) = True"
| "is_data_event _ = False"

fun is_seed :: "event \<Rightarrow> bool" where
  "is_seed (SeedEverything seed) = True"
| "is_seed _ = False"

fun is_training :: "event \<Rightarrow> bool" where
  "is_training (TrainSimple name model_dir save_name n_epochs) = True"
| "is_training (TrainCbm name model_dir save_name n_epochs) = True"
| "is_training _ = False"

fun is_torch_load :: "event \<Rightarrow> bool" where
  "is_torch_load (TorchLoad p) = True"
| "is_torch_load _ = False"

text \<open>The checkpoint that a trainer writes for the best validation loss.\<close>

fun loss_checkpoint :: "event \<Rightarrow> string" where
  "loss_checkpoint (TrainSimple name model_dir save_name n_epochs) = model_dir @ save_name @ ''_loss.pth''"
| "loss_checkpoint (TrainCbm name model_dir save_name n_epochs) = model_dir @ save_name @ ''_loss.pth''"
| "loss_checkpoint _ = []"

text \<open>
  \<open>well_seeded b\<close>: every reseeding of the random state uses the seed \<open>b\<close> and is
  immediately followed by a training, and no training starts without it.
\<close>

fun well_seeded :: "int \<Rightarrow> event list \<Rightarrow> bool" where
  "well_seeded b [] = True"
| "well_seeded b [ev] = (\<not> is_seed ev \<and> \<not> is_training ev)"
| "well_seeded b (ev # ev' # rest) =
     (if is_seed ev then ev = SeedEverything b \<and> is_training ev' \<and> well_seeded b rest
      else \<not> is_training ev \<and> well_seeded b (ev' # rest))"

text \<open>
  \<open>reloads_loss\<close>: every training is immediately followed by the load of its own
  best-validation-loss checkpoint, and no other checkpoint is loaded.
\<close>

fun reloads_loss :: "event list \<Rightarrow> bool" where
  "reloads_loss [] = True"
| "reloads_loss [ev] = (\<not> is_training ev \<and> \<not> is_torch_load ev)"
| "reloads_loss (ev # ev' # rest) =
     (if is_training ev then ev' = TorchLoad (loss_checkpoint ev) \<and> reloads_loss rest
      else \<not> is_torch_load ev \<and> reloads_loss (ev' # rest))"

text \<open>
  A returned history whose \<^verbatim>\<open>test_accuracy\<close> is the one-element list of the accuracy
  that \<open>evaluate_on_test_set\<close> computes for a model into which a state loaded from a
  \<^verbatim>\<open>_loss.pth\<close> file has been loaded.
\<close>

definition evaluated_on_loss_checkpoint ::
  "('w, 'm, 'sd, 'x) collaborators \<Rightarrow> 'x loader \<Rightarrow> history \<Rightarrow> bool" where
  "evaluated_on_loss_checkpoint E test_loader h \<longleftrightarrow>
     (\<exists>acc p w state_dict w' trained reloaded.
        map_of h ''test_accuracy'' = Some [acc] \<and>
        (\<exists>q. p = q @ ''_loss.pth'') \<and>
        torch_load E p w = (Inr state_dict, w') \<and>
        load_state_dict E trained state_dict = Inr reloaded \<and>
        evaluate_on_test_set (float_round E) (forward E reloaded) test_loader = Inr acc)"

text \<open>
  What the sample collaborators give: the calls of one training of the two models
  (subset 3, two bootstrap iterations, seed 57), the histories it returns, and the calls
  of the driver on the subset list \<^verbatim>\<open>[3]\<close> with two bootstrap iterations.
\<close>

definition sample_training_trace :: "event list" where
  "sample_training_trace =
     [GetHyperparameters 10 5 3 False, LoadModelsShapes 10 5,
      Makedirs ''saved_models/c10_a5/sub3/'', SeedEverything 57,
      TrainSimple ''ShapesCNN'' ''saved_models/c10_a5/sub3/'' ''cnn_b2'' 50,
      TorchLoad ''saved_models/c10_a5/sub3/cnn_b2_loss.pth'',
      Makedirs ''saved_models/c10_a5/sub3/'', SeedEverything 57,
      TrainCbm ''ShapesCBM'' ''saved_models/c10_a5/sub3/'' ''cbm_b2'' 50,
      TorchLoad ''saved_models/c10_a5/sub3/cbm_b2_loss.pth'']"

definition sample_histories :: "history list" where
  "sample_histories =
     [[(''train_loss'', [1 / 2]), (''val_loss'', [1 / 4]), (''test_accuracy'', [100 / 3])],
      [(''train_loss'', [1 / 2]), (''val_loss'', [1 / 4]), (''train_attr_loss'', [1]),
       (''test_accuracy'', [200 / 3])]]"

definition sample_driver_trace :: "event list" where
  "sample_driver_trace =
     [LoadDataShapes ''test'' ''data/'' [], MakeSubsetShapes ''data/'' 3 10 57,
      LoadDataShapes ''train-val'' ''data/'' ''sub3/'']
     @ sample_training_trace
     @ [AddHistories 2, MakeSubsetShapes ''data/'' 3 10 58,
        LoadDataShapes ''train-val'' ''data/'' ''sub3/'']
     @ sample_training_trace
     @ [AddHistories 2, Makedirs ''plots/c10_a5/'',
        PlotTrainingHistories ''c10_a5/c10_a5_b2_sub3.png'' ''plots/'' ''c10_a5/c10_a5_b2_sub3.png'',
        Makedirs ''history/c10_a5/'', PickleDump ''history/c10_a5/histories_sub3_b2.pkl'',
        MakeSubsetShapes ''data/'' 3 10 57,
        PlotSubsetTestAccuracies ''c10_a5/test_accuracies_b2.png'',
        PickleDump ''history/c10_a5/test_accuracies_b2.pkl'']"

section \<open>The history aggregator\<close>

text \<open>
  Modelled from the spec: \<^verbatim>\<open>add_histories\<close> of the module \<^verbatim>\<open>utils\<close>, which is
  not among the sources (the driver above takes it as a collaborator). The specification
  calls it \<^verbatim>\<open>accumulate(running_total, new_histories, n_bootstrap)\<close>: with no running
  total it returns the new histories unchanged; otherwise, for each model index and each
  metric key present in both, it adds the two sequences elementwise, and sequences of
  different lengths are an error. It never divides by \<open>n_bootstrap\<close>. The specification
  does not say what happens to a key of the running total that the new history lacks
  (kept here as it is), to a key only the new history has (not added here), or to lists
  of different numbers of models (an error here).
\<close>

fun add_sequences :: "'a::plus list \<Rightarrow> 'a list \<Rightarrow> error + 'a list" where
  "add_sequences [] [] = Inr []"
| "add_sequences (x # xs) (y # ys) =
     (case add_sequences xs ys of Inl e \<Rightarrow> Inl e | Inr zs \<Rightarrow> Inr ((x + y) # zs))"
| "add_sequences _ _ = Inl ValueError"

fun add_history :: "(string \<times> 'a::plus list) list \<Rightarrow> (string \<times> 'a list) list
                      \<Rightarrow> error + (string \<times> 'a list) list" where
  "add_history [] new = Inr []"
| "add_history ((k, xs) # running) new =
     (case (case map_of new k of None \<Rightarrow> Inr xs | Some ys \<Rightarrow> add_sequences xs ys) of
        Inl e \<Rightarrow> Inl e
      | Inr zs \<Rightarrow> (case add_history running new of Inl e \<Rightarrow> Inl e | Inr rest \<Rightarrow> Inr ((k, zs) # rest)))"

fun add_all :: "(string \<times> 'a::plus list) list list \<Rightarrow> (string \<times> 'a list) list list
                  \<Rightarrow> error + (string \<times> 'a list) list list" where
  "add_all [] [] = Inr []"
| "add_all (t # ts) (n # ns) =
     (case add_history t n of
        Inl e \<Rightarrow> Inl e
      | Inr h \<Rightarrow> (case add_all ts ns of Inl e \<Rightarrow> Inl e | Inr hs \<Rightarrow> Inr (h # hs)))"
| "add_all _ _ = Inl IndexError"

definition add_histories_spec ::
  "(string \<times> 'a::plus list) list list option \<Rightarrow> (string \<times> 'a list) list list \<Rightarrow> int
     \<Rightarrow> error + (string \<times> 'a list) list list" where
  "add_histories_spec running_total new_histories n_bootstrap =
     (case running_total of None \<Rightarrow> Inr new_histories | Some running \<Rightarrow> add_all running new_histories)"

section \<open>Verified properties: file names and folders\<close>

lemma splitc_nonempty: "splitc c s \<noteq> []"
  by (induction s) (auto split: list.splits)

lemma splitc_no_sep: "c \<notin> set s \<Longrightarrow> splitc c s = [s]"
  by (induction s) (auto split: list.splits)

lemma parse_anchor_no_sep: "CHR ''/'' \<notin> set s \<Longrightarrow> parse_anchor s = []"
  by (cases s) (auto simp: parse_anchor_def)

lemma Path_str_bare:
  "CHR ''/'' \<notin> set s \<Longrightarrow> Path_str s = PurePath [] (if s = [] \<or> s = ''.'' then [] else [s])"
  by (simp add: Path_str_def splitc_no_sep parse_anchor_no_sep)


lemma makedirs_from_ok:
  "(\<And>k. 0 < k \<Longrightarrow> k \<le> length ns \<Longrightarrow> (\<forall>y. fs (PurePath a (pre @ take k ns)) \<noteq> Some (File y)))
   \<Longrightarrow> \<exists>fs'. makedirs_from a pre ns fs = Inr fs' \<and>
        (\<forall>q. fs' q = (if \<exists>k. 0 < k \<and> k \<le> length ns \<and> q = PurePath a (pre @ take k ns)
                       then Some Dir else fs q))"
proof (induction ns arbitrary: pre fs)
  case Nil
  then show ?case by simp
next
  case (Cons n ns)
  let ?p = "PurePath a (pre @ [n])"
  let ?fs = "fs(?p \<mapsto> Dir)"
  have notfile: "\<forall>y. fs ?p \<noteq> Some (File y)"
    using Cons.prems [of 1] by simp
  have pre': "\<And>k. 0 < k \<Longrightarrow> k \<le> length ns \<Longrightarrow> (\<forall>y. ?fs (PurePath a ((pre @ [n]) @ take k ns)) \<noteq> Some (File y))"
  proof -
    fix k assume k: "0 < k" "k \<le> length ns"
    have "\<forall>y. fs (PurePath a (pre @ take (Suc k) (n # ns))) \<noteq> Some (File y)"
      using Cons.prems [of "Suc k"] k by simp
    then show "\<forall>y. ?fs (PurePath a ((pre @ [n]) @ take k ns)) \<noteq> Some (File y)"
      by simp
  qed
  from Cons.IH [of ?fs "pre @ [n]", OF pre']
  obtain fs' where run: "makedirs_from a (pre @ [n]) ns ?fs = Inr fs'"
    and shape: "\<forall>q. fs' q = (if \<exists>k. 0 < k \<and> k \<le> length ns \<and> q = PurePath a ((pre @ [n]) @ take k ns)
                       then Some Dir else ?fs q)"
    by blast
  have step: "makedirs_from a pre (n # ns) fs = Inr fs'"
    using notfile run by (auto split: option.splits node.splits)
  have "fs' q = (if \<exists>k. 0 < k \<and> k \<le> length (n # ns) \<and> q = PurePath a (pre @ take k (n # ns))
                       then Some Dir else fs q)" for q
  proof -
    define A where "A \<longleftrightarrow> (\<exists>k. 0 < k \<and> k \<le> length ns \<and> q = PurePath a ((pre @ [n]) @ take k ns))"
    define B where "B \<longleftrightarrow> (\<exists>k. 0 < k \<and> k \<le> length (n # ns) \<and> q = PurePath a (pre @ take k (n # ns)))"
    have AB: "A \<Longrightarrow> B"
    proof -
      assume A
      then obtain k where "0 < k" "k \<le> length ns" "q = PurePath a ((pre @ [n]) @ take k ns)"
        unfolding A_def by blast
      then have "0 < Suc k \<and> Suc k \<le> length (n # ns) \<and> q = PurePath a (pre @ take (Suc k) (n # ns))"
        by simp
      then show B unfolding B_def by blast
    qed
    have pB: "q = ?p \<Longrightarrow> B"
    proof -
      assume "q = ?p"
      then have "0 < (1::nat) \<and> 1 \<le> length (n # ns) \<and> q = PurePath a (pre @ take 1 (n # ns))" by simp
      then show B unfolding B_def by blast
    qed
    have BA: "B \<Longrightarrow> q = ?p \<or> A"
    proof -
      assume B
      then obtain k where k: "0 < k" "k \<le> length (n # ns)" "q = PurePath a (pre @ take k (n # ns))"
        unfolding B_def by blast
      then obtain j where j: "k = Suc j" by (cases k) auto
      show "q = ?p \<or> A"
      proof (cases j)
        case 0
        with k j show ?thesis by simp
      next
        case (Suc i)
        with k j have "0 < j \<and> j \<le> length ns \<and> q = PurePath a ((pre @ [n]) @ take j ns)" by simp
        then have A unfolding A_def by blast
        then show ?thesis ..
      qed
    qed
    from shape have sh: "fs' q = (if A then Some Dir else ?fs q)"
      unfolding A_def by blast
    have "fs' q = (if B then Some Dir else fs q)"
    proof (cases A)
      case True
      with sh AB show ?thesis by simp
    next
      case False
      show ?thesis
      proof (cases "q = ?p")
        case True
        with sh False pB show ?thesis by simp
      next
        case qp: False
        with False BA have "\<not> B" by blast
        with sh False qp show ?thesis by simp
      qed
    qed
    then show ?thesis unfolding B_def .
  qed
  with step show ?case by blast
qed

lemma makedirs_ok:
  assumes "dirs_creatable fs p"
  shows "\<exists>fs'. makedirs p fs = Inr fs' \<and> lookup_node fs' p = Some Dir \<and>
           (\<forall>q. fs' q = fs q \<or> (fs' q = Some Dir \<and> fs q = None)) \<and>
           (\<forall>q. length (names p) < length (names q) \<longrightarrow> fs' q = fs q)"
proof -
  have pre: "\<And>k. 0 < k \<Longrightarrow> k \<le> length (names p) \<Longrightarrow>
      (\<forall>y. fs (PurePath (anchor p) ([] @ take k (names p))) \<noteq> Some (File y))"
  proof -
    fix k assume "0 < k" "k \<le> length (names p)"
    then have "k \<in> set [1 ..< Suc (length (names p))]" by auto
    with assms have "case fs (PurePath (anchor p) (take k (names p))) of Some (File _) \<Rightarrow> False | _ \<Rightarrow> True"
      unfolding dirs_creatable_def list_all_iff by blast
    then show "\<forall>y. fs (PurePath (anchor p) ([] @ take k (names p))) \<noteq> Some (File y)"
      by (auto split: option.splits node.splits)
  qed
  from makedirs_from_ok [of "names p" fs "anchor p" "[]", OF pre]
  obtain fs' where run: "makedirs_from (anchor p) [] (names p) fs = Inr fs'"
    and shape: "\<forall>q. fs' q = (if \<exists>k. 0 < k \<and> k \<le> length (names p) \<and> q = PurePath (anchor p) ([] @ take k (names p))
                       then Some Dir else fs q)"
    by blast
  have dir: "lookup_node fs' p = Some Dir"
  proof (cases "names p = []")
    case True then show ?thesis by (simp add: lookup_node_def)
  next
    case False
    then have "0 < length (names p) \<and> length (names p) \<le> length (names p) \<and>
        p = PurePath (anchor p) ([] @ take (length (names p)) (names p))" by simp
    then have "\<exists>k. 0 < k \<and> k \<le> length (names p) \<and> p = PurePath (anchor p) ([] @ take k (names p))"
      by blast
    with shape False show ?thesis by (simp add: lookup_node_def)
  qed
  have keep: "fs' q = fs q \<or> (fs' q = Some Dir \<and> fs q = None)" for q
  proof (cases "\<exists>k. 0 < k \<and> k \<le> length (names p) \<and> q = PurePath (anchor p) ([] @ take k (names p))")
    case True
    then obtain k where k: "0 < k" "k \<le> length (names p)" "q = PurePath (anchor p) ([] @ take k (names p))"
      by blast
    from pre [OF k(1,2)] k(3) have "\<forall>y. fs q \<noteq> Some (File y)" by simp
    then have "fs q = None \<or> fs q = Some Dir"
      by (cases "fs q") (auto, metis node.exhaust)
    moreover from shape True have "fs' q = Some Dir" by simp
    ultimately show ?thesis by auto
  next
    case False
    from shape have "fs' q = (if \<exists>k. 0 < k \<and> k \<le> length (names p) \<and> q = PurePath (anchor p) ([] @ take k (names p))
                       then Some Dir else fs q)" by blast
    with False have "fs' q = fs q" by (simp only: if_False)
    then show ?thesis ..
  qed
  have longer: "fs' q = fs q" if "length (names p) < length (names q)" for q
  proof -
    have "\<not> (\<exists>k. 0 < k \<and> k \<le> length (names p) \<and> q = PurePath (anchor p) ([] @ take k (names p)))"
    proof
      assume "\<exists>k. 0 < k \<and> k \<le> length (names p) \<and> q = PurePath (anchor p) ([] @ take k (names p))"
      then obtain k where "k \<le> length (names p)" "q = PurePath (anchor p) ([] @ take k (names p))"
        by blast
      then have "length (names q) \<le> length (names p)" by simp
      with that show False by simp
    qed
    moreover from shape have "fs' q = (if \<exists>k. 0 < k \<and> k \<le> length (names p) \<and> q = PurePath (anchor p) ([] @ take k (names p))
                       then Some Dir else fs q)" by blast
    ultimately show ?thesis by (simp only: if_False)
  qed
  from run dir keep longer show ?thesis by (auto simp: makedirs_def)
qed


lemma make_file_path_rejects:
  assumes "check_just_file filename = Inl e"
  shows "make_file_path folder filename chk fs = (Inl e, fs)"
  using assms by (simp add: make_file_path_def)

lemma make_file_path_bare_unchecked:
  assumes "\<not> has_separator s" and "Path folder = Inr d"
  shows "make_file_path folder (Str s) False fs = (Inr (joinpath d (Path_str s)), fs)"
  using assms by (simp add: make_file_path_def check_just_file_def Path_def)

lemma make_file_path_bare_checked:
  assumes "\<not> has_separator s" and "Path folder = Inr d" and "dirs_creatable fs d"
  shows "\<exists>fs'. make_file_path folder (Str s) True fs = (Inr (joinpath d (Path_str s)), fs') \<and>
           lookup_node fs' d = Some Dir \<and> (\<forall>q. fs' q = fs q \<or> (fs' q = Some Dir \<and> fs q = None))"
proof -
  from makedirs_ok [OF assms(3)] obtain fs' where
    mk: "makedirs d fs = Inr fs'" and rest: "lookup_node fs' d = Some Dir"
      "\<forall>q. fs' q = fs q \<or> (fs' q = Some Dir \<and> fs q = None)"
    by blast
  have "make_file_path folder (Str s) True fs = (Inr (joinpath d (Path_str s)), fs')"
    using assms(1,2) mk
    by (simp add: make_file_path_def check_just_file_def create_folder_def Path_def)
  with rest show ?thesis by blast
qed

lemma make_file_path_bare_path_unchecked:
  assumes "\<not> has_separator (as_posix q)" and "Path folder = Inr d"
  shows "make_file_path folder (PathObj q) False fs = (Inr (joinpath d q), fs)"
  using assms by (simp add: make_file_path_def check_just_file_def Path_def)

lemma make_file_path_bare_path_checked:
  assumes "\<not> has_separator (as_posix q)" and "Path folder = Inr d" and "dirs_creatable fs d"
  shows "\<exists>fs'. make_file_path folder (PathObj q) True fs = (Inr (joinpath d q), fs') \<and>
           lookup_node fs' d = Some Dir \<and> (\<forall>p. fs' p = fs p \<or> (fs' p = Some Dir \<and> fs p = None))"
proof -
  from makedirs_ok [OF assms(3)] obtain fs' where
    mk: "makedirs d fs = Inr fs'" and rest: "lookup_node fs' d = Some Dir"
      "\<forall>p. fs' p = fs p \<or> (fs' p = Some Dir \<and> fs p = None)"
    by blast
  have "make_file_path folder (PathObj q) True fs = (Inr (joinpath d q), fs')"
    using assms(1,2) mk
    by (simp add: make_file_path_def check_just_file_def create_folder_def Path_def)
  with rest show ?thesis by blast
qed

lemma joinpath_bare:
  assumes "\<not> has_separator s" and "s \<noteq> []" and "s \<noteq> ''.''"
  shows "joinpath d (Path_str s) = PurePath (anchor d) (names d @ [s])"
  using assms by (simp add: has_separator_def Path_str_bare joinpath_def)

text \<open>
  Claim C7. \<open>make_file_path\<close> raises ValueError, and leaves the file system as it was,
  whenever the file name (a string, or the POSIX text of a Path) contains \<^verbatim>\<open>/\<close> or a
  backslash, whatever the folder. With a bare file name (a string or a Path) and a folder
  that is a string or a Path it returns the pathlib join of the two: without the folder check the file system is
  untouched; with it, provided no regular file stands in the way of the folder
  (\<open>dirs_creatable\<close>), the folder is a directory afterwards and nothing else is
  changed except missing ancestors, which become directories. For a file name other than
  the empty string and \<^verbatim>\<open>.\<close> the join is the folder's names followed by the file name.
\<close>

theorem make_file_path_filename_check:
  "(has_separator s \<longrightarrow> make_file_path folder (Str s) chk fs = (Inl ValueError, fs)) \<and>
   (has_separator (as_posix q) \<longrightarrow> make_file_path folder (PathObj q) chk fs = (Inl ValueError, fs)) \<and>
   (\<not> has_separator s \<and> Path folder = Inr d \<longrightarrow>
      make_file_path folder (Str s) False fs = (Inr (joinpath d (Path_str s)), fs)) \<and>
   (\<not> has_separator s \<and> Path folder = Inr d \<and> dirs_creatable fs d \<longrightarrow>
      (\<exists>fs'. make_file_path folder (Str s) True fs = (Inr (joinpath d (Path_str s)), fs') \<and>
             lookup_node fs' d = Some Dir \<and>
             (\<forall>p. fs' p = fs p \<or> (fs' p = Some Dir \<and> fs p = None)))) \<and>
   (\<not> has_separator (as_posix q) \<and> Path folder = Inr d \<longrightarrow>
      make_file_path folder (PathObj q) False fs = (Inr (joinpath d q), fs)) \<and>
   (\<not> has_separator (as_posix q) \<and> Path folder = Inr d \<and> dirs_creatable fs d \<longrightarrow>
      (\<exists>fs'. make_file_path folder (PathObj q) True fs = (Inr (joinpath d q), fs') \<and>
             lookup_node fs' d = Some Dir \<and>
             (\<forall>p. fs' p = fs p \<or> (fs' p = Some Dir \<and> fs p = None)))) \<and>
   (\<not> has_separator s \<and> s \<noteq> [] \<and> s \<noteq> ''.'' \<longrightarrow>
      joinpath d (Path_str s) = PurePath (anchor d) (names d @ [s]))"
proof (intro conjI impI)
  assume "has_separator s"
  then have "check_just_file (Str s) = Inl ValueError" by (simp add: check_just_file_def)
  then show "make_file_path folder (Str s) chk fs = (Inl ValueError, fs)"
    by (rule make_file_path_rejects)
next
  assume "has_separator (as_posix q)"
  then have "check_just_file (PathObj q) = Inl ValueError" by (simp add: check_just_file_def)
  then show "make_file_path folder (PathObj q) chk fs = (Inl ValueError, fs)"
    by (rule make_file_path_rejects)
next
  assume "\<not> has_separator s \<and> Path folder = Inr d"
  then show "make_file_path folder (Str s) False fs = (Inr (joinpath d (Path_str s)), fs)"
    by (simp add: make_file_path_bare_unchecked)
next
  assume "\<not> has_separator s \<and> Path folder = Inr d \<and> dirs_creatable fs d"
  then show "\<exists>fs'. make_file_path folder (Str s) True fs = (Inr (joinpath d (Path_str s)), fs') \<and>
             lookup_node fs' d = Some Dir \<and>
             (\<forall>p. fs' p = fs p \<or> (fs' p = Some Dir \<and> fs p = None))"
    using make_file_path_bare_checked by blast
next
  assume "\<not> has_separator (as_posix q) \<and> Path folder = Inr d"
  then show "make_file_path folder (PathObj q) False fs = (Inr (joinpath d q), fs)"
    by (simp add: make_file_path_bare_path_unchecked)
next
  assume "\<not> has_separator (as_posix q) \<and> Path folder = Inr d \<and> dirs_creatable fs d"
  then show "\<exists>fs'. make_file_path folder (PathObj q) True fs = (Inr (joinpath d q), fs') \<and>
             lookup_node fs' d = Some Dir \<and>
             (\<forall>p. fs' p = fs p \<or> (fs' p = Some Dir \<and> fs p = None))"
    using make_file_path_bare_path_checked by blast
next
  assume "\<not> has_separator s \<and> s \<noteq> [] \<and> s \<noteq> ''.''"
  then show "joinpath d (Path_str s) = PurePath (anchor d) (names d @ [s])"
    by (simp add: joinpath_bare)
qed

theorem make_file_path_filename_check_witness:
  "has_separator ''sub/evil.pkl'' \<and>
   make_file_path (Str ''results/plots'') (Str ''sub/evil.pkl'') True Map.empty = (Inl ValueError, Map.empty) \<and>
   has_separator (as_posix (Path_str ''sub/evil.pkl'')) \<and>
   make_file_path (Str ''results/plots'') (PathObj (Path_str ''sub/evil.pkl'')) True Map.empty
     = (Inl ValueError, Map.empty) \<and>
   \<not> has_separator ''evil.pkl'' \<and>
   Path (Str ''results/plots'') = Inr (PurePath [] [''results'', ''plots'']) \<and>
   dirs_creatable Map.empty (PurePath [] [''results'', ''plots'']) \<and>
   make_file_path (Str ''results/plots'') (Str ''evil.pkl'') False Map.empty
     = (Inr (PurePath [] [''results'', ''plots'', ''evil.pkl'']), Map.empty) \<and>
   (\<exists>fs'. make_file_path (Str ''results/plots'') (Str ''evil.pkl'') True Map.empty
             = (Inr (PurePath [] [''results'', ''plots'', ''evil.pkl'']), fs') \<and>
          lookup_node fs' (PurePath [] [''results'', ''plots'']) = Some Dir)"
proof -
  have a: "has_separator ''sub/evil.pkl''" by (simp add: has_separator_def)
  have b: "has_separator (as_posix (Path_str ''sub/evil.pkl''))"
    by (simp add: has_separator_def as_posix_def Path_str_def parse_anchor_def)
  have c: "\<not> has_separator ''evil.pkl''" by (simp add: has_separator_def)
  have d: "Path (Str ''results/plots'') = Inr (PurePath [] [''results'', ''plots''])"
    by (simp add: Path_def Path_str_def parse_anchor_def)
  have e: "dirs_creatable Map.empty (PurePath [] [''results'', ''plots''])"
    by (simp add: dirs_creatable_def)
  have f: "''evil.pkl'' \<noteq> [] \<and> ''evil.pkl'' \<noteq> ''.''" by simp
  note T1 = make_file_path_filename_check
      [of "''sub/evil.pkl''" "Str ''results/plots''" True Map.empty "Path_str ''sub/evil.pkl''"
          "PurePath [] [''results'', ''plots'']"]
  note T2 = make_file_path_filename_check
      [of "''evil.pkl''" "Str ''results/plots''" True Map.empty "Path_str ''sub/evil.pkl''"
          "PurePath [] [''results'', ''plots'']"]
  from T1 a b have r1:
    "make_file_path (Str ''results/plots'') (Str ''sub/evil.pkl'') True Map.empty = (Inl ValueError, Map.empty)"
    "make_file_path (Str ''results/plots'') (PathObj (Path_str ''sub/evil.pkl'')) True Map.empty
       = (Inl ValueError, Map.empty)"
    by blast+
  from T2 c d f have j: "joinpath (PurePath [] [''results'', ''plots'']) (Path_str ''evil.pkl'')
      = PurePath [] [''results'', ''plots'', ''evil.pkl'']"
    by simp
  from T2 c d have r2: "make_file_path (Str ''results/plots'') (Str ''evil.pkl'') False Map.empty
     = (Inr (joinpath (PurePath [] [''results'', ''plots'']) (Path_str ''evil.pkl'')), Map.empty)"
    by blast
  from T2 c d e have r3: "\<exists>fs'. make_file_path (Str ''results/plots'') (Str ''evil.pkl'') True Map.empty
             = (Inr (joinpath (PurePath [] [''results'', ''plots'']) (Path_str ''evil.pkl'')), fs') \<and>
          lookup_node fs' (PurePath [] [''results'', ''plots'']) = Some Dir"
    by blast
  from a b c d e r1 r2 r3 show ?thesis unfolding j by blast
qed

section \<open>Verified properties: the Shapes results folders\<close>

lemma str_nat_digits: "set (str_nat n) \<subseteq> set ''0123456789''"
proof (induction n rule: str_nat.induct)
  case (1 n)
  have d: "digit_char k \<in> set ''0123456789''" if "k < 10" for k
  proof -
    from that have "k \<in> {0,1,2,3,4,5,6,7,8,9}" by auto
    then show ?thesis by (auto simp: digit_char_def)
  qed
  show ?case
  proof (cases "n < 10")
    case True
    then show ?thesis using d [of n] by (subst str_nat.simps) simp
  next
    case False
    have "n mod 10 < 10" by simp
    from d [OF this] "1.IH" [OF False] False show ?thesis
      by (subst str_nat.simps) simp
  qed
qed

lemma str_nat_nonempty: "str_nat n \<noteq> []"
  by (subst str_nat.simps) simp

lemma str_nat_no_sep: "CHR ''/'' \<notin> set (str_nat n)" "CHR 0x5C \<notin> set (str_nat n)"
proof -
  have "CHR ''/'' \<notin> set ''0123456789''" "CHR 0x5C \<notin> set ''0123456789''" by simp_all
  with str_nat_digits [of n] show "CHR ''/'' \<notin> set (str_nat n)" "CHR 0x5C \<notin> set (str_nat n)"
    by blast+
qed

lemma fmt_no_sep: "CHR ''/'' \<notin> set (fmt v)" "CHR 0x5C \<notin> set (fmt v)"
  by (cases v; simp add: fmt_def str_int_def str_nat_no_sep)+

lemma shapes_folder_string_no_sep: "CHR ''/'' \<notin> set (shapes_folder_string n a s)"
  by (simp add: shapes_folder_string_def fmt_no_sep)

lemma splitc_append_sep: "c \<notin> set s \<Longrightarrow> splitc c (s @ c # t) = s # splitc c t"
  by (induction s) (auto split: list.splits)

lemma get_shapes_folder_name_eq:
  "get_shapes_folder_name n a s = PurePath [] [shapes_folder_string n a s]"
proof -
  let ?F = "shapes_folder_string n a s"
  have ne: "?F \<noteq> []" "?F \<noteq> ''.''" "hd ?F = CHR ''c''"
    by (simp_all add: shapes_folder_string_def)
  have sp: "splitc CHR ''/'' (?F @ ''/'') = [?F, []]"
    using splitc_append_sep [OF shapes_folder_string_no_sep, of n a s "[]"] by simp
  obtain t where F: "?F = CHR ''c'' # t" by (simp add: shapes_folder_string_def)
  have an: "parse_anchor (?F @ ''/'') = []"
    unfolding F by (simp add: parse_anchor_def)
  show ?thesis
    unfolding get_shapes_folder_name_def Path_str_def sp an using ne by simp
qed

lemma get_dataset_folder_shapes:
  "get_dataset_folder C ''shapes'' = Inr (Path_str (SHAPES_FOLDER C))"
  by (simp add: get_dataset_folder_def lower_def lower_char_def strip_def strip_chars_def is_space_def)

lemma get_full_shapes_folder_path_eq:
  "get_full_shapes_folder_path C n a s rel =
     Inr (PurePath
            (anchor (joinpath (joinpath (Path_str (RESULTS_FOLDER C)) (Path_str rel)) (Path_str (SHAPES_FOLDER C))))
            (names (joinpath (joinpath (Path_str (RESULTS_FOLDER C)) (Path_str rel)) (Path_str (SHAPES_FOLDER C)))
               @ [shapes_folder_string n a s]))"
  by (simp add: get_full_shapes_folder_path_def get_dataset_folder_shapes get_shapes_folder_name_eq
      joinpath_def Let_def)

lemma parse_anchor_cases: "parse_anchor s = [] \<or> CHR ''/'' \<in> set (parse_anchor s)"
  by (auto simp: parse_anchor_def)

lemma make_file_path_Path_str_names:
  assumes "fst (make_file_path (PathObj folder) (PathObj (Path_str x)) chk fs) = Inr p"
  shows "p = PurePath (anchor folder) (names folder @ names (Path_str x))"
proof -
  have nosep: "\<not> has_separator (as_posix (Path_str x))"
    using assms by (auto simp: make_file_path_def check_just_file_def split: if_splits)
  have "anchor (Path_str x) = []"
  proof (rule ccontr)
    assume ne: "anchor (Path_str x) \<noteq> []"
    then have "CHR ''/'' \<in> set (anchor (Path_str x))"
      using parse_anchor_cases [of x] by (simp add: Path_str_def)
    with ne have "has_separator (as_posix (Path_str x))"
      by (auto simp: has_separator_def as_posix_def)
    with nosep show False ..
  qed
  then have j: "joinpath folder (Path_str x) = PurePath (anchor folder) (names folder @ names (Path_str x))"
    by (simp add: joinpath_def)
  from assms nosep show ?thesis
    by (auto simp: make_file_path_def check_just_file_def Path_def j create_folder_def
        split: if_splits sum.splits)
qed

lemma namespaced_via_make_file_path:
  assumes "get_full_shapes_folder_path C n a s rel = Inr folder"
    and "fst (make_file_path (PathObj folder) (PathObj (Path_str x)) chk fs) = Inr p"
  shows "shapes_folder_string n a s \<in> set (names p)"
proof -
  from assms(1) have "shapes_folder_string n a s \<in> set (names folder)"
    by (auto simp: get_full_shapes_folder_path_eq)
  with make_file_path_Path_str_names [OF assms(2)] show ?thesis by simp
qed

lemma namespaced_via_oracle:
  assumes "get_full_shapes_folder_path C n a s rel = Inr folder"
    and "parse_anchor oracle = []"
    and "fst (make_file_path (PathObj (joinpath folder (Path_str oracle))) (PathObj (Path_str x)) chk fs) = Inr p"
  shows "shapes_folder_string n a s \<in> set (names p)"
proof -
  from assms(1) have "shapes_folder_string n a s \<in> set (names folder)"
    by (auto simp: get_full_shapes_folder_path_eq)
  moreover from assms(2) have "names (joinpath folder (Path_str oracle)) = names folder @ names (Path_str oracle)"
    by (simp add: joinpath_def Path_str_def)
  ultimately show ?thesis
    using make_file_path_Path_str_names [OF assms(3)] by simp
qed

lemma history_namespaced:
  assumes "parse_anchor (ORACLE_FOLDER C) = []"
  shows "fst (load_history_shapes_path C n a s b sub hard oracle fs) = Inr p
           \<Longrightarrow> shapes_folder_string n a s \<in> set (names p)"
    and "fst (save_history_shapes_path C n a s b sub oracle hard fs) = Inr p
           \<Longrightarrow> shapes_folder_string n a s \<in> set (names p)"
  using assms
  by (auto simp: load_history_shapes_path_def save_history_shapes_path_def Let_def
      split: sum.splits if_splits
      dest: namespaced_via_make_file_path namespaced_via_oracle)

lemma model_namespaced:
  shows "fst (load_model_shapes_path C n a s sub mt metric hard adv fs) = Inr p
           \<Longrightarrow> shapes_folder_string n a s \<in> set (names p)"
    and "fst (save_model_shapes_path C n a s sub mt metric hard adv fs) = Inr p
           \<Longrightarrow> shapes_folder_string n a s \<in> set (names p)"
  by (auto simp: load_model_shapes_path_def save_model_shapes_path_def Let_def
      split: sum.splits if_splits
      dest: namespaced_via_make_file_path)

lemma plots_namespaced:
  shows "fst (save_mpo_plot_shapes_path C n a s b sub hard fs) = Inr p
           \<Longrightarrow> shapes_folder_string n a s \<in> set (names p)"
    and "fst (save_training_plot_shapes_path C n a s b sub hard attr fs) = Inr p
           \<Longrightarrow> shapes_folder_string n a s \<in> set (names p)"
    and "fst (save_test_plot_shapes_path C n a s b hard fs) = Inr p
           \<Longrightarrow> shapes_folder_string n a s \<in> set (names p)"
  by (auto simp: save_mpo_plot_shapes_path_def save_training_plot_shapes_path_def
      save_test_plot_shapes_path_def Let_def
      split: sum.splits if_splits
      dest: namespaced_via_make_file_path)

lemma save_model_shapes_cnn_ignores_hard:
  assumes "lower (strip model_type) = ''cnn''"
  shows "save_model_shapes_path C n a s sub model_type metric True adv fs
       = save_model_shapes_path C n a s sub model_type metric False adv fs"
  using assms by (simp add: save_model_shapes_path_def Let_def)

section \<open>Verified properties: hyperparameter files\<close>

lemma map_of_dict_set: "map_of (dict_set k v kvs) = (map_of kvs)(k \<mapsto> v)"
  by (induction kvs) (auto simp: fun_eq_iff)

lemma make_file_path_PathObj_bare:
  assumes "\<not> has_separator x" and "x \<noteq> []" and "x \<noteq> ''.''"
  shows "make_file_path (PathObj folder) (PathObj (Path_str x)) False fs
           = (Inr (PurePath (anchor folder) (names folder @ [x])), fs)"
proof -
  from assms have P: "Path_str x = PurePath [] [x]"
    by (simp add: has_separator_def Path_str_bare)
  have "as_posix (PurePath [] [x]) = x" by (simp add: as_posix_def)
  with assms(1) show ?thesis
    by (simp add: make_file_path_def check_just_file_def P Path_def joinpath_def)
qed

lemma hyperparameters_filename_bare:
  "\<not> has_separator (''hyperparameters_sub'' @ fmt sub @ bottleneck_suffix hard @ ''.yaml'')"
  "''hyperparameters_sub'' @ fmt sub @ bottleneck_suffix hard @ ''.yaml'' \<noteq> ''.''"
  using fmt_no_sep [of sub] by (auto simp: has_separator_def bottleneck_suffix_def)

lemma hyperparameters_file_shapes_eq:
  assumes "get_full_shapes_folder_path C n a s (HYPERPARAMETERS_FOLDER C) = Inr folder"
  shows "hyperparameters_file_shapes C n a s sub hard fs =
           Inr (folder, PurePath (anchor folder)
                  (names folder @ [''hyperparameters_sub'' @ fmt sub @ bottleneck_suffix hard @ ''.yaml'']))"
  using assms hyperparameters_filename_bare [of sub hard]
  by (simp add: hyperparameters_file_shapes_def make_file_path_PathObj_bare del: append.simps append_assoc)

lemma hyperparameters_file_shapes_cases:
  assumes "hyperparameters_file_shapes C n a s sub hard fs = Inr (folder, file)"
  shows "get_full_shapes_folder_path C n a s (HYPERPARAMETERS_FOLDER C) = Inr folder"
    and "file = PurePath (anchor folder)
                  (names folder @ [''hyperparameters_sub'' @ fmt sub @ bottleneck_suffix hard @ ''.yaml''])"
proof -
  obtain f where f: "get_full_shapes_folder_path C n a s (HYPERPARAMETERS_FOLDER C) = Inr f"
    by (simp add: get_full_shapes_folder_path_eq)
  from hyperparameters_file_shapes_eq [OF f, of sub hard fs] assms
  have "f = folder" and "file = PurePath (anchor f)
                  (names f @ [''hyperparameters_sub'' @ fmt sub @ bottleneck_suffix hard @ ''.yaml''])"
    by simp_all
  with f show "get_full_shapes_folder_path C n a s (HYPERPARAMETERS_FOLDER C) = Inr folder"
    and "file = PurePath (anchor folder)
                  (names folder @ [''hyperparameters_sub'' @ fmt sub @ bottleneck_suffix hard @ ''.yaml''])"
    by simp_all
qed

lemma hyperparameters_file_shapes_fs:
  "hyperparameters_file_shapes C n a s sub hard fs = hyperparameters_file_shapes C n a s sub hard fs'"
proof -
  obtain f where f: "get_full_shapes_folder_path C n a s (HYPERPARAMETERS_FOLDER C) = Inr f"
    by (simp add: get_full_shapes_folder_path_eq)
  show ?thesis
    by (simp only: hyperparameters_file_shapes_eq [OF f])
qed

lemma hyperparameters_file_names:
  assumes "hyperparameters_file_shapes C n a s sub hard fs = Inr (folder, file)"
  shows "names file \<noteq> []" and "parent file = folder" and "length (names folder) < length (names file)"
  using hyperparameters_file_shapes_cases(2) [OF assms] by (simp_all add: parent_def)


lemma set_hard_entries_maps:
  assumes "\<forall>(k, v) \<in> set kvs. \<exists>d. v = YMap d"
  shows "\<exists>kvs'. set_hard_entries kvs = Inr kvs' \<and>
           list_all2 (\<lambda>(k, v) (k', v'). k' = k \<and>
               (\<exists>d d'. v = YMap d \<and> v' = YMap d' \<and> map_of d' ''hard'' = Some (YBool True) \<and>
                  (\<forall>key. key \<noteq> ''hard'' \<longrightarrow> map_of d' key = map_of d key))) kvs kvs'"
  using assms
proof (induction kvs)
  case Nil
  then show ?case by simp
next
  case (Cons kv kvs)
  obtain k v where kv: "kv = (k, v)" by (cases kv)
  from Cons.prems kv obtain d where v: "v = YMap d" by auto
  from Cons.prems have "\<forall>(k, v) \<in> set kvs. \<exists>d. v = YMap d" by simp
  from Cons.IH [OF this] obtain kvs' where
    run: "set_hard_entries kvs = Inr kvs'" and
    rel: "list_all2 (\<lambda>(k, v) (k', v'). k' = k \<and>
               (\<exists>d d'. v = YMap d \<and> v' = YMap d' \<and> map_of d' ''hard'' = Some (YBool True) \<and>
                  (\<forall>key. key \<noteq> ''hard'' \<longrightarrow> map_of d' key = map_of d key))) kvs kvs'"
    by blast
  let ?d' = "dict_set ''hard'' (YBool True) d"
  have step: "set_hard_entries (kv # kvs) = Inr ((k, YMap ?d') # kvs')"
    by (simp add: kv v run)
  have hd: "map_of ?d' ''hard'' = Some (YBool True) \<and>
      (\<forall>key. key \<noteq> ''hard'' \<longrightarrow> map_of ?d' key = map_of d key)"
    by (simp add: map_of_dict_set)
  from rel hd have "list_all2 (\<lambda>(k, v) (k', v'). k' = k \<and>
               (\<exists>d d'. v = YMap d \<and> v' = YMap d' \<and> map_of d' ''hard'' = Some (YBool True) \<and>
                  (\<forall>key. key \<noteq> ''hard'' \<longrightarrow> map_of d' key = map_of d key)))
             (kv # kvs) ((k, YMap ?d') # kvs')"
    unfolding kv v by (simp only: list_all2_Cons split_conv) blast
  with step show ?case by blast
qed

lemma load_soft_for_hard:
  assumes hardf: "hyperparameters_file_shapes C (Some nc) (Some na) ss (Some sub) True fs = Inr (folder, hard_file)"
    and softf: "hyperparameters_file_shapes C (Some nc) (Some na) ss (Some sub) False fs = Inr (folder, soft_file)"
    and missing: "\<not> exists fs hard_file"
  shows "load_hyperparameters_shapes C (Some nc) (Some na) ss (Some sub) True False False fs =
     (if exists fs soft_file then
        (case read_yaml fs soft_file of
           Inl e \<Rightarrow> (Inl e, [UsingSoftWithHard soft_file])
         | Inr hyperparameters \<Rightarrow> (force_hard hyperparameters, [UsingSoftWithHard soft_file]))
      else load_default_hyperparameters C True fs [FallingBackOnDefault soft_file])"
proof -
  have alt: "fst (make_file_path (PathObj folder)
        (PathObj (Path_str (''hyperparameters_sub'' @ fmt (Some sub) @ ''.yaml''))) False fs) = Inr soft_file"
    using hyperparameters_file_shapes_cases(1) [OF softf] softf
    by (simp add: hyperparameters_file_shapes_def bottleneck_suffix_def split: sum.splits)
  show ?thesis
    using missing
    by (simp add: load_hyperparameters_shapes_def hardf alt del: append.simps append_assoc)
qed

lemma load_default_hyperparameters_eq:
  assumes "\<not> has_separator (DEFAULT_HYPERPARAMETERS_FILENAME_SHAPES_HARD C)"
  shows "load_default_hyperparameters C True fs ws =
     (read_yaml fs (joinpath (joinpath (joinpath (Path_str (RESULTS_FOLDER C))
         (Path_str (HYPERPARAMETERS_FOLDER C))) (Path_str (SHAPES_FOLDER C)))
         (Path_str (DEFAULT_HYPERPARAMETERS_FILENAME_SHAPES_HARD C))), ws)"
  using assms
  by (simp add: load_default_hyperparameters_def make_file_path_def check_just_file_def Path_def Let_def)

lemma sample_files:
  "hyperparameters_file_shapes sample_consts (Some 10) (Some 5) (Some 98) (Some 3) True fs
     = Inr (sample_folder, sample_hard_file)"
  "hyperparameters_file_shapes sample_consts (Some 10) (Some 5) (Some 98) (Some 3) False fs
     = Inr (sample_folder, sample_soft_file)"
proof -
  have f: "get_full_shapes_folder_path sample_consts (Some 10) (Some 5) (Some 98)
      (HYPERPARAMETERS_FOLDER sample_consts) = Inr sample_folder"
    by (simp add: get_full_shapes_folder_path_eq sample_consts_def sample_folder_def Path_str_def
        parse_anchor_def joinpath_def shapes_folder_string_def fmt_def str_int_def str_nat.simps
        digit_char_def)
  show "hyperparameters_file_shapes sample_consts (Some 10) (Some 5) (Some 98) (Some 3) True fs
     = Inr (sample_folder, sample_hard_file)"
    by (simp add: hyperparameters_file_shapes_eq [OF f] sample_folder_def sample_hard_file_def
        fmt_def str_int_def str_nat.simps digit_char_def bottleneck_suffix_def)
  show "hyperparameters_file_shapes sample_consts (Some 10) (Some 5) (Some 98) (Some 3) False fs
     = Inr (sample_folder, sample_soft_file)"
    by (simp add: hyperparameters_file_shapes_eq [OF f] sample_folder_def sample_soft_file_def
        fmt_def str_int_def str_nat.simps digit_char_def bottleneck_suffix_def)
qed

text \<open>
  Claim C4. \<open>load_hyperparameters_shapes\<close> with \<open>fast = False\<close>,
  \<open>default = False\<close> and \<open>hard_bottleneck = True\<close>, when the hard file of the
  configuration does not exist. If the soft file exists and holds a mapping whose entries
  are mappings, the call returns that set with \<^verbatim>\<open>hard\<close> set to \<open>True\<close> in every
  entry (same keys in the same order, every other hyperparameter as it was) and issues one
  warning. If the soft file does not exist either, the call issues one warning and returns
  what the hard default file holds; the fallback is a warning, not an error.
\<close>

theorem load_hyperparameters_shapes_fallback:
  assumes "hyperparameters_file_shapes C (Some nc) (Some na) ss (Some sub) True fs = Inr (folder, hard_file)"
    and "hyperparameters_file_shapes C (Some nc) (Some na) ss (Some sub) False fs = Inr (folder, soft_file)"
    and "\<not> exists fs hard_file"
  shows "(fs soft_file = Some (File (Some (YMap kvs))) \<and> (\<forall>(k, v) \<in> set kvs. \<exists>d. v = YMap d) \<longrightarrow>
           (\<exists>kvs'. load_hyperparameters_shapes C (Some nc) (Some na) ss (Some sub) True False False fs
                     = (Inr (YMap kvs'), [UsingSoftWithHard soft_file]) \<and>
              list_all2 (\<lambda>(k, v) (k', v'). k' = k \<and>
                 (\<exists>d d'. v = YMap d \<and> v' = YMap d' \<and> map_of d' ''hard'' = Some (YBool True) \<and>
                    (\<forall>key. key \<noteq> ''hard'' \<longrightarrow> map_of d' key = map_of d key))) kvs kvs')) \<and>
         (\<not> exists fs soft_file \<and> \<not> has_separator (DEFAULT_HYPERPARAMETERS_FILENAME_SHAPES_HARD C) \<and>
          read_yaml fs (joinpath (joinpath (joinpath (Path_str (RESULTS_FOLDER C))
              (Path_str (HYPERPARAMETERS_FOLDER C))) (Path_str (SHAPES_FOLDER C)))
              (Path_str (DEFAULT_HYPERPARAMETERS_FILENAME_SHAPES_HARD C))) = Inr dflt \<longrightarrow>
            load_hyperparameters_shapes C (Some nc) (Some na) ss (Some sub) True False False fs
              = (Inr dflt, [FallingBackOnDefault soft_file]))"
proof (intro conjI impI)
  assume a: "fs soft_file = Some (File (Some (YMap kvs))) \<and> (\<forall>(k, v) \<in> set kvs. \<exists>d. v = YMap d)"
  have ne: "names soft_file \<noteq> []" using hyperparameters_file_names(1) [OF assms(2)] .
  with a have ex: "exists fs soft_file" and rd: "read_yaml fs soft_file = Inr (YMap kvs)"
    by (simp_all add: exists_def lookup_node_def read_yaml_def)
  from a set_hard_entries_maps [of kvs] obtain kvs' where
    run: "set_hard_entries kvs = Inr kvs'" and
    rel: "list_all2 (\<lambda>(k, v) (k', v'). k' = k \<and>
                 (\<exists>d d'. v = YMap d \<and> v' = YMap d' \<and> map_of d' ''hard'' = Some (YBool True) \<and>
                    (\<forall>key. key \<noteq> ''hard'' \<longrightarrow> map_of d' key = map_of d key))) kvs kvs'"
    by blast
  have "load_hyperparameters_shapes C (Some nc) (Some na) ss (Some sub) True False False fs
                     = (Inr (YMap kvs'), [UsingSoftWithHard soft_file])"
    by (simp add: load_soft_for_hard [OF assms] ex rd run)
  with rel show "\<exists>kvs'. load_hyperparameters_shapes C (Some nc) (Some na) ss (Some sub) True False False fs
                     = (Inr (YMap kvs'), [UsingSoftWithHard soft_file]) \<and>
              list_all2 (\<lambda>(k, v) (k', v'). k' = k \<and>
                 (\<exists>d d'. v = YMap d \<and> v' = YMap d' \<and> map_of d' ''hard'' = Some (YBool True) \<and>
                    (\<forall>key. key \<noteq> ''hard'' \<longrightarrow> map_of d' key = map_of d key))) kvs kvs'"
    by blast
next
  assume b: "\<not> exists fs soft_file \<and> \<not> has_separator (DEFAULT_HYPERPARAMETERS_FILENAME_SHAPES_HARD C) \<and>
          read_yaml fs (joinpath (joinpath (joinpath (Path_str (RESULTS_FOLDER C))
              (Path_str (HYPERPARAMETERS_FOLDER C))) (Path_str (SHAPES_FOLDER C)))
              (Path_str (DEFAULT_HYPERPARAMETERS_FILENAME_SHAPES_HARD C))) = Inr dflt"
  then show "load_hyperparameters_shapes C (Some nc) (Some na) ss (Some sub) True False False fs
              = (Inr dflt, [FallingBackOnDefault soft_file])"
    by (simp add: load_soft_for_hard [OF assms] load_default_hyperparameters_eq)
qed

theorem load_hyperparameters_shapes_fallback_witness:
  "(\<exists>kvs'. load_hyperparameters_shapes sample_consts (Some 10) (Some 5) (Some 98) (Some 3) True False False
             sample_fs_soft = (Inr (YMap kvs'), [UsingSoftWithHard sample_soft_file]) \<and>
      list_all2 (\<lambda>(k, v) (k', v'). k' = k \<and>
         (\<exists>d d'. v = YMap d \<and> v' = YMap d' \<and> map_of d' ''hard'' = Some (YBool True) \<and>
            (\<forall>key. key \<noteq> ''hard'' \<longrightarrow> map_of d' key = map_of d key))) sample_soft_set kvs') \<and>
   load_hyperparameters_shapes sample_consts (Some 10) (Some 5) (Some 98) (Some 3) True False False
       sample_fs_default = (Inr sample_default_set, [FallingBackOnDefault sample_soft_file])"
proof -
  have h1: "\<not> exists sample_fs_soft sample_hard_file"
    by (simp add: exists_def lookup_node_def sample_fs_soft_def sample_hard_file_def sample_soft_file_def)
  have h2: "sample_fs_soft sample_soft_file = Some (File (Some (YMap sample_soft_set)))
      \<and> (\<forall>(k, v) \<in> set sample_soft_set. \<exists>d. v = YMap d)"
    by (simp add: sample_fs_soft_def sample_soft_set_def)
  have g1: "\<not> exists sample_fs_default sample_hard_file"
    by (simp add: exists_def lookup_node_def sample_fs_default_def sample_hard_file_def)
  have g2: "\<not> exists sample_fs_default sample_soft_file \<and>
      \<not> has_separator (DEFAULT_HYPERPARAMETERS_FILENAME_SHAPES_HARD sample_consts) \<and>
      read_yaml sample_fs_default (joinpath (joinpath (joinpath (Path_str (RESULTS_FOLDER sample_consts))
              (Path_str (HYPERPARAMETERS_FOLDER sample_consts))) (Path_str (SHAPES_FOLDER sample_consts)))
              (Path_str (DEFAULT_HYPERPARAMETERS_FILENAME_SHAPES_HARD sample_consts))) = Inr sample_default_set"
    by (simp add: exists_def lookup_node_def sample_fs_default_def sample_soft_file_def
        sample_consts_def has_separator_def read_yaml_def Path_str_def parse_anchor_def joinpath_def)
  from load_hyperparameters_shapes_fallback [OF sample_files(1) sample_files(2) h1, of sample_soft_set] h2
  have c1: "\<exists>kvs'. load_hyperparameters_shapes sample_consts (Some 10) (Some 5) (Some 98) (Some 3) True False False
             sample_fs_soft = (Inr (YMap kvs'), [UsingSoftWithHard sample_soft_file]) \<and>
      list_all2 (\<lambda>(k, v) (k', v'). k' = k \<and>
         (\<exists>d d'. v = YMap d \<and> v' = YMap d' \<and> map_of d' ''hard'' = Some (YBool True) \<and>
            (\<forall>key. key \<noteq> ''hard'' \<longrightarrow> map_of d' key = map_of d key))) sample_soft_set kvs'"
    by blast
  from load_hyperparameters_shapes_fallback [OF sample_files(1) sample_files(2) g1, of _ sample_default_set] g2
  have c2: "load_hyperparameters_shapes sample_consts (Some 10) (Some 5) (Some 98) (Some 3) True False False
       sample_fs_default = (Inr sample_default_set, [FallingBackOnDefault sample_soft_file])"
    by blast
  from c1 c2 show ?thesis by blast
qed

lemma save_new_file:
  assumes M: "M \<in> set (MODEL_STRINGS_ALL_SHAPES C)"
    and fl: "hyperparameters_file_shapes C n a s sub hard fs = Inr (folder, file)"
    and absent: "fs file = None" and creatable: "dirs_creatable fs folder"
  shows "\<exists>fs'. save_hyperparameters_shapes C n a s sub V M hard fs = (Inr (), fs') \<and>
           fs' file = Some (File (Some (YMap [(M, V)])))"
proof -
  note nm = hyperparameters_file_names [OF fl]
  from makedirs_ok [OF creatable] obtain fs1 where
    mk: "makedirs folder fs = Inr fs1" and dir: "lookup_node fs1 folder = Some Dir"
    and longer: "\<forall>q. length (names folder) < length (names q) \<longrightarrow> fs1 q = fs q"
    by blast
  from longer nm(3) absent have f1: "fs1 file = None" by simp
  have wr: "write_yaml file (YMap [(M, V)]) fs1 = Inr (fs1(file \<mapsto> File (Some (YMap [(M, V)]))))"
    using f1 nm(1,2) dir by (simp add: write_yaml_def lookup_node_def)
  have "save_hyperparameters_shapes C n a s sub V M hard fs
          = (Inr (), fs1(file \<mapsto> File (Some (YMap [(M, V)]))))"
    using M absent nm(1)
    by (simp add: save_hyperparameters_shapes_def fl exists_def lookup_node_def mk wr)
  then show ?thesis by simp
qed

lemma save_existing_file:
  assumes M: "M \<in> set (MODEL_STRINGS_ALL_SHAPES C)"
    and fl: "hyperparameters_file_shapes C n a s sub hard fs = Inr (folder, file)"
    and present: "fs file = Some (File (Some (YMap kvs)))"
  shows "save_hyperparameters_shapes C n a s sub V M hard fs
           = (Inr (), fs(file \<mapsto> File (Some (YMap (dict_set M V kvs)))))"
proof -
  note nm = hyperparameters_file_names [OF fl]
  have rd: "read_yaml fs file = Inr (YMap kvs)" and ex: "exists fs file"
    using present nm(1) by (simp_all add: read_yaml_def exists_def lookup_node_def)
  have wr: "write_yaml file y fs = Inr (fs(file \<mapsto> File (Some y)))" for y
    using present nm(1) by (simp add: write_yaml_def lookup_node_def)
  show ?thesis
    using M by (simp add: save_hyperparameters_shapes_def fl ex rd wr)
qed

lemma save_empty_file:
  assumes M: "M \<in> set (MODEL_STRINGS_ALL_SHAPES C)"
    and fl: "hyperparameters_file_shapes C n a s sub hard fs = Inr (folder, file)"
    and present: "fs file = Some (File (Some YNull))"
  shows "save_hyperparameters_shapes C n a s sub V M hard fs
           = (Inr (), fs(file \<mapsto> File (Some (YMap [(M, V)]))))"
proof -
  note nm = hyperparameters_file_names [OF fl]
  have rd: "read_yaml fs file = Inr YNull" and ex: "exists fs file"
    using present nm(1) by (simp_all add: read_yaml_def exists_def lookup_node_def)
  have wr: "write_yaml file y fs = Inr (fs(file \<mapsto> File (Some y)))" for y
    using present nm(1) by (simp add: write_yaml_def lookup_node_def)
  show ?thesis
    using M by (simp add: save_hyperparameters_shapes_def fl ex rd wr)
qed

lemma load_existing_file:
  assumes fl: "hyperparameters_file_shapes C (Some nc) (Some na) s (Some sub) hard fs = Inr (folder, file)"
    and present: "fs file = Some (File (Some y))"
  shows "load_hyperparameters_shapes C (Some nc) (Some na) s (Some sub) hard False False fs = (Inr y, [])"
proof -
  note nm = hyperparameters_file_names [OF fl]
  have rd: "read_yaml fs file = Inr y" and ex: "exists fs file"
    using present nm(1) by (simp_all add: read_yaml_def exists_def lookup_node_def)
  show ?thesis
    by (simp add: load_hyperparameters_shapes_def fl ex rd)
qed

lemma save_first:
  assumes M: "M \<in> set (MODEL_STRINGS_ALL_SHAPES C)"
    and fl: "hyperparameters_file_shapes C n a s sub hard fs = Inr (folder, file)"
    and init: "(fs file = None \<and> dirs_creatable fs folder) \<or> fs file = Some (File (Some YNull))
               \<or> (\<exists>kvs. fs file = Some (File (Some (YMap kvs))))"
  shows "\<exists>fs' kvs'. save_hyperparameters_shapes C n a s sub V M hard fs = (Inr (), fs') \<and>
           fs' file = Some (File (Some (YMap kvs'))) \<and> map_of kvs' M = Some V"
proof -
  from init consider
      (new) "fs file = None" "dirs_creatable fs folder"
    | (null) "fs file = Some (File (Some YNull))"
    | (old) kvs where "fs file = Some (File (Some (YMap kvs)))"
    by (elim disjE conjE exE)
  then show ?thesis
  proof cases
    case new
    from save_new_file [OF M fl new, of V] show ?thesis by fastforce
  next
    case null
    from save_empty_file [OF M fl null, of V] show ?thesis by fastforce
  next
    case old
    from save_existing_file [OF M fl old, of V] show ?thesis
      by (fastforce simp: map_of_dict_set)
  qed
qed

text \<open>
  Claim C5. Saving values \<open>X\<close> for model \<open>A\<close> and then \<open>Y\<close> for another model
  \<open>B\<close> under the same classes, attributes, signal strength, subset and hardness, then
  loading that configuration, yields a set that maps \<open>A\<close> to \<open>X\<close> and \<open>B\<close> to
  \<open>Y\<close>, with no warning. The file may be missing at first (and its folder creatable),
  empty, or hold a mapping. When the file holds a mapping, a save replaces the entry of
  its model, keeps the entry of every other key, and touches no other file.
\<close>

theorem save_hyperparameters_shapes_roundtrip:
  assumes "A \<in> set (MODEL_STRINGS_ALL_SHAPES C)" and "B \<in> set (MODEL_STRINGS_ALL_SHAPES C)"
    and "A \<noteq> B"
    and "hyperparameters_file_shapes C (Some nc) (Some na) s (Some sub) hard fs = Inr (folder, file)"
    and "(fs file = None \<and> dirs_creatable fs folder) \<or> fs file = Some (File (Some YNull))
          \<or> (\<exists>kvs. fs file = Some (File (Some (YMap kvs))))"
  shows "(\<exists>fs1 fs2 hp.
            save_hyperparameters_shapes C (Some nc) (Some na) s (Some sub) X A hard fs = (Inr (), fs1) \<and>
            save_hyperparameters_shapes C (Some nc) (Some na) s (Some sub) Y B hard fs1 = (Inr (), fs2) \<and>
            load_hyperparameters_shapes C (Some nc) (Some na) s (Some sub) hard False False fs2
              = (Inr (YMap hp), []) \<and>
            map_of hp A = Some X \<and> map_of hp B = Some Y) \<and>
         (\<forall>kvs. fs file = Some (File (Some (YMap kvs))) \<longrightarrow>
            (\<exists>fs' kvs'.
               save_hyperparameters_shapes C (Some nc) (Some na) s (Some sub) X A hard fs = (Inr (), fs') \<and>
               fs' file = Some (File (Some (YMap kvs'))) \<and>
               map_of kvs' A = Some X \<and>
               (\<forall>k. k \<noteq> A \<longrightarrow> map_of kvs' k = map_of kvs k) \<and>
               (\<forall>p. p \<noteq> file \<longrightarrow> fs' p = fs p)))"
proof (intro conjI allI impI)
  from save_first [OF assms(1) assms(4) assms(5), of X] obtain fs1 kvs1 where
    s1: "save_hyperparameters_shapes C (Some nc) (Some na) s (Some sub) X A hard fs = (Inr (), fs1)"
    and f1: "fs1 file = Some (File (Some (YMap kvs1)))" and a1: "map_of kvs1 A = Some X"
    by blast
  have file1: "hyperparameters_file_shapes C (Some nc) (Some na) s (Some sub) hard fs1 = Inr (folder, file)"
    using assms(4) hyperparameters_file_shapes_fs [of C "Some nc" "Some na" s "Some sub" hard fs1 fs]
    by simp
  let ?fs2 = "fs1(file \<mapsto> File (Some (YMap (dict_set B Y kvs1))))"
  have s2: "save_hyperparameters_shapes C (Some nc) (Some na) s (Some sub) Y B hard fs1 = (Inr (), ?fs2)"
    by (rule save_existing_file [OF assms(2) file1 f1])
  have file2: "hyperparameters_file_shapes C (Some nc) (Some na) s (Some sub) hard ?fs2 = Inr (folder, file)"
    using assms(4) hyperparameters_file_shapes_fs [of C "Some nc" "Some na" s "Some sub" hard ?fs2 fs]
    by simp
  have ld: "load_hyperparameters_shapes C (Some nc) (Some na) s (Some sub) hard False False ?fs2
              = (Inr (YMap (dict_set B Y kvs1)), [])"
    by (rule load_existing_file [OF file2]) simp
  have "map_of (dict_set B Y kvs1) A = Some X" "map_of (dict_set B Y kvs1) B = Some Y"
    using a1 assms(3) by (simp_all add: map_of_dict_set)
  with s1 s2 ld show "\<exists>fs1 fs2 hp.
            save_hyperparameters_shapes C (Some nc) (Some na) s (Some sub) X A hard fs = (Inr (), fs1) \<and>
            save_hyperparameters_shapes C (Some nc) (Some na) s (Some sub) Y B hard fs1 = (Inr (), fs2) \<and>
            load_hyperparameters_shapes C (Some nc) (Some na) s (Some sub) hard False False fs2
              = (Inr (YMap hp), []) \<and>
            map_of hp A = Some X \<and> map_of hp B = Some Y"
    by blast
next
  fix kvs assume present: "fs file = Some (File (Some (YMap kvs)))"
  let ?fs' = "fs(file \<mapsto> File (Some (YMap (dict_set A X kvs))))"
  have "save_hyperparameters_shapes C (Some nc) (Some na) s (Some sub) X A hard fs = (Inr (), ?fs')"
    by (rule save_existing_file [OF assms(1) assms(4) present])
  moreover have "?fs' file = Some (File (Some (YMap (dict_set A X kvs))))" by simp
  moreover have "map_of (dict_set A X kvs) A = Some X"
    "\<forall>k. k \<noteq> A \<longrightarrow> map_of (dict_set A X kvs) k = map_of kvs k"
    by (simp_all add: map_of_dict_set)
  moreover have "\<forall>p. p \<noteq> file \<longrightarrow> ?fs' p = fs p" by simp
  ultimately show "\<exists>fs' kvs'.
               save_hyperparameters_shapes C (Some nc) (Some na) s (Some sub) X A hard fs = (Inr (), fs') \<and>
               fs' file = Some (File (Some (YMap kvs'))) \<and>
               map_of kvs' A = Some X \<and>
               (\<forall>k. k \<noteq> A \<longrightarrow> map_of kvs' k = map_of kvs k) \<and>
               (\<forall>p. p \<noteq> file \<longrightarrow> fs' p = fs p)"
    by blast
qed

theorem save_hyperparameters_shapes_roundtrip_witness:
  "(\<exists>fs1 fs2 hp.
      save_hyperparameters_shapes sample_consts (Some 10) (Some 5) (Some 98) (Some 3)
         (YMap [(''learning_rate'', YFloat (1 / 100))]) ''cnn'' False Map.empty = (Inr (), fs1) \<and>
      save_hyperparameters_shapes sample_consts (Some 10) (Some 5) (Some 98) (Some 3)
         (YMap [(''attr_weight'', YInt 10)]) ''cbm'' False fs1 = (Inr (), fs2) \<and>
      load_hyperparameters_shapes sample_consts (Some 10) (Some 5) (Some 98) (Some 3) False False False fs2
         = (Inr (YMap hp), []) \<and>
      map_of hp ''cnn'' = Some (YMap [(''learning_rate'', YFloat (1 / 100))]) \<and>
      map_of hp ''cbm'' = Some (YMap [(''attr_weight'', YInt 10)])) \<and>
   (\<exists>fs' kvs'.
      save_hyperparameters_shapes sample_consts (Some 10) (Some 5) (Some 98) (Some 3)
         (YMap [(''learning_rate'', YFloat (1 / 100))]) ''cnn'' False sample_fs_soft = (Inr (), fs') \<and>
      fs' sample_soft_file = Some (File (Some (YMap kvs'))) \<and>
      map_of kvs' ''cnn'' = Some (YMap [(''learning_rate'', YFloat (1 / 100))]) \<and>
      map_of kvs' ''cbm'' = map_of sample_soft_set ''cbm'')"
proof -
  have m: "''cnn'' \<in> set (MODEL_STRINGS_ALL_SHAPES sample_consts)"
    "''cbm'' \<in> set (MODEL_STRINGS_ALL_SHAPES sample_consts)" "''cnn'' \<noteq> ''cbm''"
    by (simp_all add: sample_consts_def)
  have i1: "(Map.empty sample_soft_file = None \<and> dirs_creatable Map.empty sample_folder)
      \<or> Map.empty sample_soft_file = Some (File (Some YNull))
      \<or> (\<exists>kvs. Map.empty sample_soft_file = Some (File (Some (YMap kvs))))"
    by (simp add: dirs_creatable_def sample_folder_def)
  have i2: "(sample_fs_soft sample_soft_file = None \<and> dirs_creatable sample_fs_soft sample_folder)
      \<or> sample_fs_soft sample_soft_file = Some (File (Some YNull))
      \<or> (\<exists>kvs. sample_fs_soft sample_soft_file = Some (File (Some (YMap kvs))))"
    by (simp add: sample_fs_soft_def)
  have p: "sample_fs_soft sample_soft_file = Some (File (Some (YMap sample_soft_set)))"
    by (simp add: sample_fs_soft_def)
  note T1 = save_hyperparameters_shapes_roundtrip [OF m sample_files(2) i1,
      of "YMap [(''learning_rate'', YFloat (1 / 100))]" "YMap [(''attr_weight'', YInt 10)]"]
  note T2 = save_hyperparameters_shapes_roundtrip [OF m sample_files(2) i2,
      of "YMap [(''learning_rate'', YFloat (1 / 100))]" "YMap [(''attr_weight'', YInt 10)]"]
  from T1 have c1: "\<exists>fs1 fs2 hp.
      save_hyperparameters_shapes sample_consts (Some 10) (Some 5) (Some 98) (Some 3)
         (YMap [(''learning_rate'', YFloat (1 / 100))]) ''cnn'' False Map.empty = (Inr (), fs1) \<and>
      save_hyperparameters_shapes sample_consts (Some 10) (Some 5) (Some 98) (Some 3)
         (YMap [(''attr_weight'', YInt 10)]) ''cbm'' False fs1 = (Inr (), fs2) \<and>
      load_hyperparameters_shapes sample_consts (Some 10) (Some 5) (Some 98) (Some 3) False False False fs2
         = (Inr (YMap hp), []) \<and>
      map_of hp ''cnn'' = Some (YMap [(''learning_rate'', YFloat (1 / 100))]) \<and>
      map_of hp ''cbm'' = Some (YMap [(''attr_weight'', YInt 10)])"
    by blast
  from T2 p obtain fs' kvs' where
    "save_hyperparameters_shapes sample_consts (Some 10) (Some 5) (Some 98) (Some 3)
         (YMap [(''learning_rate'', YFloat (1 / 100))]) ''cnn'' False sample_fs_soft = (Inr (), fs')"
    "fs' sample_soft_file = Some (File (Some (YMap kvs')))"
    "map_of kvs' ''cnn'' = Some (YMap [(''learning_rate'', YFloat (1 / 100))])"
    "\<forall>k. k \<noteq> ''cnn'' \<longrightarrow> map_of kvs' k = map_of sample_soft_set k"
    by blast
  then have c2: "\<exists>fs' kvs'.
      save_hyperparameters_shapes sample_consts (Some 10) (Some 5) (Some 98) (Some 3)
         (YMap [(''learning_rate'', YFloat (1 / 100))]) ''cnn'' False sample_fs_soft = (Inr (), fs') \<and>
      fs' sample_soft_file = Some (File (Some (YMap kvs'))) \<and>
      map_of kvs' ''cnn'' = Some (YMap [(''learning_rate'', YFloat (1 / 100))]) \<and>
      map_of kvs' ''cbm'' = map_of sample_soft_set ''cbm''"
    by auto
  from c1 c2 show ?thesis by blast
qed

section \<open>Verified properties: the hardness suffix of model files\<close>

lemma load_model_shapes_cnn_hard_differs:
  assumes "''cnn'' \<in> set (MODEL_STRINGS_ALL_SHAPES C)" and "\<not> has_separator metric"
  shows "\<exists>p q. fst (load_model_shapes_path C n a s sub ''cnn'' metric True adv fs) = Inr p \<and>
               fst (load_model_shapes_path C n a s sub ''cnn'' metric False adv fs) = Inr q \<and> p \<noteq> q"
proof -
  obtain folder where f: "get_full_shapes_folder_path C n a s (SAVED_MODELS_FOLDER C) = Inr folder"
    by (simp add: get_full_shapes_folder_path_eq)
  have mt: "lower (strip ''cnn'') = ''cnn''"
    by (simp add: lower_def lower_char_def strip_def strip_chars_def is_space_def)
  let ?x = "\<lambda>b. ''cnn'' @ ''_sub'' @ fmt sub @ ''_'' @ metric @ b @ adversarial_suffix adv @ ''.pth''"
  have bare: "\<not> has_separator (?x b)" "?x b \<noteq> []" "?x b \<noteq> ''.''" if "b = [] \<or> b = ''_hard''" for b
    using that assms(2) fmt_no_sep [of sub]
    by (auto simp: has_separator_def adversarial_suffix_def)
  have p: "fst (load_model_shapes_path C n a s sub ''cnn'' metric True adv fs)
             = Inr (PurePath (anchor folder) (names folder @ [?x ''_hard'']))"
    using assms(1) bare [of "''_hard''"]
    by (simp add: load_model_shapes_path_def mt f make_file_path_PathObj_bare del: append.simps append_assoc)
  have q: "fst (load_model_shapes_path C n a s sub ''cnn'' metric False adv fs)
             = Inr (PurePath (anchor folder) (names folder @ [?x []]))"
    using assms(1) bare [of "[]"]
    by (simp add: load_model_shapes_path_def mt f make_file_path_PathObj_bare del: append.simps append_assoc)
  have "length (?x ''_hard'') \<noteq> length (?x [])" by simp
  then have "?x ''_hard'' \<noteq> ?x []" by metis
  with p q show ?thesis by simp
qed

text \<open>
  Claim C1, evaluated on the code. For \<^verbatim>\<open>model_type="cnn"\<close> and
  \<^verbatim>\<open>hard_bottleneck=True\<close>, \<open>load_model_shapes\<close> resolves the file name
  \<^verbatim>\<open>cnn_sub3_loss_hard.pth\<close>, not the name it resolves with
  \<^verbatim>\<open>hard_bottleneck=False\<close>; \<open>save_model_shapes\<close> resolves
  \<^verbatim>\<open>cnn_sub3_loss.pth\<close> for both. The suffix is suppressed on the save path only:
  \<open>save_model_shapes_cnn_ignores_hard\<close> holds for every configuration, and by
  \<open>load_model_shapes_cnn_hard_differs\<close> the two loads differ whenever
  \<^verbatim>\<open>cnn\<close> is a registered model and the metric has no path separator.
\<close>

theorem load_model_shapes_cnn_keeps_hard_suffix:
  "fst (load_model_shapes_path sample_consts (Some 10) (Some 5) (Some 98) (Some 3) ''cnn'' ''loss''
          True False Map.empty)
     = Inr (PurePath [] [''results'', ''saved_models'', ''shapes'', ''c10_a5_s98'', ''cnn_sub3_loss_hard.pth'']) \<and>
   fst (load_model_shapes_path sample_consts (Some 10) (Some 5) (Some 98) (Some 3) ''cnn'' ''loss''
          False False Map.empty)
     = Inr (PurePath [] [''results'', ''saved_models'', ''shapes'', ''c10_a5_s98'', ''cnn_sub3_loss.pth'']) \<and>
   fst (save_model_shapes_path sample_consts (Some 10) (Some 5) (Some 98) (Some 3) ''cnn'' ''loss''
          True False Map.empty)
     = Inr (PurePath [] [''results'', ''saved_models'', ''shapes'', ''c10_a5_s98'', ''cnn_sub3_loss.pth'']) \<and>
   fst (save_model_shapes_path sample_consts (Some 10) (Some 5) (Some 98) (Some 3) ''cnn'' ''loss''
          False False Map.empty)
     = Inr (PurePath [] [''results'', ''saved_models'', ''shapes'', ''c10_a5_s98'', ''cnn_sub3_loss.pth''])"
  by code_simp

section \<open>Verified properties: accuracy on the test set\<close>




lemma is_top1_iff:
  "is_top1 row l \<longleftrightarrow>
     (\<exists>k. l = int k \<and> k < length row \<and> (\<forall>j < length row. row ! j \<le> row ! k) \<and>
          (\<forall>j < k. row ! j < row ! k))"
proof
  assume "is_top1 row l"
  then have "l = int (nat l) \<and> nat l < length row \<and> (\<forall>j < length row. row ! j \<le> row ! nat l) \<and>
          (\<forall>j < nat l. row ! j < row ! nat l)"
    by (simp add: is_top1_def list_all_length)
  then show "\<exists>k. l = int k \<and> k < length row \<and> (\<forall>j < length row. row ! j \<le> row ! k) \<and>
          (\<forall>j < k. row ! j < row ! k)" ..
next
  assume "\<exists>k. l = int k \<and> k < length row \<and> (\<forall>j < length row. row ! j \<le> row ! k) \<and>
          (\<forall>j < k. row ! j < row ! k)"
  then obtain k where "l = int k" "k < length row" "\<forall>j < length row. row ! j \<le> row ! k"
    "\<forall>j < k. row ! j < row ! k" by auto
  then show "is_top1 row l" by (simp add: is_top1_def list_all_length)
qed









section \<open>Verified properties: the training loop and the driver\<close>

lemma and_thenE:
  assumes "and_then m f s = (Inr y, s')"
  obtains x s1 where "m s = (Inr x, s1)" and "f x s1 = (Inr y, s')"
  using assms by (auto simp: and_then_def split: prod.splits sum.splits)

lemma callE:
  assumes "call ev f s = (Inr x, s')"
  obtains w' where "f (snd s) = (Inr x, w')" and "s' = (fst s @ [ev], w')"
  using assms by (cases s) (auto simp: call_def split: prod.splits)

lemma liftE:
  assumes "lift r s = (Inr x, s')"
  obtains "r = Inr x" and "s' = s"
  using assms by (auto simp: lift_def)

lemma retE:
  assumes "ret x s = (Inr y, s')"
  obtains "y = x" and "s' = s"
  using assms by (auto simp: ret_def)

lemma well_seeded_append:
  "well_seeded b xs \<Longrightarrow> well_seeded b ys \<Longrightarrow> well_seeded b (xs @ ys)"
proof (induction b xs rule: well_seeded.induct)
  case (1 b)
  then show ?case by simp
next
  case (2 b ev)
  then show ?case by (cases ys) auto
next
  case (3 b ev ev' rest)
  then show ?case by (auto split: if_splits)
qed

lemma reloads_loss_append:
  "reloads_loss xs \<Longrightarrow> reloads_loss ys \<Longrightarrow> reloads_loss (xs @ ys)"
proof (induction xs rule: reloads_loss.induct)
  case 1
  then show ?case by simp
next
  case (2 ev)
  then show ?case by (cases ys) auto
next
  case (3 ev ev' rest)
  then show ?case by (auto split: if_splits)
qed

lemma quiet_well_seeded:
  "list_all (\<lambda>ev. \<not> is_seed ev \<and> \<not> is_training ev) evs \<Longrightarrow> well_seeded b evs"
  by (induction b evs rule: well_seeded.induct) auto

lemma quiet_reloads_loss:
  "list_all (\<lambda>ev. \<not> is_training ev \<and> \<not> is_torch_load ev) evs \<Longrightarrow> reloads_loss evs"
  by (induction evs rule: reloads_loss.induct) auto

lemma train_and_evaluate_model_trace:
  assumes "train_and_evaluate_model E n_classes n_attr train_loader val_loader test_loader sub_dir hp
             fast n_bootstrap seed models i histories s = (Inr histories', s')"
  shows "\<exists>tr model_string history trained state_dict reloaded acc w w'.
           fst s' = fst s @ [Makedirs (save_model_path_of n_classes n_attr fast sub_dir)]
                      @ (case seed of None \<Rightarrow> [] | Some sd \<Rightarrow> [SeedEverything sd])
                      @ [tr, TorchLoad (loss_checkpoint tr)] \<and>
           is_training tr \<and>
           list_getitem (MODEL_STRINGS E) i = Inr model_string \<and>
           loss_checkpoint tr = save_model_path_of n_classes n_attr fast sub_dir @ model_string @ ''_b''
                                  @ str_int n_bootstrap @ ''_loss.pth'' \<and>
           torch_load E (loss_checkpoint tr) w = (Inr state_dict, w') \<and>
           load_state_dict E trained state_dict = Inr reloaded \<and>
           evaluate_on_test_set (float_round E) (forward E reloaded) test_loader = Inr acc \<and>
           histories' = histories @ [dict_set ''test_accuracy'' [acc] history]"
  using assms unfolding train_and_evaluate_model_def Let_def
  apply (elim and_thenE liftE)
  apply (auto elim!: and_thenE liftE callE retE split: option.splits if_splits prod.splits)
         apply blast+
  done


lemma for_loop_invariant:
  assumes "for_loop xs body acc s = (Inr acc', s')"
    and "I [] acc s"
    and "\<And>pre i post a t a' t'. xs = pre @ i # post \<Longrightarrow> I pre a t \<Longrightarrow> body i a t = (Inr a', t')
           \<Longrightarrow> I (pre @ [i]) a' t'"
  shows "I xs acc' s'"
proof -
  have "for_loop ys body a t = (Inr acc', s') \<Longrightarrow> xs = pre @ ys \<Longrightarrow> I pre a t \<Longrightarrow> I xs acc' s'"
    for ys pre a t
  proof (induction ys arbitrary: pre a t)
    case Nil
    then show ?case by (auto elim: retE)
  next
    case (Cons i ys)
    from Cons.prems(1) obtain a1 t1 where
      b: "body i a t = (Inr a1, t1)" and r: "for_loop ys body a1 t1 = (Inr acc', s')"
      by (auto elim: and_thenE)
    from assms(3) [OF Cons.prems(2) Cons.prems(3) b] have "I (pre @ [i]) a1 t1" .
    moreover from Cons.prems(2) have "xs = (pre @ [i]) @ ys" by simp
    ultimately show ?case using Cons.IH [OF r] by blast
  qed
  from this [OF assms(1), of "[]"] assms(2) show ?thesis by simp
qed

lemma upt_split_index:
  assumes "[a ..< b] = pre @ i # post"
  shows "i = a + length pre" and "pre = [a ..< a + length pre]"
proof -
  have l: "length pre < b - a"
    using arg_cong [OF assms, of length] by simp
  have "[a ..< b] ! length pre = (pre @ i # post) ! length pre" using assms by simp
  then show "i = a + length pre" using l by simp
  have "take (length pre) [a ..< b] = pre" using assms by simp
  then show "pre = [a ..< a + length pre]" using l by (simp add: take_upt)
qed

lemma list_getitem_Inr: "list_getitem xs i = Inr x \<Longrightarrow> i < length xs \<and> x = xs ! i"
  by (auto simp: list_getitem_def split: if_splits)

lemma train_and_evaluate_model_block:
  assumes "train_and_evaluate_model E n_classes n_attr train_loader val_loader test_loader sub_dir hp
             fast n_bootstrap seed models i histories s = (Inr histories', s')"
  shows "\<exists>evs h. fst s' = fst s @ evs \<and> filter is_data_event evs = [] \<and>
           (\<forall>sd. seed = Some sd \<longrightarrow> well_seeded sd evs) \<and> reloads_loss evs \<and>
           map loss_checkpoint (filter is_training evs) =
             [save_model_path_of n_classes n_attr fast sub_dir @ MODEL_STRINGS E ! i @ ''_b''
                @ str_int n_bootstrap @ ''_loss.pth''] \<and>
           histories' = histories @ [h] \<and> evaluated_on_loss_checkpoint E test_loader h"
proof -
  from train_and_evaluate_model_trace [OF assms]
  obtain tr model_string history trained state_dict reloaded acc w w' where
    tr: "fst s' = fst s @ [Makedirs (save_model_path_of n_classes n_attr fast sub_dir)]
                      @ (case seed of None \<Rightarrow> [] | Some sd \<Rightarrow> [SeedEverything sd])
                      @ [tr, TorchLoad (loss_checkpoint tr)]"
    and it: "is_training tr"
    and ms: "list_getitem (MODEL_STRINGS E) i = Inr model_string"
    and lc: "loss_checkpoint tr = save_model_path_of n_classes n_attr fast sub_dir @ model_string @ ''_b''
                                  @ str_int n_bootstrap @ ''_loss.pth''"
    and tl: "torch_load E (loss_checkpoint tr) w = (Inr state_dict, w')"
    and ls: "load_state_dict E trained state_dict = Inr reloaded"
    and ev: "evaluate_on_test_set (float_round E) (forward E reloaded) test_loader = Inr acc"
    and hs: "histories' = histories @ [dict_set ''test_accuracy'' [acc] history]"
    by blast
  let ?evs = "[Makedirs (save_model_path_of n_classes n_attr fast sub_dir)]
                      @ (case seed of None \<Rightarrow> [] | Some sd \<Rightarrow> [SeedEverything sd])
                      @ [tr, TorchLoad (loss_checkpoint tr)]"
  let ?h = "dict_set ''test_accuracy'' [acc] history"
  have nd: "\<not> is_data_event tr" "\<not> is_seed tr" "\<not> is_torch_load tr"
    using it by (cases tr; simp)+
  have a: "filter is_data_event ?evs = []"
    using nd by (simp split: option.splits)
  have b: "\<forall>sd. seed = Some sd \<longrightarrow> well_seeded sd ?evs"
    using it nd by simp
  have c: "reloads_loss ?evs"
    using it nd by (simp split: option.splits)
  have d: "map loss_checkpoint (filter is_training ?evs) =
             [save_model_path_of n_classes n_attr fast sub_dir @ MODEL_STRINGS E ! i @ ''_b''
                @ str_int n_bootstrap @ ''_loss.pth'']"
    using it lc list_getitem_Inr [OF ms] by (simp split: option.splits)
  have "map_of ?h ''test_accuracy'' = Some [acc]" by (simp add: map_of_dict_set)
  moreover have "\<exists>q. loss_checkpoint tr = q @ ''_loss.pth''"
    using lc by (metis append_assoc)
  ultimately have e: "evaluated_on_loss_checkpoint E test_loader ?h"
    unfolding evaluated_on_loss_checkpoint_def using tl ls ev by blast
  show ?thesis
  proof (intro exI conjI)
    show "fst s' = fst s @ ?evs" by (rule tr)
    show "filter is_data_event ?evs = []" by (rule a)
    show "\<forall>sd. seed = Some sd \<longrightarrow> well_seeded sd ?evs" by (rule b)
    show "reloads_loss ?evs" by (rule c)
    show "map loss_checkpoint (filter is_training ?evs) =
             [save_model_path_of n_classes n_attr fast sub_dir @ MODEL_STRINGS E ! i @ ''_b''
                @ str_int n_bootstrap @ ''_loss.pth'']" by (rule d)
    show "histories' = histories @ [?h]" by (rule hs)
    show "evaluated_on_loss_checkpoint E test_loader ?h" by (rule e)
  qed
qed

lemma train_and_evaluate_shapes_trace:
  assumes "train_and_evaluate_shapes E n_classes n_attr train_loader val_loader test_loader sub_dir
             hyperparameters fast n_bootstrap seed s = (Inr histories, s')"
  shows "\<exists>evs. fst s' = fst s @ evs \<and> filter is_data_event evs = [] \<and>
           (\<forall>sd. seed = Some sd \<longrightarrow> well_seeded sd evs) \<and> reloads_loss evs \<and>
           map loss_checkpoint (filter is_training evs) =
             map (\<lambda>i. save_model_path_of n_classes n_attr fast sub_dir @ MODEL_STRINGS E ! i @ ''_b''
                        @ str_int n_bootstrap @ ''_loss.pth'') [0 ..< length histories] \<and>
           list_all (evaluated_on_loss_checkpoint E test_loader) histories"
proof -
  from assms obtain hp s1 models s2 where
    hp: "(case hyperparameters of
          Some hp \<Rightarrow> ret hp
        | None \<Rightarrow>
            and_then (lift (int_of_str (strip_chars (\<lambda>c. c \<in> set ''sub'')
                                          (strip_chars (\<lambda>c. c = CHR ''/'') sub_dir)))) (\<lambda>n_subset.
              call (GetHyperparameters n_classes n_attr n_subset fast)
                (get_hyperparameters E n_classes n_attr n_subset fast))) s = (Inr hp, s1)"
    and lm: "call (LoadModelsShapes n_classes n_attr) (load_models_shapes E n_classes n_attr hp) s1
               = (Inr models, s2)"
    and loop: "for_loop [0 ..< length models]
       (train_and_evaluate_model E n_classes n_attr train_loader val_loader test_loader sub_dir hp
          fast n_bootstrap seed models) [] s2 = (Inr histories, s')"
    unfolding train_and_evaluate_shapes_def by (elim and_thenE) blast
  have e1: "\<exists>evs. fst s1 = fst s @ evs \<and> list_all (\<lambda>ev. \<not> is_data_event ev \<and> \<not> is_seed ev
              \<and> \<not> is_training ev \<and> \<not> is_torch_load ev) evs"
    using hp by (auto elim!: and_thenE liftE callE retE split: option.splits)
  have e2: "fst s2 = fst s1 @ [LoadModelsShapes n_classes n_attr]"
    using lm by (auto elim!: callE)
  define I where "I = (\<lambda>(pre :: nat list) (acc :: history list) (t :: 'a run_state).
      \<exists>evs. fst t = fst s2 @ evs \<and> filter is_data_event evs = [] \<and>
           (\<forall>sd. seed = Some sd \<longrightarrow> well_seeded sd evs) \<and> reloads_loss evs \<and>
           map loss_checkpoint (filter is_training evs) =
             map (\<lambda>i. save_model_path_of n_classes n_attr fast sub_dir @ MODEL_STRINGS E ! i @ ''_b''
                        @ str_int n_bootstrap @ ''_loss.pth'') pre \<and>
           length acc = length pre \<and>
           list_all (evaluated_on_loss_checkpoint E test_loader) acc)"
  have init: "I [] [] s2" unfolding I_def by simp
  have step: "I (pre @ [i]) a' t'"
    if "[0 ..< length models] = pre @ i # post" and "I pre a t"
      and "train_and_evaluate_model E n_classes n_attr train_loader val_loader test_loader sub_dir hp
             fast n_bootstrap seed models i a t = (Inr a', t')"
    for pre i post a t a' t'
  proof -
    from that(2) obtain evs where
      i1: "fst t = fst s2 @ evs" "filter is_data_event evs = []"
        "\<forall>sd. seed = Some sd \<longrightarrow> well_seeded sd evs" "reloads_loss evs"
        "map loss_checkpoint (filter is_training evs) =
             map (\<lambda>i. save_model_path_of n_classes n_attr fast sub_dir @ MODEL_STRINGS E ! i @ ''_b''
                        @ str_int n_bootstrap @ ''_loss.pth'') pre"
        "length a = length pre" "list_all (evaluated_on_loss_checkpoint E test_loader) a"
      unfolding I_def by blast
    from train_and_evaluate_model_block [OF that(3)] obtain evs' h where
      i2: "fst t' = fst t @ evs'" "filter is_data_event evs' = []"
        "\<forall>sd. seed = Some sd \<longrightarrow> well_seeded sd evs'" "reloads_loss evs'"
        "map loss_checkpoint (filter is_training evs') =
             [save_model_path_of n_classes n_attr fast sub_dir @ MODEL_STRINGS E ! i @ ''_b''
                @ str_int n_bootstrap @ ''_loss.pth'']"
        "a' = a @ [h]" "evaluated_on_loss_checkpoint E test_loader h"
      by (elim exE conjE)
    have "fst t' = fst s2 @ (evs @ evs')" using i1(1) i2(1) by simp
    moreover have "filter is_data_event (evs @ evs') = []" using i1(2) i2(2) by simp
    moreover have "\<forall>sd. seed = Some sd \<longrightarrow> well_seeded sd (evs @ evs')"
      using i1(3) i2(3) by (simp add: well_seeded_append)
    moreover have "reloads_loss (evs @ evs')" using i1(4) i2(4) by (rule reloads_loss_append)
    moreover have "map loss_checkpoint (filter is_training (evs @ evs')) =
             map (\<lambda>i. save_model_path_of n_classes n_attr fast sub_dir @ MODEL_STRINGS E ! i @ ''_b''
                        @ str_int n_bootstrap @ ''_loss.pth'') (pre @ [i])"
      using i1(5) i2(5) by simp
    moreover have "length a' = length (pre @ [i])" using i1(6) i2(6) by simp
    moreover have "list_all (evaluated_on_loss_checkpoint E test_loader) a'"
      using i1(7) i2(6,7) by simp
    ultimately show ?thesis unfolding I_def by blast
  qed
  have "I [0 ..< length models] histories s'"
    by (rule for_loop_invariant [where I = I, OF loop init]) (rule step; assumption)
  then obtain evs where
    f: "fst s' = fst s2 @ evs" "filter is_data_event evs = []"
      "\<forall>sd. seed = Some sd \<longrightarrow> well_seeded sd evs" "reloads_loss evs"
      "map loss_checkpoint (filter is_training evs) =
         map (\<lambda>i. save_model_path_of n_classes n_attr fast sub_dir @ MODEL_STRINGS E ! i @ ''_b''
                    @ str_int n_bootstrap @ ''_loss.pth'') [0 ..< length models]"
      "length histories = length [0 ..< length models]"
      "list_all (evaluated_on_loss_checkpoint E test_loader) histories"
    unfolding I_def by blast
  from e1 obtain evs0 where
    g: "fst s1 = fst s @ evs0" "list_all (\<lambda>ev. \<not> is_data_event ev \<and> \<not> is_seed ev
              \<and> \<not> is_training ev \<and> \<not> is_torch_load ev) evs0"
    by blast
  let ?pre = "evs0 @ [LoadModelsShapes n_classes n_attr]"
  have quiet: "list_all (\<lambda>ev. \<not> is_data_event ev \<and> \<not> is_seed ev
              \<and> \<not> is_training ev \<and> \<not> is_torch_load ev) ?pre"
    using g(2) by simp
  have q1: "filter is_data_event ?pre = []" "filter is_training ?pre = []"
    using quiet by (auto simp: list_all_iff filter_empty_conv)
  have q2: "well_seeded sd ?pre" for sd
    using quiet by (intro quiet_well_seeded) (auto simp: list_all_iff)
  have q3: "reloads_loss ?pre"
    using quiet by (intro quiet_reloads_loss) (auto simp: list_all_iff)
  have "fst s' = fst s @ (?pre @ evs)" using f(1) e2 g(1) by simp
  moreover have "filter is_data_event (?pre @ evs) = []" using q1 f(2) by simp
  moreover have "\<forall>sd. seed = Some sd \<longrightarrow> well_seeded sd (?pre @ evs)"
    using q2 f(3) well_seeded_append by blast
  moreover have "reloads_loss (?pre @ evs)" using q3 f(4) by (rule reloads_loss_append)
  moreover have "map loss_checkpoint (filter is_training (?pre @ evs)) =
             map (\<lambda>i. save_model_path_of n_classes n_attr fast sub_dir @ MODEL_STRINGS E ! i @ ''_b''
                        @ str_int n_bootstrap @ ''_loss.pth'') [0 ..< length histories]"
    using q1 f(5,6) by simp
  ultimately show ?thesis using f(7) by blast
qed


lemma bootstrap_iteration_steps:
  assumes "bootstrap_iteration E dataset_dir n_classes n_attr subset_n subset_dir test_loader n_bootstrap
             fast base_seed k (seed, histories_total) t = (Inr (seed', total'), t')"
  shows "\<exists>train_loader val_loader histories s2 s3.
           fst s2 = fst t @ [MakeSubsetShapes dataset_dir subset_n n_classes seed,
                             LoadDataShapes ''train-val'' dataset_dir subset_dir] \<and>
           train_and_evaluate_shapes E n_classes n_attr train_loader val_loader test_loader
             subset_dir None fast n_bootstrap (Some base_seed) s2 = (Inr histories, s3) \<and>
           fst t' = fst s3 @ [AddHistories n_bootstrap] \<and> seed' = seed + 1"
  using assms unfolding bootstrap_iteration_def
  apply (simp only: prod.case)
  apply (elim and_thenE callE liftE)
  apply (auto elim!: and_thenE callE liftE retE split: loaded.splits prod.splits)
  apply blast
  done

lemma bootstrap_iteration_trace:
  assumes "bootstrap_iteration E dataset_dir n_classes n_attr subset_n subset_dir test_loader n_bootstrap
             fast base_seed k (seed, histories_total) t = (Inr (seed', total'), t')"
  shows "\<exists>evs. fst t' = fst t @ evs \<and>
           filter is_data_event evs = [MakeSubsetShapes dataset_dir subset_n n_classes seed,
                                       LoadDataShapes ''train-val'' dataset_dir subset_dir,
                                       AddHistories n_bootstrap] \<and>
           well_seeded base_seed evs \<and> reloads_loss evs \<and> seed' = seed + 1"
proof -
  from bootstrap_iteration_steps [OF assms] obtain train_loader val_loader histories s2 s3 where
    a: "fst s2 = fst t @ [MakeSubsetShapes dataset_dir subset_n n_classes seed,
                             LoadDataShapes ''train-val'' dataset_dir subset_dir]"
    and b: "train_and_evaluate_shapes E n_classes n_attr train_loader val_loader test_loader
             subset_dir None fast n_bootstrap (Some base_seed) s2 = (Inr histories, s3)"
    and c: "fst t' = fst s3 @ [AddHistories n_bootstrap]" and d: "seed' = seed + 1"
    by (elim exE conjE)
  from train_and_evaluate_shapes_trace [OF b] obtain evs where
    e: "fst s3 = fst s2 @ evs" "filter is_data_event evs = []"
      "well_seeded base_seed evs" "reloads_loss evs"
    by auto
  let ?a = "[MakeSubsetShapes dataset_dir subset_n n_classes seed,
             LoadDataShapes ''train-val'' dataset_dir subset_dir]"
  let ?evs = "?a @ evs @ [AddHistories n_bootstrap]"
  have "fst t' = fst t @ ?evs" using a c e(1) by simp
  moreover have "filter is_data_event ?evs = [MakeSubsetShapes dataset_dir subset_n n_classes seed,
                                       LoadDataShapes ''train-val'' dataset_dir subset_dir,
                                       AddHistories n_bootstrap]"
    using e(2) by simp
  moreover have "well_seeded base_seed ?evs"
    by (intro well_seeded_append e(3)) simp_all
  moreover have "reloads_loss ?evs"
    by (intro reloads_loss_append e(4)) simp_all
  ultimately show ?thesis using d by blast
qed

lemma run_subset_steps:
  assumes "run_subset E dataset_dir n_classes n_attr n_bootstrap fast base_seed subset_n accs0 t
             = (Inr accs, t')"
  shows "\<exists>test_loader s1 seed histories_total s2 s3.
           fst s1 = fst t @ [LoadDataShapes ''test'' dataset_dir []] \<and>
           for_loop [0 ..< nat n_bootstrap]
             (bootstrap_iteration E dataset_dir n_classes n_attr subset_n (''sub'' @ str_int subset_n @ ''/'')
                test_loader n_bootstrap fast base_seed) (base_seed, None) s1
             = (Inr (seed, histories_total), s2) \<and>
           for_loop [0 ..< length (MODEL_STRINGS E)]
                 (\<lambda>i accs. and_then (lift (first_test_accuracy histories_total i))
                    (\<lambda>a. ret (accs[i := accs ! i @ [a]]))) accs0 s2 = (Inr accs, s3) \<and>
           (\<exists>e1 e2 e3 e4.
              fst t' = fst s3 @ [e1, e2, e3, e4, MakeSubsetShapes dataset_dir subset_n n_classes base_seed] \<and>
              list_all (\<lambda>ev. \<not> is_data_event ev \<and> \<not> is_seed ev \<and> \<not> is_training ev
                             \<and> \<not> is_torch_load ev) [e1, e2, e3, e4])"
  using assms unfolding run_subset_def Let_def
  apply (elim and_thenE callE liftE)
  apply (clarsimp elim!: and_thenE callE liftE retE split: loaded.splits prod.splits)
  apply (intro exI conjI)
     apply assumption
    apply assumption
  done


lemma accuracy_loop_state:
  assumes "for_loop xs (\<lambda>i accs. and_then (lift (g i)) (\<lambda>a. ret (h i accs a))) accs0 s = (Inr accs, s')"
  shows "s' = s"
  by (rule for_loop_invariant [where I = "\<lambda>pre a t. t = s", OF assms])
     (auto elim!: and_thenE liftE retE)

lemma run_subset_trace:
  assumes "run_subset E dataset_dir n_classes n_attr n_bootstrap fast base_seed subset_n accs0 t
             = (Inr accs, t')"
  shows "\<exists>evs. fst t' = fst t @ evs \<and>
           filter is_data_event evs =
             [LoadDataShapes ''test'' dataset_dir []]
             @ concat (map (\<lambda>k. [MakeSubsetShapes dataset_dir subset_n n_classes (base_seed + int k),
                                   LoadDataShapes ''train-val'' dataset_dir (''sub'' @ str_int subset_n @ ''/''),
                                   AddHistories n_bootstrap]) [0 ..< nat n_bootstrap])
             @ [MakeSubsetShapes dataset_dir subset_n n_classes base_seed] \<and>
           well_seeded base_seed evs \<and> reloads_loss evs"
proof -
  let ?block = "\<lambda>k. [MakeSubsetShapes dataset_dir subset_n n_classes (base_seed + int k),
                      LoadDataShapes ''train-val'' dataset_dir (''sub'' @ str_int subset_n @ ''/''),
                      AddHistories n_bootstrap]"
  from run_subset_steps [OF assms] obtain test_loader s1 seed histories_total s2 s3 e1 e2 e3 e4 where
    a: "fst s1 = fst t @ [LoadDataShapes ''test'' dataset_dir []]"
    and loop: "for_loop [0 ..< nat n_bootstrap]
             (bootstrap_iteration E dataset_dir n_classes n_attr subset_n (''sub'' @ str_int subset_n @ ''/'')
                test_loader n_bootstrap fast base_seed) (base_seed, None) s1
             = (Inr (seed, histories_total), s2)"
    and accl: "for_loop [0 ..< length (MODEL_STRINGS E)]
                 (\<lambda>i accs. and_then (lift (first_test_accuracy histories_total i))
                    (\<lambda>a. ret (accs[i := accs ! i @ [a]]))) accs0 s2 = (Inr accs, s3)"
    and tail: "fst t' = fst s3 @ [e1, e2, e3, e4, MakeSubsetShapes dataset_dir subset_n n_classes base_seed]"
    and quiet: "list_all (\<lambda>ev. \<not> is_data_event ev \<and> \<not> is_seed ev \<and> \<not> is_training ev
                             \<and> \<not> is_torch_load ev) [e1, e2, e3, e4]"
    by (elim exE conjE)
  have s32: "s3 = s2" using accl by (rule accuracy_loop_state)
  define I where "I = (\<lambda>(pre :: nat list) (acc :: int \<times> history list option) (u :: 'a run_state).
      \<exists>evs. fst u = fst s1 @ evs \<and> fst acc = base_seed + int (length pre) \<and>
            filter is_data_event evs = concat (map ?block [0 ..< length pre]) \<and>
            well_seeded base_seed evs \<and> reloads_loss evs)"
  have init: "I [] (base_seed, None) s1" unfolding I_def by simp
  have step: "I (pre @ [i]) a' u'"
    if sp: "[0 ..< nat n_bootstrap] = pre @ i # post" and inv: "I pre a u"
      and run: "bootstrap_iteration E dataset_dir n_classes n_attr subset_n (''sub'' @ str_int subset_n @ ''/'')
                test_loader n_bootstrap fast base_seed i a u = (Inr a', u')"
    for pre i post a u a' u'
  proof -
    obtain sd ht where a: "a = (sd, ht)" by (cases a)
    obtain sd' ht' where a': "a' = (sd', ht')" by (cases a')
    from inv obtain evs where
      i1: "fst u = fst s1 @ evs" "sd = base_seed + int (length pre)"
        "filter is_data_event evs = concat (map ?block [0 ..< length pre])"
        "well_seeded base_seed evs" "reloads_loss evs"
      unfolding I_def a by auto
    from bootstrap_iteration_trace [OF run [unfolded a a']] obtain evs' where
      i2: "fst u' = fst u @ evs'"
        "filter is_data_event evs' = [MakeSubsetShapes dataset_dir subset_n n_classes sd,
                                       LoadDataShapes ''train-val'' dataset_dir (''sub'' @ str_int subset_n @ ''/''),
                                       AddHistories n_bootstrap]"
        "well_seeded base_seed evs'" "reloads_loss evs'" "sd' = sd + 1"
      by (elim exE conjE)
    have "fst u' = fst s1 @ (evs @ evs')" using i1(1) i2(1) by simp
    moreover have "fst a' = base_seed + int (length (pre @ [i]))"
      using i1(2) i2(5) a' by simp
    moreover have "filter is_data_event (evs @ evs') = concat (map ?block [0 ..< length (pre @ [i])])"
      using i1(2,3) i2(2) by simp
    moreover have "well_seeded base_seed (evs @ evs')" using i1(4) i2(3) by (rule well_seeded_append)
    moreover have "reloads_loss (evs @ evs')" using i1(5) i2(4) by (rule reloads_loss_append)
    ultimately show ?thesis unfolding I_def by blast
  qed
  have "I [0 ..< nat n_bootstrap] (seed, histories_total) s2"
    by (rule for_loop_invariant [where I = I, OF loop init]) (rule step; assumption)
  then obtain evs where
    f: "fst s2 = fst s1 @ evs"
      "filter is_data_event evs = concat (map ?block [0 ..< nat n_bootstrap])"
      "well_seeded base_seed evs" "reloads_loss evs"
    unfolding I_def by auto
  let ?head = "[LoadDataShapes ''test'' dataset_dir []]"
  let ?tail = "[e1, e2, e3, e4, MakeSubsetShapes dataset_dir subset_n n_classes base_seed]"
  let ?evs = "?head @ evs @ ?tail"
  have q: "list_all (\<lambda>ev. \<not> is_seed ev \<and> \<not> is_training ev) ?tail"
    "list_all (\<lambda>ev. \<not> is_training ev \<and> \<not> is_torch_load ev) ?tail"
    "filter is_data_event ?tail = [MakeSubsetShapes dataset_dir subset_n n_classes base_seed]"
    using quiet by simp_all
  have "fst t' = fst t @ ?evs" using a f(1) tail s32 by simp
  moreover have "filter is_data_event ?evs = ?head @ concat (map ?block [0 ..< nat n_bootstrap])
             @ [MakeSubsetShapes dataset_dir subset_n n_classes base_seed]"
    using f(2) q(3) by simp
  moreover have "well_seeded base_seed ?evs"
    by (intro well_seeded_append f(3) quiet_well_seeded q(1)) simp
  moreover have "reloads_loss ?evs"
    by (intro reloads_loss_append f(4) quiet_reloads_loss q(2)) simp
  ultimately show ?thesis by blast
qed

lemma run_models_on_subsets_and_plot_trace:
  assumes "run_models_on_subsets_and_plot E dataset_dir n_classes n_attr subsets n_bootstrap fast
             base_seed s = (Inr u, s')"
  shows "\<exists>evs. fst s' = fst s @ evs \<and>
           filter is_data_event evs =
             concat (map (\<lambda>subset_n.
               [LoadDataShapes ''test'' dataset_dir []]
               @ concat (map (\<lambda>k. [MakeSubsetShapes dataset_dir subset_n n_classes (base_seed + int k),
                                     LoadDataShapes ''train-val'' dataset_dir (''sub'' @ str_int subset_n @ ''/''),
                                     AddHistories n_bootstrap]) [0 ..< nat n_bootstrap])
               @ [MakeSubsetShapes dataset_dir subset_n n_classes base_seed]) subsets) \<and>
           well_seeded base_seed evs \<and> reloads_loss evs"
proof -
  let ?sub = "\<lambda>subset_n.
               [LoadDataShapes ''test'' dataset_dir []]
               @ concat (map (\<lambda>k. [MakeSubsetShapes dataset_dir subset_n n_classes (base_seed + int k),
                                     LoadDataShapes ''train-val'' dataset_dir (''sub'' @ str_int subset_n @ ''/''),
                                     AddHistories n_bootstrap]) [0 ..< nat n_bootstrap])
               @ [MakeSubsetShapes dataset_dir subset_n n_classes base_seed]"
  from assms obtain accs s1 e1 e2 where
    loop: "for_loop subsets (run_subset E dataset_dir n_classes n_attr n_bootstrap fast base_seed)
             (replicate (length (MODEL_STRINGS E)) []) s = (Inr accs, s1)"
    and tail: "fst s' = fst s1 @ [e1, e2]"
    and quiet: "list_all (\<lambda>ev. \<not> is_data_event ev \<and> \<not> is_seed ev \<and> \<not> is_training ev
                             \<and> \<not> is_torch_load ev) [e1, e2]"
    unfolding run_models_on_subsets_and_plot_def Let_def
    by (elim and_thenE callE) auto
  define I where "I = (\<lambda>(pre :: int list) (acc :: rat list list) (t :: 'a run_state).
      \<exists>evs. fst t = fst s @ evs \<and> filter is_data_event evs = concat (map ?sub pre) \<and>
            well_seeded base_seed evs \<and> reloads_loss evs)"
  have init: "I [] (replicate (length (MODEL_STRINGS E)) []) s" unfolding I_def by simp
  have step: "I (pre @ [i]) a' t'"
    if "subsets = pre @ i # post" and inv: "I pre a t"
      and run: "run_subset E dataset_dir n_classes n_attr n_bootstrap fast base_seed i a t = (Inr a', t')"
    for pre i post a t a' t'
  proof -
    from inv obtain evs where
      i1: "fst t = fst s @ evs" "filter is_data_event evs = concat (map ?sub pre)"
        "well_seeded base_seed evs" "reloads_loss evs"
      unfolding I_def by auto
    from run_subset_trace [OF run] obtain evs' where
      i2: "fst t' = fst t @ evs'" "filter is_data_event evs' = ?sub i"
        "well_seeded base_seed evs'" "reloads_loss evs'"
      by (elim exE conjE)
    have "fst t' = fst s @ (evs @ evs')" using i1(1) i2(1) by simp
    moreover have "filter is_data_event (evs @ evs') = concat (map ?sub (pre @ [i]))"
      using i1(2) i2(2) by simp
    moreover have "well_seeded base_seed (evs @ evs')" using i1(3) i2(3) by (rule well_seeded_append)
    moreover have "reloads_loss (evs @ evs')" using i1(4) i2(4) by (rule reloads_loss_append)
    ultimately show ?thesis unfolding I_def by blast
  qed
  have "I subsets accs s1"
    by (rule for_loop_invariant [where I = I, OF loop init]) (rule step; assumption)
  then obtain evs where
    f: "fst s1 = fst s @ evs" "filter is_data_event evs = concat (map ?sub subsets)"
      "well_seeded base_seed evs" "reloads_loss evs"
    unfolding I_def by auto
  let ?evs = "evs @ [e1, e2]"
  have q: "list_all (\<lambda>ev. \<not> is_seed ev \<and> \<not> is_training ev) [e1, e2]"
    "list_all (\<lambda>ev. \<not> is_training ev \<and> \<not> is_torch_load ev) [e1, e2]"
    "filter is_data_event [e1, e2] = []"
    using quiet by simp_all
  have "fst s' = fst s @ ?evs" using f(1) tail by simp
  moreover have "filter is_data_event ?evs = concat (map ?sub subsets)"
    using f(2) q(3) by simp
  moreover have "well_seeded base_seed ?evs"
    by (intro well_seeded_append f(3) quiet_well_seeded q(1))
  moreover have "reloads_loss ?evs"
    by (intro reloads_loss_append f(4) quiet_reloads_loss q(2))
  ultimately show ?thesis by blast
qed

lemma seed_not_training: "is_seed ev \<Longrightarrow> \<not> is_training ev"
  by (cases ev) auto

lemma well_seeded_seeds:
  "well_seeded b evs \<Longrightarrow> ev \<in> set evs \<Longrightarrow> is_seed ev \<Longrightarrow> ev = SeedEverything b"
  by (induction b evs rule: well_seeded.induct) (auto split: if_splits dest: seed_not_training)

lemma well_seeded_training_preceded:
  "well_seeded b evs \<Longrightarrow> i < length evs \<Longrightarrow> is_training (evs ! i)
     \<Longrightarrow> 0 < i \<and> evs ! (i - 1) = SeedEverything b"
proof (induction b evs arbitrary: i rule: well_seeded.induct)
  case (1 b)
  then show ?case by simp
next
  case (2 b ev)
  then show ?case by simp
next
  case (3 b ev ev' rest)
  show ?case
  proof (cases "is_seed ev")
    case True
    with "3.prems"(1) have ev: "ev = SeedEverything b" and ws: "well_seeded b rest" by simp_all
    show ?thesis
    proof (cases i)
      case 0
      with "3.prems"(3) ev show ?thesis by simp
    next
      case (Suc j)
      show ?thesis
      proof (cases j)
        case 0
        with Suc ev show ?thesis by simp
      next
        case (Suc k)
        with \<open>i = Suc j\<close> "3.prems"(2,3) have "k < length rest" "is_training (rest ! k)" by simp_all
        from "3.IH"(1) [OF True ws this] have "0 < k \<and> rest ! (k - 1) = SeedEverything b" .
        then obtain m where "k = Suc m" "rest ! m = SeedEverything b" by (cases k) auto
        with Suc \<open>i = Suc j\<close> show ?thesis by simp
      qed
    qed
  next
    case False
    with "3.prems"(1) have nt: "\<not> is_training ev" and ws: "well_seeded b (ev' # rest)" by simp_all
    show ?thesis
    proof (cases i)
      case 0
      with "3.prems"(3) nt show ?thesis by simp
    next
      case (Suc j)
      with "3.prems"(2,3) have "j < length (ev' # rest)" "is_training ((ev' # rest) ! j)" by simp_all
      from "3.IH"(2) [OF False ws this] have "0 < j \<and> (ev' # rest) ! (j - 1) = SeedEverything b" .
      then obtain m where "j = Suc m" "(ev' # rest) ! m = SeedEverything b" by (cases j) auto
      with Suc show ?thesis by simp
    qed
  qed
qed

lemma sample_training_run:
  "train_and_evaluate_shapes sample_collaborators 10 5 \<lparr> batches = [], dataset_len = 0 \<rparr>
      \<lparr> batches = [], dataset_len = 0 \<rparr> sample_test_loader ''sub3/'' None False 2 (Some 57) ([], 0)
     = (Inr sample_histories, (sample_training_trace, 57))"
  by code_simp

lemma sample_driver_run:
  "run_models_on_subsets_and_plot sample_collaborators ''data/'' 10 5 [3] 2 False 57 ([], 0)
     = (Inr (), (sample_driver_trace, 57))"
  by code_simp

text \<open>
  Claim C3. A run of \<open>run_models_on_subsets_and_plot\<close> with two bootstrap iterations and
  base seed 57 that returns makes, among the calls that load or regenerate data, exactly
  these per requested subset and in this order: one load of the test set; the
  regeneration of the subset with seed 57, the load of its training and validation sets
  and the aggregation of the histories; the same with seed 58; and, after the last
  iteration, one more regeneration of the subset with seed 57.
\<close>

theorem driver_subset_regeneration_seeds:
  assumes "run_models_on_subsets_and_plot E dataset_dir n_classes n_attr subsets 2 fast 57 s = (Inr u, s')"
  shows "\<exists>evs. fst s' = fst s @ evs \<and>
           filter is_data_event evs =
             concat (map (\<lambda>subset_n.
               [LoadDataShapes ''test'' dataset_dir [],
                MakeSubsetShapes dataset_dir subset_n n_classes 57,
                LoadDataShapes ''train-val'' dataset_dir (''sub'' @ str_int subset_n @ ''/''),
                AddHistories 2,
                MakeSubsetShapes dataset_dir subset_n n_classes 58,
                LoadDataShapes ''train-val'' dataset_dir (''sub'' @ str_int subset_n @ ''/''),
                AddHistories 2,
                MakeSubsetShapes dataset_dir subset_n n_classes 57]) subsets)"
proof -
  have two: "[0 ..< nat 2] = [0, 1]" by (simp add: upt_rec)
  from run_models_on_subsets_and_plot_trace [OF assms] obtain evs where
    "fst s' = fst s @ evs"
    "filter is_data_event evs =
             concat (map (\<lambda>subset_n.
               [LoadDataShapes ''test'' dataset_dir []]
               @ concat (map (\<lambda>k. [MakeSubsetShapes dataset_dir subset_n n_classes (57 + int k),
                                     LoadDataShapes ''train-val'' dataset_dir (''sub'' @ str_int subset_n @ ''/''),
                                     AddHistories 2]) [0 ..< nat 2])
               @ [MakeSubsetShapes dataset_dir subset_n n_classes 57]) subsets)"
    by (elim exE conjE)
  then show ?thesis unfolding two by simp
qed

theorem driver_subset_regeneration_seeds_witness:
  "run_models_on_subsets_and_plot sample_collaborators ''data/'' 10 5 [3] 2 False 57 ([], 0)
     = (Inr (), (sample_driver_trace, 57)) \<and>
   filter is_data_event sample_driver_trace =
     [LoadDataShapes ''test'' ''data/'' [],
      MakeSubsetShapes ''data/'' 3 10 57, LoadDataShapes ''train-val'' ''data/'' ''sub3/'', AddHistories 2,
      MakeSubsetShapes ''data/'' 3 10 58, LoadDataShapes ''train-val'' ''data/'' ''sub3/'', AddHistories 2,
      MakeSubsetShapes ''data/'' 3 10 57]"
proof -
  have s3: "str_int 3 = ''3''"
    by (simp add: str_int_def str_nat.simps digit_char_def)
  from driver_subset_regeneration_seeds [OF sample_driver_run]
  have "filter is_data_event sample_driver_trace =
     [LoadDataShapes ''test'' ''data/'' [],
      MakeSubsetShapes ''data/'' 3 10 57, LoadDataShapes ''train-val'' ''data/'' ''sub3/'', AddHistories 2,
      MakeSubsetShapes ''data/'' 3 10 58, LoadDataShapes ''train-val'' ''data/'' ''sub3/'', AddHistories 2,
      MakeSubsetShapes ''data/'' 3 10 57]"
    by (simp add: s3)
  with sample_driver_run show ?thesis by simp
qed

text \<open>
  Claim C9. In a run of \<open>run_models_on_subsets_and_plot\<close> that returns, for any number
  of bootstrap iterations and any base seed, every call of \<^verbatim>\<open>seed_everything\<close> has
  the base seed as its argument, and every training (\<^verbatim>\<open>train_simple\<close> or
  \<^verbatim>\<open>train_cbm\<close>) is immediately preceded by such a call: the training seed does
  not change from one bootstrap iteration to the next.
\<close>

theorem driver_training_seed_is_base_seed:
  assumes "run_models_on_subsets_and_plot E dataset_dir n_classes n_attr subsets n_bootstrap fast
             base_seed s = (Inr u, s')"
  shows "\<exists>evs. fst s' = fst s @ evs \<and> well_seeded base_seed evs \<and>
           (\<forall>ev \<in> set evs. is_seed ev \<longrightarrow> ev = SeedEverything base_seed) \<and>
           (\<forall>i < length evs. is_training (evs ! i) \<longrightarrow> 0 < i \<and> evs ! (i - 1) = SeedEverything base_seed)"
proof -
  from run_models_on_subsets_and_plot_trace [OF assms] obtain evs where
    e: "fst s' = fst s @ evs" "well_seeded base_seed evs"
    by (elim exE conjE)
  from e(2) have "\<forall>ev \<in> set evs. is_seed ev \<longrightarrow> ev = SeedEverything base_seed"
    using well_seeded_seeds by blast
  moreover from e(2) have "\<forall>i < length evs. is_training (evs ! i)
      \<longrightarrow> 0 < i \<and> evs ! (i - 1) = SeedEverything base_seed"
    using well_seeded_training_preceded by blast
  ultimately show ?thesis using e by blast
qed

theorem driver_training_seed_is_base_seed_witness:
  "run_models_on_subsets_and_plot sample_collaborators ''data/'' 10 5 [3] 2 False 57 ([], 0)
     = (Inr (), (sample_driver_trace, 57)) \<and>
   well_seeded 57 sample_driver_trace \<and>
   filter is_seed sample_driver_trace = replicate 4 (SeedEverything 57) \<and>
   length (filter is_training sample_driver_trace) = 4"
proof -
  from driver_training_seed_is_base_seed [OF sample_driver_run]
  have "well_seeded 57 sample_driver_trace" by simp
  moreover have "filter is_seed sample_driver_trace = replicate 4 (SeedEverything 57)"
    "length (filter is_training sample_driver_trace) = 4"
    by (simp_all add: sample_driver_trace_def sample_training_trace_def numeral_eq_Suc)
  ultimately show ?thesis using sample_driver_run by simp
qed

text \<open>
  Claim C6. In a run of \<open>train_and_evaluate_shapes\<close> that returns, every training is
  immediately followed by the load of the \<^verbatim>\<open>_loss.pth\<close> checkpoint of that model
  (folder, registered model string, \<^verbatim>\<open>_b\<close> and the bootstrap count), one per
  returned history and in the order of the models, and no other checkpoint is loaded; and
  every returned history maps \<^verbatim>\<open>test_accuracy\<close> to the one-element list of the
  accuracy of the reloaded model on the test set.
\<close>

theorem train_and_evaluate_shapes_reloads_loss_checkpoint:
  assumes "train_and_evaluate_shapes E n_classes n_attr train_loader val_loader test_loader sub_dir
             hyperparameters fast n_bootstrap seed s = (Inr histories, s')"
  shows "\<exists>evs. fst s' = fst s @ evs \<and> reloads_loss evs \<and>
           map loss_checkpoint (filter is_training evs) =
             map (\<lambda>i. save_model_path_of n_classes n_attr fast sub_dir @ MODEL_STRINGS E ! i @ ''_b''
                        @ str_int n_bootstrap @ ''_loss.pth'') [0 ..< length histories] \<and>
           list_all (evaluated_on_loss_checkpoint E test_loader) histories"
proof -
  from train_and_evaluate_shapes_trace [OF assms] obtain evs where
    "fst s' = fst s @ evs" "reloads_loss evs"
    "map loss_checkpoint (filter is_training evs) =
             map (\<lambda>i. save_model_path_of n_classes n_attr fast sub_dir @ MODEL_STRINGS E ! i @ ''_b''
                        @ str_int n_bootstrap @ ''_loss.pth'') [0 ..< length histories]"
    "list_all (evaluated_on_loss_checkpoint E test_loader) histories"
    by (elim exE conjE)
  then show ?thesis by (intro exI conjI)
qed

theorem train_and_evaluate_shapes_reloads_loss_checkpoint_witness:
  "train_and_evaluate_shapes sample_collaborators 10 5 \<lparr> batches = [], dataset_len = 0 \<rparr>
      \<lparr> batches = [], dataset_len = 0 \<rparr> sample_test_loader ''sub3/'' None False 2 (Some 57) ([], 0)
     = (Inr sample_histories, (sample_training_trace, 57)) \<and>
   reloads_loss sample_training_trace \<and>
   filter is_torch_load sample_training_trace =
     [TorchLoad ''saved_models/c10_a5/sub3/cnn_b2_loss.pth'',
      TorchLoad ''saved_models/c10_a5/sub3/cbm_b2_loss.pth''] \<and>
   list_all (evaluated_on_loss_checkpoint sample_collaborators sample_test_loader) sample_histories \<and>
   map (\<lambda>h. map_of h ''test_accuracy'') sample_histories = [Some [100 / 3], Some [200 / 3]]"
proof -
  from train_and_evaluate_shapes_reloads_loss_checkpoint [OF sample_training_run]
  have "reloads_loss sample_training_trace"
    "list_all (evaluated_on_loss_checkpoint sample_collaborators sample_test_loader) sample_histories"
    by simp_all
  moreover have "filter is_torch_load sample_training_trace =
     [TorchLoad ''saved_models/c10_a5/sub3/cnn_b2_loss.pth'',
      TorchLoad ''saved_models/c10_a5/sub3/cbm_b2_loss.pth'']"
    by (simp add: sample_training_trace_def)
  moreover have "map (\<lambda>h. map_of h ''test_accuracy'') sample_histories = [Some [100 / 3], Some [200 / 3]]"
    by (simp add: sample_histories_def)
  ultimately show ?thesis using sample_training_run by simp
qed

section \<open>Verified properties: the history aggregator\<close>

lemma add_sequences_Inr:
  "add_sequences xs ys = Inr zs \<Longrightarrow> length xs = length ys \<and> zs = map (\<lambda>(x, y). x + y) (zip xs ys)"
  by (induction xs ys arbitrary: zs rule: add_sequences.induct) (auto split: sum.splits)

lemma add_sequences_same_length:
  "length xs = length ys \<Longrightarrow> add_sequences xs ys = Inr (map (\<lambda>(x, y). x + y) (zip xs ys))"
  by (induction xs ys rule: list_induct2) auto

lemma add_sequences_mismatch:
  "length xs \<noteq> length ys \<Longrightarrow> \<exists>e. add_sequences xs ys = Inl e"
  by (induction xs ys rule: add_sequences.induct) (auto split: sum.splits)

lemma add_history_keys:
  "add_history running new = Inr r \<Longrightarrow> map fst r = map fst running"
  by (induction running new arbitrary: r rule: add_history.induct) (auto split: sum.splits)

lemma add_history_shared:
  assumes "add_history running new = Inr r" and "map_of running k = Some xs" and "map_of new k = Some ys"
  shows "length xs = length ys \<and> map_of r k = Some (map (\<lambda>(x, y). x + y) (zip xs ys))"
  using assms
proof (induction running new arbitrary: r rule: add_history.induct)
  case (1 new)
  then show ?case by simp
next
  case (2 k' xs' running new)
  from "2.prems"(1) obtain zs rest where
    z: "(case map_of new k' of None \<Rightarrow> Inr xs' | Some ys \<Rightarrow> add_sequences xs' ys) = Inr zs"
    and r: "add_history running new = Inr rest" and rr: "r = (k', zs) # rest"
    by (auto split: sum.splits)
  show ?case
  proof (cases "k' = k")
    case True
    with "2.prems"(2,3) z have "add_sequences xs ys = Inr zs" by simp
    from add_sequences_Inr [OF this] True rr show ?thesis by simp
  next
    case False
    with "2.prems"(2) have "map_of running k = Some xs" by simp
    from "2.IH" [OF z r this "2.prems"(3)] False rr show ?thesis by simp
  qed
qed

lemma add_history_mismatch:
  assumes "map_of running k = Some xs" and "map_of new k = Some ys" and "length xs \<noteq> length ys"
  shows "\<exists>e. add_history running new = Inl e"
proof (cases "add_history running new")
  case (Inl e)
  then show ?thesis by blast
next
  case (Inr r)
  from add_history_shared [OF Inr assms(1,2)] assms(3) show ?thesis by simp
qed

lemma add_history_total:
  assumes "\<forall>k xs ys. map_of running k = Some xs \<and> map_of new k = Some ys \<longrightarrow> length xs = length ys"
    and "distinct (map fst running)"
  shows "\<exists>r. add_history running new = Inr r"
  using assms
proof (induction running new rule: add_history.induct)
  case (1 new)
  then show ?case by simp
next
  case (2 k xs running new)
  have z: "\<exists>zs. (case map_of new k of None \<Rightarrow> Inr xs | Some ys \<Rightarrow> add_sequences xs ys) = Inr zs"
  proof (cases "map_of new k")
    case None
    then show ?thesis by simp
  next
    case (Some ys)
    from "2.prems"(1) [THEN spec, of k, THEN spec, of xs, THEN spec, of ys] Some
    have "length xs = length ys" by simp
    with Some show ?thesis by (simp add: add_sequences_same_length)
  qed
  then obtain zs where zs: "(case map_of new k of None \<Rightarrow> Inr xs | Some ys \<Rightarrow> add_sequences xs ys) = Inr zs" ..
  have "\<forall>k' xs ys. map_of running k' = Some xs \<and> map_of new k' = Some ys \<longrightarrow> length xs = length ys"
  proof (intro allI impI)
    fix k' xs' ys' assume a: "map_of running k' = Some xs' \<and> map_of new k' = Some ys'"
    then have "k' \<in> fst ` set running" by (metis map_of_eq_None_iff option.distinct(1))
    with "2.prems"(2) have "k' \<noteq> k" by auto
    with a "2.prems"(1) [THEN spec, of k', THEN spec, of xs', THEN spec, of ys']
    show "length xs' = length ys'" by simp
  qed
  moreover from "2.prems"(2) have "distinct (map fst running)" by simp
  ultimately obtain rest where "add_history running new = Inr rest"
    using "2.IH" [OF zs] by blast
  with zs show ?case by simp
qed


lemma add_all_Inr:
  "add_all ts ns = Inr r \<Longrightarrow>
     length ts = length ns \<and> length r = length ts \<and>
     (\<forall>i < length ts. add_history (ts ! i) (ns ! i) = Inr (r ! i))"
proof (induction ts ns arbitrary: r rule: add_all.induct)
  case 1
  then show ?case by simp
next
  case (2 t ts n ns)
  from "2.prems" obtain h hs where
    h: "add_history t n = Inr h" and hs: "add_all ts ns = Inr hs" and r: "r = h # hs"
    by (auto split: sum.splits)
  from "2.IH" [OF h hs] have ih: "length ts = length ns" "length hs = length ts"
    "\<forall>i < length ts. add_history (ts ! i) (ns ! i) = Inr (hs ! i)"
    by simp_all
  have "add_history ((t # ts) ! i) ((n # ns) ! i) = Inr (r ! i)" if "i < length (t # ts)" for i
    using that h ih(3) r by (cases i) simp_all
  with ih r show ?case by simp
qed simp_all

lemma add_all_total:
  "length ts = length ns \<Longrightarrow> (\<forall>i < length ts. \<exists>h. add_history (ts ! i) (ns ! i) = Inr h)
     \<Longrightarrow> \<exists>r. add_all ts ns = Inr r"
proof (induction ts ns rule: list_induct2)
  case Nil
  then show ?case by simp
next
  case (Cons t ts n ns)
  from Cons.prems [THEN spec, of 0] obtain h where h: "add_history t n = Inr h" by auto
  have "\<forall>i < length ts. \<exists>h. add_history (ts ! i) (ns ! i) = Inr h"
  proof (intro allI impI)
    fix i assume "i < length ts"
    with Cons.prems [THEN spec, of "Suc i"] show "\<exists>h. add_history (ts ! i) (ns ! i) = Inr h" by simp
  qed
  from Cons.IH [OF this] obtain r where "add_all ts ns = Inr r" ..
  with h show ?case by simp
qed

text \<open>
  Claim C8, on the aggregator as the specification describes it. With no running total
  the new histories are returned unchanged, so accumulating \<open>A\<close> and then \<open>B\<close> is
  \<open>add_histories_spec (Some A) B n\<close>: when it returns, the result has the models of
  \<open>A\<close>, and under every metric key that a model has in both \<open>A\<close> and \<open>B\<close> the two
  sequences have the same length and the result holds their elementwise sum. A shared
  key with sequences of different lengths makes the call raise. The call returns whenever
  \<open>A\<close> and \<open>B\<close> have the same number of models, keys are not repeated and all shared
  keys have sequences of equal length. The result does not depend on \<open>n_bootstrap\<close>:
  nothing is divided.
\<close>

theorem add_histories_sum_law:
  "add_histories_spec None A n = Inr A \<and>
   (add_histories_spec (Some A) B n = Inr R \<longrightarrow>
      length R = length A \<and> length B = length A \<and>
      (\<forall>i < length A. \<forall>k xs ys. map_of (A ! i) k = Some xs \<and> map_of (B ! i) k = Some ys \<longrightarrow>
         length xs = length ys \<and> map_of (R ! i) k = Some (map (\<lambda>(x, y). x + y) (zip xs ys)))) \<and>
   (i < length A \<and> i < length B \<and> map_of (A ! i) k = Some xs \<and> map_of (B ! i) k = Some ys \<and>
    length xs \<noteq> length ys \<longrightarrow> (\<exists>e. add_histories_spec (Some A) B n = Inl e)) \<and>
   (length A = length B \<and>
    (\<forall>i < length A. distinct (map fst (A ! i)) \<and>
       (\<forall>k xs ys. map_of (A ! i) k = Some xs \<and> map_of (B ! i) k = Some ys \<longrightarrow> length xs = length ys))
      \<longrightarrow> (\<exists>R. add_histories_spec (Some A) B n = Inr R)) \<and>
   add_histories_spec T B n = add_histories_spec T B n'"
proof (intro conjI impI)
  show "add_histories_spec None A n = Inr A" by (simp add: add_histories_spec_def)
next
  assume "add_histories_spec (Some A) B n = Inr R"
  then have r: "add_all A B = Inr R" by (simp add: add_histories_spec_def)
  from add_all_Inr [OF r] have l: "length A = length B" "length R = length A"
    and h: "\<forall>i < length A. add_history (A ! i) (B ! i) = Inr (R ! i)"
    by simp_all
  show "length R = length A" by (rule l(2))
  show "length B = length A" using l(1) by simp
  show "\<forall>i < length A. \<forall>k xs ys. map_of (A ! i) k = Some xs \<and> map_of (B ! i) k = Some ys \<longrightarrow>
         length xs = length ys \<and> map_of (R ! i) k = Some (map (\<lambda>(x, y). x + y) (zip xs ys))"
  proof (intro allI impI)
    fix i k xs ys
    assume i: "i < length A" and s: "map_of (A ! i) k = Some xs \<and> map_of (B ! i) k = Some ys"
    from h i have "add_history (A ! i) (B ! i) = Inr (R ! i)" by simp
    from add_history_shared [OF this s [THEN conjunct1] s [THEN conjunct2]]
    show "length xs = length ys \<and> map_of (R ! i) k = Some (map (\<lambda>(x, y). x + y) (zip xs ys))" .
  qed
next
  assume a: "i < length A \<and> i < length B \<and> map_of (A ! i) k = Some xs \<and> map_of (B ! i) k = Some ys \<and>
    length xs \<noteq> length ys"
  show "\<exists>e. add_histories_spec (Some A) B n = Inl e"
  proof (cases "add_all A B")
    case (Inl e)
    then show ?thesis by (simp add: add_histories_spec_def)
  next
    case (Inr R')
    from add_all_Inr [OF Inr] a have "add_history (A ! i) (B ! i) = Inr (R' ! i)" by simp
    moreover from a have "map_of (A ! i) k = Some xs" "map_of (B ! i) k = Some ys" by simp_all
    ultimately have "length xs = length ys" using add_history_shared by blast
    with a show ?thesis by simp
  qed
next
  assume a: "length A = length B \<and>
    (\<forall>i < length A. distinct (map fst (A ! i)) \<and>
       (\<forall>k xs ys. map_of (A ! i) k = Some xs \<and> map_of (B ! i) k = Some ys \<longrightarrow> length xs = length ys))"
  have "\<forall>i < length A. \<exists>h. add_history (A ! i) (B ! i) = Inr h"
  proof (intro allI impI)
    fix i assume "i < length A"
    with a have "distinct (map fst (A ! i))"
      "\<forall>k xs ys. map_of (A ! i) k = Some xs \<and> map_of (B ! i) k = Some ys \<longrightarrow> length xs = length ys"
      by simp_all
    from add_history_total [OF this(2) this(1)] show "\<exists>h. add_history (A ! i) (B ! i) = Inr h" .
  qed
  with a add_all_total [of A B] show "\<exists>R. add_histories_spec (Some A) B n = Inr R"
    by (simp add: add_histories_spec_def)
next
  show "add_histories_spec T B n = add_histories_spec T B n'" by (simp add: add_histories_spec_def)
qed

theorem add_histories_sum_law_witness:
  "add_histories_spec None [[(''train_loss'', [1, 2 :: rat]), (''val_loss'', [3])]] 2
     = Inr [[(''train_loss'', [1, 2]), (''val_loss'', [3])]] \<and>
   add_histories_spec (Some [[(''train_loss'', [1, 2 :: rat]), (''val_loss'', [3])]])
       [[(''train_loss'', [10, 20]), (''val_loss'', [30])]] 2
     = Inr [[(''train_loss'', [11, 22]), (''val_loss'', [33])]] \<and>
   map_of ([[(''train_loss'', [11, 22 :: rat]), (''val_loss'', [33])]] ! 0) ''train_loss''
     = Some (map (\<lambda>(x, y). x + y) (zip [1, 2] [10, 20])) \<and>
   (\<exists>e. add_histories_spec (Some [[(''train_loss'', [1, 2 :: rat]), (''val_loss'', [3])]])
          [[(''train_loss'', [10]), (''val_loss'', [30])]] 2 = Inl e)"
proof -
  let ?A = "[[(''train_loss'', [1, 2 :: rat]), (''val_loss'', [3])]]"
  let ?B = "[[(''train_loss'', [10, 20 :: rat]), (''val_loss'', [30])]]"
  let ?B' = "[[(''train_loss'', [10 :: rat]), (''val_loss'', [30])]]"
  let ?R = "[[(''train_loss'', [11, 22 :: rat]), (''val_loss'', [33])]]"
  have run: "add_histories_spec (Some ?A) ?B 2 = Inr ?R"
    by (simp add: add_histories_spec_def)
  note T = add_histories_sum_law [of ?A 2 ?B ?R 0 "''train_loss''" "[1, 2]" "[10, 20]" "Some ?A" 2]
  note T' = add_histories_sum_law [of ?A 2 ?B' ?R 0 "''train_loss''" "[1, 2]" "[10]" "Some ?A" 2]
  from T have a: "add_histories_spec None ?A 2 = Inr ?A" by blast
  from T run have "\<forall>i < length ?A. \<forall>k xs ys. map_of (?A ! i) k = Some xs \<and> map_of (?B ! i) k = Some ys \<longrightarrow>
         length xs = length ys \<and> map_of (?R ! i) k = Some (map (\<lambda>(x, y). x + y) (zip xs ys))"
    by blast
  from this [THEN spec, of 0, THEN mp, THEN spec, of "''train_loss''", THEN spec, of "[1, 2]",
      THEN spec, of "[10, 20]"]
  have b: "map_of (?R ! 0) ''train_loss'' = Some (map (\<lambda>(x, y). x + y) (zip [1, 2] [10, 20]))"
    by simp
  have "0 < length ?A \<and> 0 < length ?B' \<and> map_of (?A ! 0) ''train_loss'' = Some [1, 2] \<and>
      map_of (?B' ! 0) ''train_loss'' = Some [10] \<and> length [1, 2 :: rat] \<noteq> length [10 :: rat]"
    by simp
  with T' have c: "\<exists>e. add_histories_spec (Some ?A) ?B' 2 = Inl e" by blast
  from a run b c show ?thesis by blast
qed

section \<open>Verified properties: the folder name of a configuration\<close>

lemma str_int_no_sep: "CHR ''/'' \<notin> set (str_int i)"
  by (simp add: str_int_def str_nat_no_sep)

lemma class_dir_components:
  "splitc CHR ''/'' (class_dir_of n_classes n_attr fast) =
     (''c'' @ str_int n_classes @ ''_a'' @ str_int n_attr) # (if fast then [''testing'', []] else [[]])"
proof -
  let ?X = "''c'' @ str_int n_classes @ ''_a'' @ str_int n_attr"
  have ns: "CHR ''/'' \<notin> set ?X" by (simp add: str_int_no_sep)
  have a: "splitc CHR ''/'' (?X @ CHR ''/'' # t) = ?X # splitc CHR ''/'' t" for t
    by (rule splitc_append_sep [OF ns])
  have b: "class_dir_of n_classes n_attr fast = ?X @ CHR ''/'' # (if fast then ''testing/'' else [])"
    by (simp add: class_dir_of_def Let_def)
  show ?thesis unfolding b a by simp
qed

lemma shapes_folder_string_longer:
  "shapes_folder_string (Some n_classes) (Some n_attr) s
     = (''c'' @ str_int n_classes @ ''_a'' @ str_int n_attr) @ ''_s'' @ fmt s"
  by (simp add: shapes_folder_string_def fmt_def)

lemma class_dir_not_namespaced:
  "shapes_folder_string (Some n_classes) (Some n_attr) s
     \<notin> set (splitc CHR ''/'' (class_dir_of n_classes n_attr fast))"
proof -
  let ?X = "''c'' @ str_int n_classes @ ''_a'' @ str_int n_attr"
  let ?F = "shapes_folder_string (Some n_classes) (Some n_attr) s"
  have F: "?F = ?X @ ''_s'' @ fmt s" by (rule shapes_folder_string_longer)
  have "length ?F \<noteq> length ?X" unfolding F by simp
  then have 1: "?F \<noteq> ?X" by auto
  have 2: "?F \<noteq> []" "?F \<noteq> ''testing''" by (simp_all add: shapes_folder_string_def)
  from 1 2 show ?thesis unfolding class_dir_components by auto
qed

lemma hyperparameters_file_namespaced:
  assumes "hyperparameters_file_shapes C n a s sub hard fs = Inr (folder, file)"
  shows "shapes_folder_string n a s \<in> set (names file)"
proof -
  from hyperparameters_file_shapes_cases [OF assms]
  have f: "get_full_shapes_folder_path C n a s (HYPERPARAMETERS_FOLDER C) = Inr folder"
    and n: "names file = names folder @ [''hyperparameters_sub'' @ fmt sub @ bottleneck_suffix hard @ ''.yaml'']"
    by simp_all
  from f have "shapes_folder_string n a s \<in> set (names folder)"
    by (auto simp: get_full_shapes_folder_path_eq)
  with n show ?thesis by simp
qed

text \<open>
  Claim C2, as amended. Every path that \<^verbatim>\<open>path_utils.py\<close> resolves for a Shapes
  history, model, plot or per-configuration hyperparameter file has the folder name
  \<^verbatim>\<open>c{n_classes}_a{n_attr}_s{signal_strength}\<close> among its components (for the
  histories, given that the oracle folder is a relative path). The training loop and the
  driver of \<^verbatim>\<open>evaluation.py\<close> build their folders from
  \<^verbatim>\<open>c{n_classes}_a{n_attr}/\<close>, followed by \<^verbatim>\<open>testing/\<close> in fast mode: no
  component of it is a folder name with a signal strength, whatever the signal strength.
\<close>

theorem shapes_artifact_paths_namespace:
  assumes "parse_anchor (ORACLE_FOLDER C) = []"
  shows "(\<forall>p. fst (load_history_shapes_path C n a s b sub hard oracle_only fs) = Inr p
             \<longrightarrow> shapes_folder_string n a s \<in> set (names p)) \<and>
         (\<forall>p. fst (save_history_shapes_path C n a s b sub oracle_only hard fs) = Inr p
             \<longrightarrow> shapes_folder_string n a s \<in> set (names p)) \<and>
         (\<forall>p. fst (load_model_shapes_path C n a s sub model_type metric hard adv fs) = Inr p
             \<longrightarrow> shapes_folder_string n a s \<in> set (names p)) \<and>
         (\<forall>p. fst (save_model_shapes_path C n a s sub model_type metric hard adv fs) = Inr p
             \<longrightarrow> shapes_folder_string n a s \<in> set (names p)) \<and>
         (\<forall>p. fst (save_mpo_plot_shapes_path C n a s b sub hard fs) = Inr p
             \<longrightarrow> shapes_folder_string n a s \<in> set (names p)) \<and>
         (\<forall>p. fst (save_training_plot_shapes_path C n a s b sub hard attr fs) = Inr p
             \<longrightarrow> shapes_folder_string n a s \<in> set (names p)) \<and>
         (\<forall>p. fst (save_test_plot_shapes_path C n a s b hard fs) = Inr p
             \<longrightarrow> shapes_folder_string n a s \<in> set (names p)) \<and>
         (\<forall>folder p. hyperparameters_file_shapes C n a s sub hard fs = Inr (folder, p)
             \<longrightarrow> shapes_folder_string n a s \<in> set (names p)) \<and>
         splitc CHR ''/'' (class_dir_of n_classes n_attr fast) =
           (''c'' @ str_int n_classes @ ''_a'' @ str_int n_attr) # (if fast then [''testing'', []] else [[]]) \<and>
         shapes_folder_string (Some n_classes) (Some n_attr) s'
           \<notin> set (splitc CHR ''/'' (class_dir_of n_classes n_attr fast))"
  using history_namespaced [OF assms] model_namespaced plots_namespaced
    hyperparameters_file_namespaced class_dir_components class_dir_not_namespaced
  by (intro conjI allI impI) blast+

theorem shapes_artifact_paths_namespace_witness:
  "fst (save_model_shapes_path sample_consts (Some 10) (Some 5) (Some 98) (Some 3) ''cbm'' ''loss'' True False
          Map.empty)
     = Inr (PurePath [] [''results'', ''saved_models'', ''shapes'', ''c10_a5_s98'', ''cbm_sub3_loss_hard.pth'']) \<and>
   fst (load_history_shapes_path sample_consts (Some 10) (Some 5) (Some 98) (Some 2) (Some 3) False True
          Map.empty)
     = Inr (PurePath [] [''results'', ''history'', ''shapes'', ''c10_a5_s98'', ''oracle'', ''histories_sub3_b2.pkl'']) \<and>
   shapes_folder_string (Some 10) (Some 5) (Some 98) = ''c10_a5_s98'' \<and>
   shapes_folder_string (Some 10) (Some 5) (Some 98)
     \<in> set (names (PurePath [] [''results'', ''saved_models'', ''shapes'', ''c10_a5_s98'', ''cbm_sub3_loss_hard.pth''])) \<and>
   shapes_folder_string (Some 10) (Some 5) (Some 98)
     \<in> set (names (PurePath [] [''results'', ''history'', ''shapes'', ''c10_a5_s98'', ''oracle'',
                                ''histories_sub3_b2.pkl''])) \<and>
   shapes_folder_string (Some 10) (Some 5) (Some 98) \<notin> set (splitc CHR ''/'' (class_dir_of 10 5 False))"
proof -
  have h: "parse_anchor (ORACLE_FOLDER sample_consts) = []"
    by (simp add: sample_consts_def parse_anchor_def)
  have m: "fst (save_model_shapes_path sample_consts (Some 10) (Some 5) (Some 98) (Some 3) ''cbm'' ''loss'' True False
          Map.empty)
     = Inr (PurePath [] [''results'', ''saved_models'', ''shapes'', ''c10_a5_s98'', ''cbm_sub3_loss_hard.pth''])"
    by code_simp
  have l: "fst (load_history_shapes_path sample_consts (Some 10) (Some 5) (Some 98) (Some 2) (Some 3) False True
          Map.empty)
     = Inr (PurePath [] [''results'', ''history'', ''shapes'', ''c10_a5_s98'', ''oracle'', ''histories_sub3_b2.pkl''])"
    by code_simp
  have f: "shapes_folder_string (Some 10) (Some 5) (Some 98) = ''c10_a5_s98''"
    by code_simp
  note T = shapes_artifact_paths_namespace [OF h, where n = "Some 10" and a = "Some 5" and s = "Some 98"
      and b = "Some 2" and sub = "Some 3" and hard = False and oracle_only = True and fs = Map.empty
      and n_classes = 10 and n_attr = 5 and fast = False and s' = "Some 98"]
  from T l have 1: "shapes_folder_string (Some 10) (Some 5) (Some 98)
     \<in> set (names (PurePath [] [''results'', ''history'', ''shapes'', ''c10_a5_s98'', ''oracle'',
                                ''histories_sub3_b2.pkl'']))"
    by blast
  note T' = shapes_artifact_paths_namespace [OF h, where n = "Some 10" and a = "Some 5" and s = "Some 98"
      and sub = "Some 3" and hard = True and fs = Map.empty and model_type = "''cbm''"
      and metric = "''loss''" and adv = False]
  from T' m have 2: "shapes_folder_string (Some 10) (Some 5) (Some 98)
     \<in> set (names (PurePath [] [''results'', ''saved_models'', ''shapes'', ''c10_a5_s98'', ''cbm_sub3_loss_hard.pth'']))"
    by blast
  from T have 3: "shapes_folder_string (Some 10) (Some 5) (Some 98)
      \<notin> set (splitc CHR ''/'' (class_dir_of 10 5 False))"
    by blast
  from m l f 1 2 3 show ?thesis by blast
qed

text \<open>
  Claim C2 as stated fails on \<^verbatim>\<open>evaluation.py\<close>: for 10 classes and 5 attributes the
  training loop creates and saves under \<^verbatim>\<open>saved_models/c10_a5/sub3/\<close>, and the driver
  under \<^verbatim>\<open>plots/c10_a5/\<close> and \<^verbatim>\<open>history/c10_a5/\<close>; the folder name of
  \<^verbatim>\<open>path_utils.py\<close> for the default signal strength is \<^verbatim>\<open>c10_a5_s98\<close>.
  Neither function of \<^verbatim>\<open>evaluation.py\<close> takes a signal strength.
\<close>

theorem evaluation_folders_without_signal_strength:
  "run_models_on_subsets_and_plot sample_collaborators ''data/'' 10 5 [3] 2 False 57 ([], 0)
     = (Inr (), (sample_driver_trace, 57)) \<and>
   Makedirs ''saved_models/c10_a5/sub3/'' \<in> set sample_driver_trace \<and>
   Makedirs ''plots/c10_a5/'' \<in> set sample_driver_trace \<and>
   Makedirs ''history/c10_a5/'' \<in> set sample_driver_trace \<and>
   save_model_path_of 10 5 False ''sub3/'' = ''saved_models/c10_a5/sub3/'' \<and>
   splitc CHR ''/'' (save_model_path_of 10 5 False ''sub3/'') = [''saved_models'', ''c10_a5'', ''sub3'', []] \<and>
   splitc CHR ''/'' (''plots/'' @ class_dir_of 10 5 False) = [''plots'', ''c10_a5'', []] \<and>
   splitc CHR ''/'' (''history/'' @ class_dir_of 10 5 False) = [''history'', ''c10_a5'', []] \<and>
   shapes_folder_string (Some 10) (Some 5) (Some 98) = ''c10_a5_s98''"
proof -
  have "Makedirs ''saved_models/c10_a5/sub3/'' \<in> set sample_driver_trace"
    "Makedirs ''plots/c10_a5/'' \<in> set sample_driver_trace"
    "Makedirs ''history/c10_a5/'' \<in> set sample_driver_trace"
    by (simp_all add: sample_driver_trace_def sample_training_trace_def)
  moreover have "save_model_path_of 10 5 False ''sub3/'' = ''saved_models/c10_a5/sub3/''"
    "splitc CHR ''/'' (save_model_path_of 10 5 False ''sub3/'') = [''saved_models'', ''c10_a5'', ''sub3'', []]"
    "splitc CHR ''/'' (''plots/'' @ class_dir_of 10 5 False) = [''plots'', ''c10_a5'', []]"
    "splitc CHR ''/'' (''history/'' @ class_dir_of 10 5 False) = [''history'', ''c10_a5'', []]"
    "shapes_folder_string (Some 10) (Some 5) (Some 98) = ''c10_a5_s98''"
    by code_simp+
  ultimately show ?thesis using sample_driver_run by simp
qed

end
